theory Spec2Isabelle
  imports Complex_Main
begin

section \<open>Arrays and the numerical collaborators\<close>

text \<open>
  The solver of \<^verbatim>\<open>hartree_solver.py\<close> works on numpy arrays. A one-dimensional real
  array is a list of reals, a two-dimensional complex array a list of rows, and the data
  of a dispersion (shape \<open>(n_k, norb, norb)\<close>) a list of blocks, one per k-point.
  Floating-point numbers are read as real and complex numbers: the statements below are
  about the arithmetic the code writes down. Rounding is written out in one place, the
  target function of the chemical potential, where it decides whether the root-finder
  raises or returns.
\<close>

type_synonym rvec = "real list"
type_synonym cmat = "complex list list"

datatype error = AssertionError | ValueError | RuntimeError | LinAlgError
  | AttributeError | NameError | TypeError

text \<open>The Gf object \<^verbatim>\<open>e_k\<close>: its data, and its \<^verbatim>\<open>target_shape\<close>. \<^verbatim>\<open>len(e_k.mesh)\<close>
  is the number of blocks.\<close>

record dispersion =
  data :: "cmat list"
  target_shape :: "nat \<times> nat"

definition mesh_len :: "dispersion \<Rightarrow> nat" where
  "mesh_len e = length (data e)"

text \<open>
  The routines the module imports from numpy and scipy are parameters of the model:
  \<^verbatim>\<open>np.linalg.eigh\<close>, \<^verbatim>\<open>np.linalg.eigvalsh\<close> (applied blockwise to a stack of matrices),
  \<^verbatim>\<open>scipy.optimize.brentq\<close> and \<^verbatim>\<open>np.linalg.inv\<close>; the last two can raise, and their
  exceptions are values of the result. The field \<open>rnd\<close> is the rounding of the exact
  result of one floating-point operation to a double; the identity gives exact
  arithmetic.
\<close>

record extlib =
  eigh :: "cmat \<Rightarrow> rvec \<times> cmat"
  eigvalsh :: "cmat \<Rightarrow> rvec"
  brentq :: "(real \<Rightarrow> real) \<Rightarrow> real \<Rightarrow> real \<Rightarrow> error + real"
  linalg_inv :: "cmat \<Rightarrow> error + cmat"
  rnd :: "real \<Rightarrow> real"

text \<open>A keyword argument with a default value: \<open>None\<close> when the caller leaves it out.\<close>

definition default_to :: "'a \<Rightarrow> 'a option \<Rightarrow> 'a" where
  "default_to d x = (case x of None \<Rightarrow> d | Some v \<Rightarrow> v)"

definition np_zeros :: "nat \<times> nat \<Rightarrow> cmat" where
  "np_zeros sh = replicate (fst sh) (replicate (snd sh) 0)"

definition np_eye :: "nat \<Rightarrow> cmat" where
  "np_eye n = map (\<lambda>i. map (\<lambda>j. if i = j then 1 else 0) [0..<n]) [0..<n]"

definition shape :: "cmat \<Rightarrow> nat \<times> nat" where
  "shape A = (length A, (case A of [] \<Rightarrow> 0 | r # _ \<Rightarrow> length r))"

text \<open>A numpy array is rectangular: all rows have one length.\<close>

definition is_array :: "cmat \<Rightarrow> bool" where
  "is_array A \<longleftrightarrow> list_all (\<lambda>r. length r = snd (shape A)) A"

text \<open>
  Broadcasting of two-dimensional arrays, as in \<^verbatim>\<open>e_k.data + M[None, ...]\<close>: along each
  axis the lengths agree or one of them is one, and the axis of length one is repeated;
  any other pair of shapes raises \<^verbatim>\<open>ValueError\<close> (the value \<open>None\<close> of \<open>broadcast_shape\<close>).
  An array can be stored into an array of shape \<open>sh\<close> when it broadcasts to that shape.
\<close>

definition bdim :: "nat \<Rightarrow> nat \<Rightarrow> nat option" where
  "bdim a b = (if a = b then Some a else if a = 1 then Some b else if b = 1 then Some a else None)"

definition broadcast_shape :: "nat \<times> nat \<Rightarrow> nat \<times> nat \<Rightarrow> (nat \<times> nat) option" where
  "broadcast_shape s1 s2 =
     (case bdim (fst s1) (fst s2) of
        None \<Rightarrow> None
      | Some a \<Rightarrow> (case bdim (snd s1) (snd s2) of None \<Rightarrow> None | Some b \<Rightarrow> Some (a, b)))"

definition broadcastable :: "nat \<times> nat \<Rightarrow> cmat \<Rightarrow> bool" where
  "broadcastable sh A \<longleftrightarrow> is_array A
     \<and> (fst (shape A) = fst sh \<or> fst (shape A) = 1)
     \<and> (snd (shape A) = snd sh \<or> snd (shape A) = 1)"

definition broadcast_to :: "nat \<times> nat \<Rightarrow> cmat \<Rightarrow> cmat" where
  "broadcast_to sh A =
     map (\<lambda>r. if length r = snd sh then r else replicate (snd sh) (r ! 0))
       (if length A = fst sh then A else replicate (fst sh) (A ! 0))"

text \<open>\<^verbatim>\<open>np.diag\<close> of a vector builds the diagonal matrix, of a matrix reads the diagonal.\<close>

definition np_diag_vec :: "complex list \<Rightarrow> cmat" where
  "np_diag_vec v =
     map (\<lambda>i. map (\<lambda>j. if i = j then v ! i else 0) [0..<length v]) [0..<length v]"

definition np_diag_mat :: "cmat \<Rightarrow> complex list" where
  "np_diag_mat A = map (\<lambda>i. A ! i ! i) [0..<min (fst (shape A)) (snd (shape A))]"

text \<open>\<^verbatim>\<open>np.dot(U_ab, rho_diag)\<close>: matrix times (real) vector.\<close>

definition np_dot_mv :: "cmat \<Rightarrow> rvec \<Rightarrow> complex list" where
  "np_dot_mv U v = map (\<lambda>row. \<Sum>j<length v. row ! j * complex_of_real (v ! j)) U"

text \<open>Elementwise operations on arrays of one shape, and the matrix product of \<^verbatim>\<open>np.mat\<close>.\<close>

definition madd :: "cmat \<Rightarrow> cmat \<Rightarrow> cmat" where
  "madd A B = map2 (map2 (+)) A B"

definition msub :: "cmat \<Rightarrow> cmat \<Rightarrow> cmat" where
  "msub A B = map2 (map2 (-)) A B"

definition mscale :: "complex \<Rightarrow> cmat \<Rightarrow> cmat" where
  "mscale c A = map (map ((*) c)) A"

definition matmul :: "cmat \<Rightarrow> cmat \<Rightarrow> cmat" where
  "matmul A B =
     map (\<lambda>i. map (\<lambda>j. \<Sum>k<length B. A ! i ! k * B ! k ! j) [0..<snd (shape B)])
       [0..<length A]"

definition fermi :: "real \<Rightarrow> real \<Rightarrow> real" where
  "fermi e bt = 1 / (exp (bt * e) + 1)"

section \<open>The mean-field solver\<close>

text \<open>
  The state of \<^verbatim>\<open>DensityDensityMeanFieldSolver\<close>. The attributes \<^verbatim>\<open>M\<close>, \<^verbatim>\<open>rho\<close> and
  \<^verbatim>\<open>N_tot\<close> do not exist before \<^verbatim>\<open>solve_setup\<close> or an update creates them.
\<close>

record solver =
  mu :: real
  beta :: real
  mu_max :: real
  mu_min :: real
  e_k :: dispersion
  e_k_MF :: dispersion
  norb :: nat
  U_ab :: cmat
  M :: "cmat option"
  rho :: "cmat option"
  N_tot :: "real option"
  mixing :: "real option"
  nitermax :: "int option"

definition extract_dens_dens :: "complex list list list list \<Rightarrow> cmat" where
  "extract_dens_dens chi_abcd =
     (let n = length chi_abcd
      in map (\<lambda>i1. map (\<lambda>i2. chi_abcd ! i1 ! i1 ! i2 ! i2) [0..<n]) [0..<n])"

text \<open>
  \<^verbatim>\<open>__init__\<close>. The interaction tensor \<^verbatim>\<open>U_abcd\<close> comes from the library routine
  \<^verbatim>\<open>get_rpa_tensor(H_int, ...)\<close> and is given here directly. The search interval for the
  chemical potential defaults to \<open>[-10, 10]\<close>.
\<close>

definition solver_init ::
  "dispersion \<Rightarrow> complex list list list list \<Rightarrow> real option \<Rightarrow> real option \<Rightarrow> error + solver"
where
  "solver_init ek U_abcd mu_max_arg mu_min_arg =
     (let U = extract_dens_dens U_abcd;
          s = \<lparr> mu = 0, beta = - 1,
                mu_max = default_to 10 mu_max_arg,
                mu_min = default_to (- 10) mu_min_arg,
                e_k = ek, e_k_MF = ek, norb = fst (target_shape ek), U_ab = U,
                M = None, rho = None, N_tot = None, mixing = None, nitermax = None \<rparr>
      in if target_shape ek = shape U then Inr s else Inl AssertionError)"

definition update_mean_field :: "solver \<Rightarrow> rvec \<Rightarrow> solver" where
  "update_mean_field s rho_diag = s\<lparr>M := Some (np_diag_vec (np_dot_mv (U_ab s) rho_diag))\<rparr>"

text \<open>
  \<^verbatim>\<open>__update_mean_field_dispersion\<close>: \<^verbatim>\<open>self.M\<close> is broadcast against the blocks of
  \<^verbatim>\<open>self.e_k.data\<close>, and the sum is stored into \<^verbatim>\<open>self.e_k_MF.data\<close>, whose blocks have the
  target shape: both succeed when \<^verbatim>\<open>self.M\<close> broadcasts to the target shape, and numpy
  raises \<^verbatim>\<open>ValueError\<close> otherwise.
\<close>

definition update_mean_field_dispersion :: "solver \<Rightarrow> error + solver" where
  "update_mean_field_dispersion s =
     (case M s of
        None \<Rightarrow> Inl AttributeError
      | Some m \<Rightarrow>
          if broadcastable (target_shape (e_k s)) m
          then Inr (s\<lparr>e_k_MF := (e_k_MF s)\<lparr>data :=
                      map (\<lambda>E. madd E (broadcast_to (target_shape (e_k s)) m)) (data (e_k s))\<rparr>\<rparr>)
          else Inl ValueError)"

text \<open>
  \<^verbatim>\<open>__update_chemical_potential\<close>. The argument \<^verbatim>\<open>mu0\<close> is read and never used: the
  root-finder gets the target function and the interval \<open>[mu_min, mu_max]\<close> only. An
  exception of \<^verbatim>\<open>brentq\<close> is not caught, so \<^verbatim>\<open>self.mu\<close> keeps its value then.

  The target function \<^verbatim>\<open>np.sum(fermi(e - mu, beta)) / n_k - N_tot\<close> is evaluated in double
  precision, and the root-finder looks at the signs and zeros of the values it gets: a
  fully occupied level gives \<^verbatim>\<open>1./(np.exp(-40.) + 1) == 1.0\<close>, so that the function is
  exactly zero where the real function is only close to it. Every operation is therefore
  followed by the rounding \<open>r\<close>; the additions of \<^verbatim>\<open>np.sum\<close> are taken from left to right
  over the flattened array.
\<close>

definition fermi_rnd :: "(real \<Rightarrow> real) \<Rightarrow> real \<Rightarrow> real \<Rightarrow> real" where
  "fermi_rnd r e bt = r (1 / r (r (exp (r (bt * e))) + 1))"

definition np_sum :: "(real \<Rightarrow> real) \<Rightarrow> real list \<Rightarrow> real" where
  "np_sum r xs = foldl (\<lambda>acc x. r (acc + x)) 0 xs"

definition target_function ::
  "(real \<Rightarrow> real) \<Rightarrow> rvec list \<Rightarrow> nat \<Rightarrow> real \<Rightarrow> real \<Rightarrow> real \<Rightarrow> real"
where
  "target_function r e n_k bt N m =
     (let n = r (np_sum r (map (\<lambda>x. fermi_rnd r (r (x - m)) bt) (concat e)) / real n_k)
      in r (n - N))"

definition update_chemical_potential ::
  "extlib \<Rightarrow> solver \<Rightarrow> real \<Rightarrow> real \<Rightarrow> real option \<Rightarrow> error + solver"
where
  "update_chemical_potential lib s bt N mu0 =
     (let mu0' = (case mu0 of None \<Rightarrow> mu s | Some x \<Rightarrow> x);
          n_k = mesh_len (e_k_MF s);
          e = map (eigvalsh lib) (data (e_k_MF s))
      in case brentq lib (target_function (rnd lib) e n_k bt N) (mu_min s) (mu_max s) of
           Inl err \<Rightarrow> Inl err
         | Inr m \<Rightarrow> Inr (s\<lparr>mu := m\<rparr>))"

text \<open>
  \<^verbatim>\<open>np.einsum('kab,kb,kcb->ac', V, f, conj(V))\<close> and its per-k variant \<^verbatim>\<open>'->kac'\<close>; the
  orbital indices run over the target shape.
\<close>

definition einsum_kac :: "nat \<Rightarrow> cmat \<Rightarrow> rvec \<Rightarrow> cmat" where
  "einsum_kac n V f =
     map (\<lambda>a. map (\<lambda>c. \<Sum>b<n. V ! a ! b * complex_of_real (f ! b) * cnj (V ! c ! b)) [0..<n])
       [0..<n]"

definition einsum_ac :: "nat \<Rightarrow> cmat list \<Rightarrow> rvec list \<Rightarrow> cmat" where
  "einsum_ac n Vs fs =
     map (\<lambda>a. map (\<lambda>c. \<Sum>k<length Vs. \<Sum>b<n.
                  Vs ! k ! a ! b * complex_of_real (fs ! k ! b) * cnj (Vs ! k ! c ! b)) [0..<n])
       [0..<n]"

definition mdiv :: "cmat \<Rightarrow> complex \<Rightarrow> cmat" where
  "mdiv A c = map (map (\<lambda>z. z / c)) A"

definition update_density_matrix :: "extlib \<Rightarrow> solver \<Rightarrow> real \<Rightarrow> solver \<times> rvec" where
  "update_density_matrix lib s bt =
     (let eV = map (eigh lib) (data (e_k_MF s));
          e = map (\<lambda>p. map (\<lambda>x. x - mu s) (fst p)) eV;
          V = map snd eV;
          r = einsum_ac (fst (target_shape (e_k_MF s))) V (map (map (\<lambda>x. fermi x bt)) e);
          r' = mdiv r (of_nat (mesh_len (e_k_MF s)))
      in (s\<lparr>rho := Some r'\<rparr>, map Re (np_diag_mat r')))"

definition density_matrix_step :: "extlib \<Rightarrow> solver \<Rightarrow> rvec \<Rightarrow> error + solver \<times> rvec" where
  "density_matrix_step lib s rho_diag =
     (case update_mean_field_dispersion (update_mean_field s rho_diag) of
        Inl err \<Rightarrow> Inl err
      | Inr s1 \<Rightarrow>
          (case N_tot s1 of
             None \<Rightarrow> Inl AttributeError
           | Some N \<Rightarrow>
               (case update_chemical_potential lib s1 (beta s1) N (Some (mu s1)) of
                  Inl err \<Rightarrow> Inl err
                | Inr s2 \<Rightarrow> Inr (update_density_matrix lib s2 (beta s2)))))"

definition solve_setup ::
  "extlib \<Rightarrow> solver \<Rightarrow> real \<Rightarrow> real \<Rightarrow> cmat option \<Rightarrow> real option \<Rightarrow> error + solver \<times> rvec"
where
  "solve_setup lib s bt N M0 mu0 =
     (let s1 = s\<lparr>beta := bt, N_tot := Some N\<rparr>
      in case (case mu0 of
                 None \<Rightarrow> update_chemical_potential lib s1 bt N (Some 0)
               | Some m \<Rightarrow> Inr (s1\<lparr>mu := m\<rparr>)) of
           Inl err \<Rightarrow> Inl err
         | Inr s2 \<Rightarrow>
             (let M0' = (case M0 of None \<Rightarrow> np_zeros (target_shape (e_k s2)) | Some m \<Rightarrow> m)
              in case update_mean_field_dispersion (s2\<lparr>M := Some M0'\<rparr>) of
                   Inl err \<Rightarrow> Inl err
                 | Inr s3 \<Rightarrow>
                     (case update_chemical_potential lib s3 bt N None of
                        Inl err \<Rightarrow> Inl err
                      | Inr s4 \<Rightarrow> Inr (update_density_matrix lib s4 (beta s4)))))"

text \<open>
  The convergence test of \<^verbatim>\<open>solve_iter\<close>. \<^verbatim>\<open>np.linalg.norm\<close> is the Euclidean norm. When
  the norm of the old iterate is zero the quotient is \<^verbatim>\<open>inf\<close> or \<^verbatim>\<open>nan\<close> in numpy (a
  warning, no exception), and \<^verbatim>\<open>drho < tol\<close> is false: that is the value \<open>None\<close> here.
\<close>

definition linalg_norm :: "rvec \<Rightarrow> real" where
  "linalg_norm v = sqrt (\<Sum>x\<leftarrow>v. x\<^sup>2)"

definition rel_change :: "rvec \<Rightarrow> rvec \<Rightarrow> real option" where
  "rel_change rho_old rho_new =
     (if linalg_norm rho_old = 0 then None
      else Some (linalg_norm (map2 (-) rho_old rho_new) / linalg_norm rho_old))"

definition below_tol :: "real option \<Rightarrow> real \<Rightarrow> bool" where
  "below_tol drho tol = (case drho of None \<Rightarrow> False | Some d \<Rightarrow> d < tol)"

definition mix :: "real \<Rightarrow> rvec \<Rightarrow> rvec \<Rightarrow> rvec" where
  "mix w rho_old rho_new = map2 (+) (map ((*) (1 - w)) rho_old) (map ((*) w) rho_new)"

text \<open>
  The loop \<^verbatim>\<open>for idx in xrange(self.nitermax)\<close>: the first argument counts the iterations
  that are left, \<open>rho_vec\<close> is the list the loop appends to.
\<close>

fun solve_loop ::
  "extlib \<Rightarrow> real \<Rightarrow> real \<Rightarrow> nat \<Rightarrow> solver \<Rightarrow> rvec \<Rightarrow> rvec list \<Rightarrow> error + rvec list \<times> solver"
where
  "solve_loop lib w tol 0 s rho_diag rho_vec = Inr (rho_vec, s)"
| "solve_loop lib w tol (Suc n) s rho_diag rho_vec =
     (case density_matrix_step lib s rho_diag of
        Inl err \<Rightarrow> Inl err
      | Inr (s', rho_diag_new) \<Rightarrow>
          if below_tol (rel_change rho_diag rho_diag_new) tol
          then Inr (rho_vec @ [rho_diag], s')
          else solve_loop lib w tol n s' (mix w rho_diag rho_diag_new) (rho_vec @ [rho_diag]))"

text \<open>
  \<^verbatim>\<open>solve_iter(beta, N_tot, M0=None, mu0=None, nitermax=100, mixing=0.5, tol=1e-9)\<close>. It
  returns \<open>rho_vec\<close>; the solver it leaves behind is returned with it. The printed
  diagnostics are not part of the model.
\<close>

definition solve_iter ::
  "extlib \<Rightarrow> solver \<Rightarrow> real \<Rightarrow> real \<Rightarrow> cmat option \<Rightarrow> real option
     \<Rightarrow> int option \<Rightarrow> real option \<Rightarrow> real option \<Rightarrow> error + rvec list \<times> solver"
where
  "solve_iter lib s bt N M0 mu0 nitermax_arg mixing_arg tol_arg =
     (let nmax = default_to 100 nitermax_arg;
          w = default_to (1 / 2) mixing_arg;
          tol = default_to (1 / 10 ^ 9) tol_arg
      in if \<not> (w \<ge> 0) then Inl AssertionError
         else if \<not> (w \<le> 1) then Inl AssertionError
         else
           (case solve_setup lib (s\<lparr>mixing := Some w, nitermax := Some nmax\<rparr>) bt N M0 mu0 of
              Inl err \<Rightarrow> Inl err
            | Inr (s0, rho_diag) \<Rightarrow> solve_loop lib w tol (nat nmax) s0 rho_diag []))"

text \<open>
  What one composite step \<^verbatim>\<open>density_matrix_step\<close> returns, and the part of the solver
  it reads: every other attribute is overwritten before it is used.
\<close>

definition step_rho :: "extlib \<Rightarrow> solver \<Rightarrow> rvec \<Rightarrow> error + rvec" where
  "step_rho lib s r =
     (case density_matrix_step lib s r of Inl err \<Rightarrow> Inl err | Inr p \<Rightarrow> Inr (snd p))"

definition frame ::
  "solver \<Rightarrow> cmat \<times> dispersion \<times> (nat \<times> nat) \<times> real option \<times> real \<times> real \<times> real"
where
  "frame s = (U_ab s, e_k s, target_shape (e_k_MF s), N_tot s, beta s, mu_min s, mu_max s)"

text \<open>All of the first \<open>n\<close> iterations run (no step raises) and none passes the
  convergence test.\<close>

fun never_converges :: "extlib \<Rightarrow> real \<Rightarrow> real \<Rightarrow> nat \<Rightarrow> solver \<Rightarrow> rvec \<Rightarrow> bool" where
  "never_converges lib w tol 0 s rho_diag = True"
| "never_converges lib w tol (Suc n) s rho_diag =
     (case density_matrix_step lib s rho_diag of
        Inl err \<Rightarrow> False
      | Inr (s', rho_diag_new) \<Rightarrow>
          \<not> below_tol (rel_change rho_diag rho_diag_new) tol
          \<and> never_converges lib w tol n s' (mix w rho_diag rho_diag_new))"

section \<open>The density matrix and the response functions\<close>

text \<open>
  \<^verbatim>\<open>rho_mf(e_k, beta, M=None, mu=None)\<close>: the k-averaged density matrix of
  \<open>e_k + M - mu * I\<close>.
\<close>

definition rho_mf ::
  "extlib \<Rightarrow> dispersion \<Rightarrow> real \<Rightarrow> cmat option \<Rightarrow> real option \<Rightarrow> cmat"
where
  "rho_mf lib ek bt M_arg mu_arg =
     (let M' = default_to (np_zeros (target_shape ek)) M_arg;
          mu' = default_to 0 mu_arg;
          I = np_eye (fst (target_shape ek));
          E = map (\<lambda>Ek. msub (madd Ek M') (mscale (complex_of_real mu') I)) (data ek);
          eV = map (eigh lib) E;
          r = einsum_ac (fst (target_shape ek)) (map snd eV)
                (map (\<lambda>p. map (\<lambda>x. fermi x bt) (fst p)) eV)
      in mdiv r (of_nat (mesh_len ek)))"

text \<open>\<^verbatim>\<open>np.sum(drho, axis=0)\<close> of a stack of matrices, and the unary minus.\<close>

definition sum_axis0 :: "nat \<Rightarrow> cmat list \<Rightarrow> cmat" where
  "sum_axis0 n Ms = map (\<lambda>a. map (\<lambda>c. \<Sum>k<length Ms. Ms ! k ! a ! c) [0..<n]) [0..<n]"

definition mneg :: "cmat \<Rightarrow> cmat" where
  "mneg A = map (map uminus) A"

text \<open>
  \<^verbatim>\<open>chi0_op(e_k, beta, op, eps=1e-9)\<close>: the finite difference of the density matrix under
  the field \<open>op\<close>, with a final change of sign.
\<close>

definition chi0_op :: "extlib \<Rightarrow> dispersion \<Rightarrow> real \<Rightarrow> cmat \<Rightarrow> real option \<Rightarrow> cmat" where
  "chi0_op lib ek bt op eps_arg =
     (let eps = default_to (1 / 10 ^ 9) eps_arg;
          n = fst (target_shape ek);
          E_p = map (\<lambda>Ek. madd Ek (mscale (complex_of_real eps) op)) (data ek);
          E_m = map (\<lambda>Ek. msub Ek (mscale (complex_of_real eps) op)) (data ek);
          rho_p = map (\<lambda>E. einsum_kac n (snd (eigh lib E))
                              (map (\<lambda>x. fermi x bt) (fst (eigh lib E)))) E_p;
          rho_m = map (\<lambda>E. einsum_kac n (snd (eigh lib E))
                              (map (\<lambda>x. fermi x bt) (fst (eigh lib E)))) E_m;
          drho = map2 (\<lambda>p m. mdiv (msub p m) (2 * complex_of_real eps)) rho_p rho_m;
          drho' = mdiv (sum_axis0 n drho) (of_nat (mesh_len ek))
      in mneg drho')"

text \<open>The field \<open>F\<close> of \<^verbatim>\<open>chi0_mat\<close>: zeros, with \<^verbatim>\<open>F[idx, idx] = 1.\<close>\<close>

definition unit_field :: "nat \<times> nat \<Rightarrow> nat \<Rightarrow> cmat" where
  "unit_field sh idx = (np_zeros sh)[idx := (np_zeros sh ! idx)[idx := 1]]"

definition chi0_mat :: "extlib \<Rightarrow> dispersion \<Rightarrow> real \<Rightarrow> real option \<Rightarrow> cmat" where
  "chi0_mat lib ek bt eps_arg =
     (let eps = default_to (1 / 10 ^ 9) eps_arg;
          sh = target_shape ek
      in map (\<lambda>idx. np_diag_mat (chi0_op lib ek bt (unit_field sh idx) (Some eps)))
           [0..<fst sh])"

text \<open>
  \<^verbatim>\<open>BaseResponse\<close> and its subclass \<^verbatim>\<open>HartreeResponse\<close>. The attributes of the base class
  carry the prefix \<open>r_\<close>, since the solver has attributes of the same names.
\<close>

record base_response =
  r_solver :: solver
  r_eps :: real
  r_beta :: real
  r_e_k :: dispersion
  r_norb :: nat
  shape_ab :: "nat \<times> nat"
  shape_abcd :: "nat list"

definition BaseResponse_init :: "solver \<Rightarrow> real option \<Rightarrow> base_response" where
  "BaseResponse_init sv eps_arg =
     (let eps = default_to (1 / 10 ^ 9) eps_arg;
          ek = e_k_MF sv;
          n = fst (target_shape ek);
          I_ab = np_eye n
      in \<lparr> r_solver = sv, r_eps = eps, r_beta = beta sv,
           r_e_k = ek\<lparr>data := map (\<lambda>E. msub E (mscale (complex_of_real (mu sv)) I_ab)) (data ek)\<rparr>,
           r_norb = n, shape_ab = target_shape ek,
           shape_abcd = [fst (target_shape ek), snd (target_shape ek),
                         fst (target_shape ek), snd (target_shape ek)] \<rparr>)"

record hartree_response =
  base :: base_response
  chi0_ab :: cmat
  chi_ab :: cmat

text \<open>
  \<^verbatim>\<open>HartreeResponse.__init__(self, hartree_solver, eps=1e-9)\<close>. The base class is
  initialised by \<^verbatim>\<open>super(HartreeResponse, self).__init__(hartree_solver)\<close>, without
  \<open>eps\<close>.
\<close>

definition HartreeResponse_init ::
  "extlib \<Rightarrow> solver \<Rightarrow> real option \<Rightarrow> error + hartree_response"
where
  "HartreeResponse_init lib hartree_solver eps_arg =
     (let self = BaseResponse_init hartree_solver None;
          I_ab = np_eye (r_norb self);
          U = U_ab (r_solver self);
          chi0 = chi0_mat lib (r_e_k self) (r_beta self) (Some (r_eps self))
      in case linalg_inv lib (msub I_ab (matmul U chi0)) of
           Inl err \<Rightarrow> Inl err
         | Inr X \<Rightarrow> Inr \<lparr> base = self, chi0_ab = chi0, chi_ab = matmul chi0 X \<rparr>)"

text \<open>
  \<^verbatim>\<open>np.testing.assert_almost_equal\<close> belongs to numpy, not to the repository. By its
  documentation, with the default \<open>decimal = 7\<close>, it passes when every entry satisfies
  \<open>abs(desired - actual) < 1.5 * 10**(-7)\<close>; the desired array is zero here.
\<close>

definition almost_zero :: "complex \<Rightarrow> bool" where
  "almost_zero z \<longleftrightarrow> cmod z < 15 / 10 ^ 8"

definition check_op :: "hartree_response \<Rightarrow> cmat \<Rightarrow> error + unit" where
  "check_op self op =
     (if shape op \<noteq> target_shape (r_e_k (base self)) then Inl AssertionError
      else if list_all (list_all almost_zero) (msub op (np_diag_vec (np_diag_mat op)))
      then Inr ()
      else Inl AssertionError)"

text \<open>\<^verbatim>\<open>np.einsum('aa,ab,bb->', op1, chi, op2)\<close>.\<close>

definition einsum_aa_ab_bb :: "cmat \<Rightarrow> cmat \<Rightarrow> cmat \<Rightarrow> complex" where
  "einsum_aa_ab_bb op1 X op2 =
     (\<Sum>a<length op1. \<Sum>b<length op2. op1 ! a ! a * X ! a ! b * op2 ! b ! b)"

definition bare_response :: "hartree_response \<Rightarrow> cmat \<Rightarrow> cmat \<Rightarrow> error + complex" where
  "bare_response self op1 op2 =
     (case check_op self op1 of
        Inl err \<Rightarrow> Inl err
      | Inr _ \<Rightarrow>
          (case check_op self op2 of
             Inl err \<Rightarrow> Inl err
           | Inr _ \<Rightarrow> Inr (einsum_aa_ab_bb op1 (chi0_ab self) op2)))"

definition response :: "hartree_response \<Rightarrow> cmat \<Rightarrow> cmat \<Rightarrow> error + complex" where
  "response self op1 op2 =
     (case check_op self op1 of
        Inl err \<Rightarrow> Inl err
      | Inr _ \<Rightarrow>
          (case check_op self op2 of
             Inl err \<Rightarrow> Inl err
           | Inr _ \<Rightarrow> Inr (einsum_aa_ab_bb op1 (chi_ab self) op2)))"

section \<open>A model of the collaborators, and a one-orbital example\<close>

text \<open>
  Modelled from the spec: the root-finder \<^verbatim>\<open>scipy.optimize.brentq\<close> is not part of the
  repository. The spec describes it as a bracketed scalar root-find of the bisection
  family that reports when there is no sign change in the bracket and when it does not
  converge within its iteration budget (100 iterations by default).
\<close>

fun bisect :: "nat \<Rightarrow> (real \<Rightarrow> real) \<Rightarrow> real \<Rightarrow> real \<Rightarrow> error + real" where
  "bisect 0 f a b = Inl RuntimeError"
| "bisect (Suc n) f a b =
     (let c = (a + b) / 2
      in if f c = 0 then Inr c
         else if f a * f c < 0 then bisect n f a c else bisect n f c b)"

definition brentq_model :: "(real \<Rightarrow> real) \<Rightarrow> real \<Rightarrow> real \<Rightarrow> error + real" where
  "brentq_model f a b =
     (if f a * f b > 0 then Inl ValueError
      else if f a = 0 then Inr a
      else if f b = 0 then Inr b
      else bisect 100 f a b)"

text \<open>The eigensolvers and the inverse on one-by-one matrices.\<close>

definition eigh1 :: "cmat \<Rightarrow> rvec \<times> cmat" where
  "eigh1 E = ([Re (E ! 0 ! 0)], [[1]])"

definition eigvalsh1 :: "cmat \<Rightarrow> rvec" where
  "eigvalsh1 E = [Re (E ! 0 ! 0)]"

definition inv1 :: "cmat \<Rightarrow> error + cmat" where
  "inv1 A = (if A ! 0 ! 0 = 0 then Inl LinAlgError else Inr [[1 / (A ! 0 ! 0)]])"

definition lib1 :: extlib where
  "lib1 = \<lparr> eigh = eigh1, eigvalsh = eigvalsh1, brentq = brentq_model, linalg_inv = inv1,
             rnd = (\<lambda>x. x) \<rparr>"

text \<open>One k-point, one orbital at energy \<open>0\<close>, interaction \<open>u\<close>.\<close>

definition disp1 :: dispersion where
  "disp1 = \<lparr> data = [[[0]]], target_shape = (1, 1) \<rparr>"

definition solver1 :: "complex \<Rightarrow> solver" where
  "solver1 u = \<lparr> mu = 0, beta = - 1, mu_max = 10, mu_min = - 10, e_k = disp1, e_k_MF = disp1,
                 norb = 1, U_ab = [[u]], M = None, rho = None, N_tot = None, mixing = None,
                 nitermax = None \<rparr>"

text \<open>The solver after \<^verbatim>\<open>solve_setup\<close> at \<open>beta = 0\<close> and \<open>N_tot = 1/2\<close>, where every
  occupation is \<open>1/2\<close> and the target function vanishes identically.\<close>

definition run1_state :: "complex \<Rightarrow> real \<Rightarrow> int \<Rightarrow> solver" where
  "run1_state u w k = \<lparr> mu = - 10, beta = 0, mu_max = 10, mu_min = - 10, e_k = disp1,
      e_k_MF = \<lparr> data = [[[u * (1 / 2)]]], target_shape = (1, 1) \<rparr>, norb = 1, U_ab = [[u]],
      M = Some [[u * (1 / 2)]], rho = Some [[1 / 2]], N_tot = Some (1 / 2), mixing = Some w,
      nitermax = Some k \<rparr>"

text \<open>Two orbitals at energy \<open>0\<close>, and a response object on them.\<close>

definition disp2 :: dispersion where
  "disp2 = \<lparr> data = [[[0, 0], [0, 0]]], target_shape = (2, 2) \<rparr>"

definition solver2 :: solver where
  "solver2 = \<lparr> mu = 0, beta = 1, mu_max = 10, mu_min = - 10, e_k = disp2, e_k_MF = disp2,
               norb = 2, U_ab = [[0, 0], [0, 0]], M = None, rho = None, N_tot = None,
               mixing = None, nitermax = None \<rparr>"

definition resp2 :: hartree_response where
  "resp2 = \<lparr> base = BaseResponse_init solver2 None, chi0_ab = [[1, 0], [0, 1]],
             chi_ab = [[1, 0], [0, 1]] \<rparr>"

text \<open>
  The eigensolvers and the inverse on diagonal matrices: the eigenvalues are the diagonal
  entries and the eigenvectors the unit vectors (numpy returns the same pairs in
  ascending order of the eigenvalues).
\<close>

definition eigh_diag :: "cmat \<Rightarrow> rvec \<times> cmat" where
  "eigh_diag E = (map (\<lambda>i. Re (E ! i ! i)) [0..<length E], np_eye (length E))"

definition inv_diag :: "cmat \<Rightarrow> error + cmat" where
  "inv_diag A =
     (if list_ex (\<lambda>i. A ! i ! i = 0) [0..<length A] then Inl LinAlgError
      else Inr (np_diag_vec (map (\<lambda>i. 1 / (A ! i ! i)) [0..<length A])))"

definition lib_diag :: extlib where
  "lib_diag = \<lparr> eigh = eigh_diag, eigvalsh = (\<lambda>E. fst (eigh_diag E)), brentq = brentq_model,
                 linalg_inv = inv_diag, rnd = (\<lambda>x. x) \<rparr>"

text \<open>
  Two orbitals at energy \<open>0\<close> with an interaction that shifts them against each other; an
  initial mean field that splits them; and the first two iterates of the solver that
  starts from it at \<open>beta = 1\<close> and \<open>N_tot = 1\<close> with the mixing weight \<open>1/2\<close>.
\<close>

definition solver3 :: solver where
  "solver3 = \<lparr> mu = 0, beta = - 1, mu_max = 10, mu_min = - 10, e_k = disp2, e_k_MF = disp2,
               norb = 2, U_ab = [[1, - 1], [- 1, 1]], M = None, rho = None, N_tot = None,
               mixing = None, nitermax = None \<rparr>"

definition M_split :: cmat where
  "M_split = [[1, 0], [0, - 1]]"

definition rho_split :: "rvec list" where
  "rho_split =
     [[fermi 1 1, fermi (- 1) 1],
      [(fermi 1 1 + fermi (fermi 1 1 - fermi (- 1) 1) 1) / 2,
       (fermi (- 1) 1 + fermi (fermi (- 1) 1 - fermi 1 1) 1) / 2]]"

text \<open>A probe operator with a small entry off the diagonal.\<close>

definition op_small :: cmat where
  "op_small = [[1, 1 / 10 ^ 9], [0, 1]]"

text \<open>Well-formedness of the library's objects: every block of a dispersion has the
  target shape, which is square.\<close>

definition is_mat :: "nat \<Rightarrow> cmat \<Rightarrow> bool" where
  "is_mat n A \<longleftrightarrow> length A = n \<and> list_all (\<lambda>r. length r = n) A"

definition wf_disp :: "nat \<Rightarrow> dispersion \<Rightarrow> bool" where
  "wf_disp n e \<longleftrightarrow> target_shape e = (n, n) \<and> list_all (is_mat n) (data e)"

text \<open>The occupation of orbital \<open>b\<close> in one block.\<close>

definition occ :: "extlib \<Rightarrow> nat \<Rightarrow> real \<Rightarrow> cmat \<Rightarrow> nat \<Rightarrow> complex" where
  "occ lib n bt E b =
     (\<Sum>b'<n. snd (eigh lib E) ! b ! b'
                * complex_of_real (map (\<lambda>x. fermi x bt) (fst (eigh lib E)) ! b')
                * cnj (snd (eigh lib E) ! b ! b'))"

text \<open>
  What is asked of \<^verbatim>\<open>np.linalg.inv\<close> on \<open>n\<close> by \<open>n\<close> matrices: it returns the inverse of every
  invertible matrix (in exact arithmetic).
\<close>

definition inv_contract :: "nat \<Rightarrow> (cmat \<Rightarrow> error + cmat) \<Rightarrow> bool" where
  "inv_contract n f \<longleftrightarrow>
     (\<forall>A B. is_mat n A \<and> is_mat n B \<and> matmul A B = np_eye n \<and> matmul B A = np_eye n
        \<longrightarrow> f A = Inr B)"

text \<open>
  What is asked of \<^verbatim>\<open>brentq\<close> at the call \<^verbatim>\<open>brentq(f, a, b)\<close>: it raises \<^verbatim>\<open>ValueError\<close> when
  \<open>f\<close> has the same strict sign at both ends of the bracket, and otherwise it returns a
  point of the bracket that is a root up to the residual \<open>d\<close> (\<open>d = 0\<close> for an exact root).
\<close>

definition brentq_contract ::
  "real \<Rightarrow> ((real \<Rightarrow> real) \<Rightarrow> real \<Rightarrow> real \<Rightarrow> error + real) \<Rightarrow> (real \<Rightarrow> real) \<Rightarrow> real \<Rightarrow> real \<Rightarrow> bool"
where
  "brentq_contract d bq f a b \<longleftrightarrow>
     (if f a * f b > 0 then bq f a b = Inl ValueError
      else \<exists>x. bq f a b = Inr x \<and> min a b \<le> x \<and> x \<le> max a b \<and> \<bar>f x\<bar> \<le> d)"

text \<open>
  Hermitian and unitary matrices, entry by entry; what is asked of \<^verbatim>\<open>np.linalg.eigh\<close> on a
  Hermitian \<open>n\<close> by \<open>n\<close> matrix (\<open>n\<close> real eigenvalues and a unitary matrix of eigenvectors);
  and the properties of a density matrix: Hermitian, every eigenvalue real and in
  \<open>[0, 1]\<close>, the trace real and in \<open>[0, n]\<close>.
\<close>

definition hermitian :: "nat \<Rightarrow> cmat \<Rightarrow> bool" where
  "hermitian n A \<longleftrightarrow> is_mat n A \<and> (\<forall>a<n. \<forall>b<n. A ! a ! b = cnj (A ! b ! a))"

definition hermitian_disp :: "nat \<Rightarrow> dispersion \<Rightarrow> bool" where
  "hermitian_disp n e \<longleftrightarrow> target_shape e = (n, n) \<and> list_all (hermitian n) (data e)"

definition unitary :: "nat \<Rightarrow> cmat \<Rightarrow> bool" where
  "unitary n V \<longleftrightarrow> is_mat n V
     \<and> (\<forall>a<n. \<forall>c<n. (\<Sum>b<n. V ! a ! b * cnj (V ! c ! b)) = (if a = c then 1 else 0))
     \<and> (\<forall>b<n. \<forall>d<n. (\<Sum>a<n. V ! a ! b * cnj (V ! a ! d)) = (if b = d then 1 else 0))"

definition eigh_contract :: "nat \<Rightarrow> (cmat \<Rightarrow> rvec \<times> cmat) \<Rightarrow> bool" where
  "eigh_contract n eg \<longleftrightarrow>
     (\<forall>E. hermitian n E \<longrightarrow> length (fst (eg E)) = n \<and> unitary n (snd (eg E)))"

definition eigenpair :: "nat \<Rightarrow> cmat \<Rightarrow> complex \<Rightarrow> complex list \<Rightarrow> bool" where
  "eigenpair n A lam x \<longleftrightarrow> length x = n \<and> (\<exists>a<n. x ! a \<noteq> 0)
     \<and> (\<forall>a<n. (\<Sum>c<n. A ! a ! c * x ! c) = lam * x ! a)"

definition density_matrix_ok :: "nat \<Rightarrow> cmat \<Rightarrow> bool" where
  "density_matrix_ok n A \<longleftrightarrow> hermitian n A
     \<and> (\<forall>lam x. eigenpair n A lam x \<longrightarrow> Im lam = 0 \<and> 0 \<le> Re lam \<and> Re lam \<le> 1)
     \<and> Im (\<Sum>a<n. A ! a ! a) = 0 \<and> 0 \<le> Re (\<Sum>a<n. A ! a ! a) \<and> Re (\<Sum>a<n. A ! a ! a) \<le> real n"

text \<open>
  Free names of a function body are looked up in the module's global namespace when the
  statement that uses them runs; an unbound name raises \<^verbatim>\<open>NameError\<close>. The namespace is a
  map from names to values; the values that the functions below would need are shapes,
  meshes (by their length), scalars and matrix functions.
\<close>

datatype pyval = Callable | Shape "nat \<times> nat" | Mesh nat | Scalar complex
  | MatFun "cmat \<Rightarrow> cmat"

type_synonym globals = "string \<Rightarrow> pyval option"

text \<open>The names that the module binds: its imports and its own functions and classes.\<close>

definition module_globals :: globals where
  "module_globals = map_of (map (\<lambda>name. (name, Callable))
     [''itertools'', ''np'', ''fsolve'', ''brentq'', ''get_rpa_tensor'',
      ''fundamental_operators_from_gf_struct'', ''fermi_distribution_function'',
      ''local_density_matrix_g_wk'', ''chi0_op_accurate'', ''rho_mf'',
      ''fix_chemical_potential'', ''chi0_op'', ''chi0_op_op'', ''chi0_mat'', ''R_tensor'',
      ''chi0_tensor'', ''local_density_matrix'', ''tr_op_chi_wk_op'',
      ''U_matrix_kanamori_dens_dens'', ''extract_dens_dens'',
      ''DensityDensityMeanFieldSolver'', ''BaseResponse'', ''HartreeResponse'',
      ''HartreeFockResponse''])"

text \<open>A \<^verbatim>\<open>for\<close> loop whose body can raise.\<close>

fun for_each :: "'i list \<Rightarrow> ('i \<Rightarrow> 'a \<Rightarrow> error + 'a) \<Rightarrow> 'a \<Rightarrow> error + 'a" where
  "for_each [] body acc = Inr acc"
| "for_each (i # is) body acc =
     (case body i acc of Inl err \<Rightarrow> Inl err | Inr acc' \<Rightarrow> for_each is body acc')"

text \<open>
  \<^verbatim>\<open>fermi_distribution_function\<close>, \<^verbatim>\<open>chi0_op_accurate\<close> and \<^verbatim>\<open>local_density_matrix\<close>: they use
  the names \<^verbatim>\<open>expm\<close> and \<^verbatim>\<open>kmesh\<close>, which no statement of the function binds.
\<close>

definition fermi_distribution_function ::
  "extlib \<Rightarrow> globals \<Rightarrow> cmat \<Rightarrow> real \<Rightarrow> error + cmat"
where
  "fermi_distribution_function lib g E bt =
     (let I = np_eye (length E)
      in case g ''expm'' of
           None \<Rightarrow> Inl NameError
         | Some (MatFun expm) \<Rightarrow> linalg_inv lib (madd (expm (mscale (complex_of_real bt) E)) I)
         | Some _ \<Rightarrow> Inl TypeError)"

definition chi0_op_accurate ::
  "extlib \<Rightarrow> globals \<Rightarrow> dispersion \<Rightarrow> real \<Rightarrow> cmat \<Rightarrow> real option \<Rightarrow> error + cmat"
where
  "chi0_op_accurate lib g ek bt op eps_arg =
     (let eps = default_to (1 / 10 ^ 9) eps_arg;
          sh = target_shape ek;
          drho0 = np_zeros sh
      in case g ''kmesh'' of
           None \<Rightarrow> Inl NameError
         | Some (Mesh nk) \<Rightarrow>
             (case for_each [0..<nk]
                     (\<lambda>k drho.
                        case fermi_distribution_function lib g
                               (madd (data ek ! k) (mscale (complex_of_real eps) op)) bt of
                          Inl err \<Rightarrow> Inl err
                        | Inr rho_p \<Rightarrow>
                            (case fermi_distribution_function lib g
                                    (msub (data ek ! k) (mscale (complex_of_real eps) op)) bt of
                               Inl err \<Rightarrow> Inl err
                             | Inr rho_m \<Rightarrow>
                                 Inr (madd drho (mdiv (msub rho_p rho_m) (2 * complex_of_real eps)))))
                     drho0 of
                Inl err \<Rightarrow> Inl err
              | Inr drho \<Rightarrow> Inr (mneg (mdiv drho (of_nat nk))))
         | Some _ \<Rightarrow> Inl TypeError)"

definition local_density_matrix ::
  "extlib \<Rightarrow> globals \<Rightarrow> dispersion \<Rightarrow> real \<Rightarrow> error + cmat"
where
  "local_density_matrix lib g ek bt =
     (let sh = target_shape ek;
          rho0 = np_zeros sh
      in case g ''kmesh'' of
           None \<Rightarrow> Inl NameError
         | Some (Mesh nk) \<Rightarrow>
             (case for_each [0..<nk]
                     (\<lambda>k r.
                        case fermi_distribution_function lib g (data ek ! k) bt of
                          Inl err \<Rightarrow> Inl err
                        | Inr f \<Rightarrow> Inr (madd r f))
                     rho0 of
                Inl err \<Rightarrow> Inl err
              | Inr r \<Rightarrow> Inr (mdiv r (of_nat nk)))
         | Some _ \<Rightarrow> Inl TypeError)"

text \<open>
  The helper methods of \<^verbatim>\<open>BaseResponse\<close>. \<^verbatim>\<open>_compute_drho_dop\<close> starts with
  \<^verbatim>\<open>self.e_k.data.copy() + eps*op[None, ...]\<close>, which raises \<^verbatim>\<open>ValueError\<close> when the shapes of
  \<open>op\<close> and of the blocks do not broadcast; \<^verbatim>\<open>np.linalg.eigh\<close> then raises \<^verbatim>\<open>LinAlgError\<close> when
  the broadcast blocks are not square; and the last statement uses \<^verbatim>\<open>len(e_k.mesh)\<close>, where
  \<^verbatim>\<open>e_k\<close> is a free name. The loop bodies of \<^verbatim>\<open>_compute_R_ab\<close> and
  \<^verbatim>\<open>_compute_R_abcd\<close> start with \<^verbatim>\<open>np.zeros(shape)\<close>, use \<^verbatim>\<open>scale\<close>, and call
  \<^verbatim>\<open>self._drho_dop\<close>, an attribute that the class does not have.
\<close>

definition compute_drho_dop ::
  "extlib \<Rightarrow> globals \<Rightarrow> base_response \<Rightarrow> cmat \<Rightarrow> error + cmat"
where
  "compute_drho_dop lib g self op =
     (let bt = r_beta self; eps = r_eps self
      in case broadcast_shape (target_shape (r_e_k self)) (shape op) of
           None \<Rightarrow> Inl ValueError
         | Some sh \<Rightarrow>
             if fst sh \<noteq> snd sh then Inl LinAlgError
             else
               (let n = fst sh;
                    F = broadcast_to sh (mscale (complex_of_real eps) op);
                    E_p = map (\<lambda>Ek. madd (broadcast_to sh Ek) F) (data (r_e_k self));
                    E_m = map (\<lambda>Ek. msub (broadcast_to sh Ek) F) (data (r_e_k self));
                    rho_p = map (\<lambda>E. einsum_kac n (snd (eigh lib E))
                                        (map (\<lambda>x. fermi x bt) (fst (eigh lib E)))) E_p;
                    rho_m = map (\<lambda>E. einsum_kac n (snd (eigh lib E))
                                        (map (\<lambda>x. fermi x bt) (fst (eigh lib E)))) E_m;
                    drho = map2 (\<lambda>p m. mdiv (msub p m) (2 * complex_of_real eps)) rho_p rho_m
                in case g ''e_k'' of
                     None \<Rightarrow> Inl NameError
                   | Some (Mesh nk) \<Rightarrow> Inr (mdiv (sum_axis0 n drho) (of_nat nk))
                   | Some _ \<Rightarrow> Inl AttributeError))"

definition compute_R_ab :: "globals \<Rightarrow> base_response \<Rightarrow> error + cmat" where
  "compute_R_ab g self =
     for_each [0..<r_norb self]
       (\<lambda>a R_ab.
          case g ''shape'' of
            None \<Rightarrow> Inl NameError
          | Some (Shape sh) \<Rightarrow> Inl AttributeError
          | Some _ \<Rightarrow> Inl TypeError)
       (np_zeros (shape_ab self))"

definition compute_R_abcd ::
  "globals \<Rightarrow> base_response \<Rightarrow> complex option \<Rightarrow> error + cmat list list"
where
  "compute_R_abcd g self field_prefactor =
     for_each (List.product [0..<r_norb self] [0..<r_norb self])
       (\<lambda>ab R_abcd.
          case g ''shape'' of
            None \<Rightarrow> Inl NameError
          | Some (Shape sh) \<Rightarrow>
              (case g ''scale'' of
                 None \<Rightarrow> Inl NameError
               | Some (Scalar z) \<Rightarrow> Inl AttributeError
               | Some _ \<Rightarrow> Inl TypeError)
          | Some _ \<Rightarrow> Inl TypeError)
       (replicate (shape_abcd self ! 0) (replicate (shape_abcd self ! 1)
          (np_zeros (shape_abcd self ! 2, shape_abcd self ! 3))))"

text \<open>A dispersion without orbitals, and the solver built on it.\<close>

definition disp0 :: dispersion where
  "disp0 = \<lparr> data = [[]], target_shape = (0, 0) \<rparr>"

definition solver0 :: solver where
  "solver0 = \<lparr> mu = 0, beta = - 1, mu_max = 10, mu_min = - 10, e_k = disp0, e_k_MF = disp0,
               norb = 0, U_ab = [], M = None, rho = None, N_tot = None, mixing = None,
               nitermax = None \<rparr>"

text \<open>Diagonal matrices, and matrices that are diagonal up to the tolerance of
  \<^verbatim>\<open>assert_almost_equal\<close>.\<close>

definition is_diagonal :: "nat \<Rightarrow> cmat \<Rightarrow> bool" where
  "is_diagonal n A \<longleftrightarrow> (\<forall>a<n. \<forall>b<n. a \<noteq> b \<longrightarrow> A ! a ! b = 0)"

definition almost_diagonal :: "nat \<Rightarrow> cmat \<Rightarrow> bool" where
  "almost_diagonal n A \<longleftrightarrow> (\<forall>a<n. \<forall>b<n. a \<noteq> b \<longrightarrow> cmod (A ! a ! b) < 15 / 10 ^ 8)"

section \<open>Array lemmas\<close>

lemma is_mat_nth: "is_mat n A \<Longrightarrow> i < n \<Longrightarrow> length (A ! i) = n"
  by (simp add: is_mat_def list_all_length)

lemma is_mat_length: "is_mat n A \<Longrightarrow> length A = n"
  by (simp add: is_mat_def)

lemma np_diag_vec_nth:
  "a < length v \<Longrightarrow> b < length v \<Longrightarrow> np_diag_vec v ! a ! b = (if a = b then v ! a else 0)"
  by (simp add: np_diag_vec_def)

lemma is_mat_np_diag_vec: "is_mat (length v) (np_diag_vec v)"
  by (simp add: is_mat_def np_diag_vec_def list_all_length)

lemma length_np_dot_mv: "length (np_dot_mv U v) = length U"
  by (simp add: np_dot_mv_def)

lemma np_dot_mv_nth:
  "a < length U \<Longrightarrow> np_dot_mv U v ! a = (\<Sum>j<length v. U ! a ! j * complex_of_real (v ! j))"
  by (simp add: np_dot_mv_def)

lemma madd_nth:
  "is_mat n A \<Longrightarrow> is_mat n B \<Longrightarrow> a < n \<Longrightarrow> b < n \<Longrightarrow> madd A B ! a ! b = A ! a ! b + B ! a ! b"
  by (simp add: madd_def is_mat_def list_all_length)

lemma is_mat_madd: "is_mat n A \<Longrightarrow> is_mat n B \<Longrightarrow> is_mat n (madd A B)"
  by (simp add: madd_def is_mat_def list_all_length)

lemma shape_is_mat: "is_mat n A \<Longrightarrow> shape A = (n, n)"
  by (cases A) (auto simp: shape_def is_mat_def)

lemma is_array_mat: "is_mat n A \<Longrightarrow> is_array A"
  using shape_is_mat [of n A] by (simp add: is_array_def is_mat_def)

lemma broadcastable_mat: "is_mat n A \<Longrightarrow> broadcastable (n, n) A"
  by (simp add: broadcastable_def is_array_mat shape_is_mat)

lemma broadcast_to_mat: "is_mat n A \<Longrightarrow> broadcast_to (n, n) A = A"
  by (simp add: broadcast_to_def is_mat_def list_all_iff map_idI)

section \<open>The self-consistency loop\<close>

lemma frame_step:
  "density_matrix_step lib s r = Inr (s', r') \<Longrightarrow> frame s' = frame s"
  by (auto simp: density_matrix_step_def update_mean_field_dispersion_def update_mean_field_def
      update_chemical_potential_def update_density_matrix_def frame_def Let_def
      split: sum.splits option.splits if_splits)

lemma step_frame:
  assumes "frame s = frame t"
  shows "step_rho lib s r = step_rho lib t r"
proof -
  from assms have eqs: "U_ab s = U_ab t" "e_k s = e_k t"
      "target_shape (e_k_MF s) = target_shape (e_k_MF t)" "N_tot s = N_tot t" "beta s = beta t"
      "mu_min s = mu_min t" "mu_max s = mu_max t"
    by (simp_all add: frame_def)
  show ?thesis
    by (simp add: step_rho_def density_matrix_step_def update_mean_field_dispersion_def
        update_mean_field_def update_chemical_potential_def update_density_matrix_def
        Let_def mesh_len_def eqs comp_def split: sum.splits option.splits)
qed

lemma solve_loop_traj:
  "solve_loop lib w tol n s r acc = Inr (vec, s') \<Longrightarrow>
     frame s' = frame s \<and>
     (\<exists>traj. vec = acc @ traj \<and> length traj \<le> n \<and> (0 < n \<longrightarrow> traj \<noteq> [] \<and> traj ! 0 = r)
        \<and> (\<forall>i<length traj. \<exists>new. step_rho lib s (traj ! i) = Inr new
              \<and> (Suc i < length traj \<longrightarrow>
                   \<not> below_tol (rel_change (traj ! i) new) tol \<and> traj ! Suc i = mix w (traj ! i) new)
              \<and> (Suc i = length traj \<and> length traj < n \<longrightarrow> below_tol (rel_change (traj ! i) new) tol)))"
proof (induction n arbitrary: s r acc)
  case 0
  then show ?case by simp
next
  case (Suc n)
  from Suc.prems obtain s1 new where st: "density_matrix_step lib s r = Inr (s1, new)"
    by (auto split: sum.splits)
  have fr1: "frame s1 = frame s" using frame_step [OF st] .
  have sr: "step_rho lib s r = Inr new" using st by (simp add: step_rho_def)
  show ?case
  proof (cases "below_tol (rel_change r new) tol")
    case True
    with Suc.prems st have "vec = acc @ [r]" "s' = s1" by simp_all
    with fr1 sr True show ?thesis
      by (intro conjI exI [of _ "[r]"]) auto
  next
    case False
    with Suc.prems st have rec: "solve_loop lib w tol n s1 (mix w r new) (acc @ [r]) = Inr (vec, s')"
      by simp
    from Suc.IH [OF rec] obtain traj where
      fr: "frame s' = frame s1" and v: "vec = (acc @ [r]) @ traj" and len: "length traj \<le> n"
      and hd: "0 < n \<longrightarrow> traj \<noteq> [] \<and> traj ! 0 = mix w r new"
      and all: "\<forall>i<length traj. \<exists>new. step_rho lib s1 (traj ! i) = Inr new
              \<and> (Suc i < length traj \<longrightarrow>
                   \<not> below_tol (rel_change (traj ! i) new) tol \<and> traj ! Suc i = mix w (traj ! i) new)
              \<and> (Suc i = length traj \<and> length traj < n \<longrightarrow> below_tol (rel_change (traj ! i) new) tol)"
      by blast
    have eq: "\<And>x. step_rho lib s1 x = step_rho lib s x"
      using step_frame [OF fr1] .
    have "\<forall>i<length (r # traj). \<exists>new. step_rho lib s ((r # traj) ! i) = Inr new
              \<and> (Suc i < length (r # traj) \<longrightarrow>
                   \<not> below_tol (rel_change ((r # traj) ! i) new) tol \<and> (r # traj) ! Suc i = mix w ((r # traj) ! i) new)
              \<and> (Suc i = length (r # traj) \<and> length (r # traj) < Suc n \<longrightarrow> below_tol (rel_change ((r # traj) ! i) new) tol)"
    proof (intro allI impI)
      fix i assume i: "i < length (r # traj)"
      show "\<exists>new. step_rho lib s ((r # traj) ! i) = Inr new
              \<and> (Suc i < length (r # traj) \<longrightarrow>
                   \<not> below_tol (rel_change ((r # traj) ! i) new) tol \<and> (r # traj) ! Suc i = mix w ((r # traj) ! i) new)
              \<and> (Suc i = length (r # traj) \<and> length (r # traj) < Suc n \<longrightarrow> below_tol (rel_change ((r # traj) ! i) new) tol)"
      proof (cases i)
        case 0
        have "traj \<noteq> [] \<Longrightarrow> traj ! 0 = mix w r new" using hd len by (cases n) auto
        moreover have "traj = [] \<longrightarrow> \<not> 0 < n" using hd by auto
        ultimately show ?thesis using 0 sr False
          by (intro exI [of _ new]) (auto simp: neq_Nil_conv)
      next
        case (Suc j)
        with i have j: "j < length traj" by simp
        from all j obtain new2 where n2: "step_rho lib s1 (traj ! j) = Inr new2"
            "Suc j < length traj \<longrightarrow>
               \<not> below_tol (rel_change (traj ! j) new2) tol \<and> traj ! Suc j = mix w (traj ! j) new2"
            "Suc j = length traj \<and> length traj < n \<longrightarrow> below_tol (rel_change (traj ! j) new2) tol"
          by blast
        have nth: "(r # traj) ! i = traj ! j" "(r # traj) ! Suc i = traj ! Suc j"
          using Suc by simp_all
        show ?thesis
          unfolding nth using n2 eq Suc by (intro exI [of _ new2]) auto
      qed
    qed
    with fr fr1 v len show ?thesis
      by (intro conjI exI [of _ "r # traj"]) auto
  qed
qed


lemma linalg_norm_nonneg: "0 \<le> linalg_norm v"
  by (auto simp: linalg_norm_def intro!: sum_list_nonneg)

lemma not_below_nonpos_tol: "tol \<le> 0 \<Longrightarrow> \<not> below_tol (rel_change a b) tol"
  using linalg_norm_nonneg [of a] linalg_norm_nonneg [of "map2 (-) a b"]
  by (auto simp: below_tol_def rel_change_def not_less intro: order_trans divide_nonneg_nonneg)

lemma never_converges_loop:
  "never_converges lib w tol n s r \<Longrightarrow>
     \<exists>traj s'. solve_loop lib w tol n s r acc = Inr (acc @ traj, s') \<and> length traj = n
        \<and> (0 < n \<longrightarrow> traj ! 0 = r)"
proof (induction n arbitrary: s r acc)
  case 0
  then show ?case by simp
next
  case (Suc n)
  from Suc.prems obtain s1 new where st: "density_matrix_step lib s r = Inr (s1, new)"
    and nb: "\<not> below_tol (rel_change r new) tol"
    and rest: "never_converges lib w tol n s1 (mix w r new)"
    by (auto split: sum.splits)
  from Suc.IH [OF rest, of "acc @ [r]"] obtain traj s' where
    "solve_loop lib w tol n s1 (mix w r new) (acc @ [r]) = Inr ((acc @ [r]) @ traj, s')"
    "length traj = n"
    by blast
  with st nb show ?case
    by (intro exI [of _ "r # traj"] exI [of _ s']) simp
qed

section \<open>The one-orbital example, evaluated\<close>

lemma fermi0: "fermi x 0 = 1 / 2"
  by (simp add: fermi_def)

lemma setup1:
  "solve_setup lib1 (solver1 0\<lparr>mixing := Some w, nitermax := Some k\<rparr>) 0 (1 / 2) None None
     = Inr (run1_state 0 w k, [1 / 2])"
  by (simp add: solve_setup_def solver1_def disp1_def lib1_def update_chemical_potential_def
     eigvalsh1_def eigh1_def brentq_model_def target_function_def fermi_rnd_def np_sum_def
     fermi0 mesh_len_def Let_def update_mean_field_dispersion_def broadcastable_def
     broadcast_to_def is_array_def np_zeros_def madd_def update_density_matrix_def
     einsum_ac_def mdiv_def np_diag_mat_def shape_def run1_state_def)

lemma step1:
  "density_matrix_step lib1 (run1_state 0 w k) [1 / 2] = Inr (run1_state 0 w k, [1 / 2])"
  by (simp add: density_matrix_step_def disp1_def lib1_def update_chemical_potential_def
     eigvalsh1_def eigh1_def brentq_model_def target_function_def fermi_rnd_def np_sum_def
     fermi0 mesh_len_def Let_def update_mean_field_dispersion_def broadcastable_def
     broadcast_to_def is_array_def update_mean_field_def np_dot_mv_def np_diag_vec_def
     madd_def update_density_matrix_def einsum_ac_def
     mdiv_def np_diag_mat_def shape_def run1_state_def)

lemma mix1: "mix w [1 / 2] [1 / 2] = [1 / 2]"
  by (simp add: mix_def field_simps)

lemma never1: "never_converges lib1 (1 / 2) 0 (Suc (Suc (Suc 0))) (run1_state 0 (1 / 2) 3) [1 / 2]"
  by (simp add: step1 not_below_nonpos_tol mix1)

section \<open>The probe-operator check\<close>

lemma is_mat_shape: "shape A = (n, n) \<Longrightarrow> list_all (\<lambda>r. length r = snd (shape A)) A \<Longrightarrow> is_mat n A"
  by (cases A) (auto simp: shape_def is_mat_def)

lemma length_np_diag_mat: "is_mat n A \<Longrightarrow> length (np_diag_mat A) = n"
  by (simp add: np_diag_mat_def shape_is_mat)

lemma np_diag_mat_nth: "is_mat n A \<Longrightarrow> a < n \<Longrightarrow> np_diag_mat A ! a = A ! a ! a"
  by (simp add: np_diag_mat_def shape_is_mat)

lemma msub_nth:
  "is_mat n A \<Longrightarrow> is_mat n B \<Longrightarrow> a < n \<Longrightarrow> b < n \<Longrightarrow> msub A B ! a ! b = A ! a ! b - B ! a ! b"
  by (simp add: msub_def is_mat_def list_all_length)

lemma is_mat_msub: "is_mat n A \<Longrightarrow> is_mat n B \<Longrightarrow> is_mat n (msub A B)"
  by (simp add: msub_def is_mat_def list_all_length)

lemma list_all_mat:
  "is_mat n A \<Longrightarrow> list_all (list_all P) A \<longleftrightarrow> (\<forall>a<n. \<forall>b<n. P (A ! a ! b))"
  by (auto simp: is_mat_def list_all_length)

lemma off_diagonal_test:
  assumes "is_mat n A"
  shows "list_all (list_all almost_zero) (msub A (np_diag_vec (np_diag_mat A))) \<longleftrightarrow> almost_diagonal n A"
proof -
  let ?D = "np_diag_vec (np_diag_mat A)"
  have D: "is_mat n ?D"
    using is_mat_np_diag_vec [of "np_diag_mat A"] length_np_diag_mat [OF assms] by simp
  have ent: "\<And>a b. a < n \<Longrightarrow> b < n \<Longrightarrow> msub A ?D ! a ! b = (if a = b then 0 else A ! a ! b)"
    using assms D length_np_diag_mat [OF assms]
    by (simp add: msub_nth np_diag_vec_nth np_diag_mat_nth)
  have "list_all (list_all almost_zero) (msub A ?D) \<longleftrightarrow> (\<forall>a<n. \<forall>b<n. almost_zero (msub A ?D ! a ! b))"
    using list_all_mat [OF is_mat_msub [OF assms D]] .
  also have "\<dots> \<longleftrightarrow> almost_diagonal n A"
    by (auto simp: ent almost_diagonal_def almost_zero_def)
  finally show ?thesis .
qed

lemma check_op_ok:
  "target_shape (r_e_k (base self)) = (n, n) \<Longrightarrow> is_mat n A \<Longrightarrow>
     check_op self A = (if almost_diagonal n A then Inr () else Inl AssertionError)"
  by (simp add: check_op_def shape_is_mat off_diagonal_test)

lemma check_op_array:
  assumes "target_shape (r_e_k (base self)) = (n, n)" and "is_array A"
  shows "check_op self A = (if is_mat n A \<and> almost_diagonal n A then Inr () else Inl AssertionError)"
proof (cases "shape A = (n, n)")
  case True
  with assms(2) have "is_mat n A"
    by (simp add: is_mat_shape is_array_def)
  with assms(1) show ?thesis
    by (simp add: check_op_ok)
next
  case False
  then have "\<not> is_mat n A"
    using shape_is_mat by blast
  with False assms(1) show ?thesis
    by (simp add: check_op_def)
qed

lemma einsum_aa_ab_bb_mat:
  "is_mat n A \<Longrightarrow> is_mat n B \<Longrightarrow>
     einsum_aa_ab_bb A X B = (\<Sum>a<n. \<Sum>b<n. A ! a ! a * X ! a ! b * B ! b ! b)"
  by (simp add: einsum_aa_ab_bb_def is_mat_def)

lemma resp2_shape: "target_shape (r_e_k (base resp2)) = (2, 2)"
  by (simp add: resp2_def BaseResponse_init_def solver2_def disp2_def Let_def)

lemma is_mat_op_small: "is_mat 2 op_small"
  by (simp add: is_mat_def op_small_def)

lemma is_array_op_small: "is_array op_small"
  by (simp add: is_array_def op_small_def shape_def)

lemma all_less_2: "(\<forall>a<2::nat. P a) \<longleftrightarrow> P 0 \<and> P 1"
  by (auto simp: less_2_cases_iff)

lemma almost_diagonal_op_small: "almost_diagonal 2 op_small"
  by (simp add: almost_diagonal_def op_small_def all_less_2 norm_divide norm_power)

lemma not_diagonal_op_small: "\<not> is_diagonal 2 op_small"
  by (simp add: is_diagonal_def op_small_def all_less_2)

section \<open>Entries of the density matrix and of the bare response\<close>

lemma mat_eqI:
  assumes "is_mat n A" and "is_mat n B" and "\<And>a b. a < n \<Longrightarrow> b < n \<Longrightarrow> A ! a ! b = B ! a ! b"
  shows "A = B"
proof (rule nth_equalityI)
  show "length A = length B" using assms(1,2) by (simp add: is_mat_def)
next
  fix a assume "a < length A"
  then have a: "a < n" using assms(1) by (simp add: is_mat_def)
  show "A ! a = B ! a"
  proof (rule nth_equalityI)
    show "length (A ! a) = length (B ! a)"
      using assms(1,2) a by (simp add: is_mat_nth)
  next
    fix b assume "b < length (A ! a)"
    then have "b < n" using assms(1) a by (simp add: is_mat_nth)
    with a show "A ! a ! b = B ! a ! b" by (rule assms(3))
  qed
qed

lemma is_mat_map_upt: "is_mat n (map (\<lambda>a. map (f a) [0..<n]) [0..<n])"
  by (simp add: is_mat_def list_all_length)

lemma is_mat_einsum_kac: "is_mat n (einsum_kac n V f)"
  unfolding einsum_kac_def by (rule is_mat_map_upt)

lemma einsum_kac_nth:
  "a < n \<Longrightarrow> c < n \<Longrightarrow>
     einsum_kac n V f ! a ! c = (\<Sum>b<n. V ! a ! b * complex_of_real (f ! b) * cnj (V ! c ! b))"
  by (simp add: einsum_kac_def)

lemma is_mat_einsum_ac: "is_mat n (einsum_ac n Vs fs)"
  unfolding einsum_ac_def by (rule is_mat_map_upt)

lemma einsum_ac_nth:
  "a < n \<Longrightarrow> c < n \<Longrightarrow>
     einsum_ac n Vs fs ! a ! c =
       (\<Sum>k<length Vs. \<Sum>b<n. Vs ! k ! a ! b * complex_of_real (fs ! k ! b) * cnj (Vs ! k ! c ! b))"
  by (simp add: einsum_ac_def)

lemma is_mat_sum_axis0: "is_mat n (sum_axis0 n Ms)"
  unfolding sum_axis0_def by (rule is_mat_map_upt)

lemma sum_axis0_nth:
  "a < n \<Longrightarrow> c < n \<Longrightarrow> sum_axis0 n Ms ! a ! c = (\<Sum>k<length Ms. Ms ! k ! a ! c)"
  by (simp add: sum_axis0_def)

lemma is_mat_mdiv: "is_mat n A \<Longrightarrow> is_mat n (mdiv A z)"
  by (simp add: mdiv_def is_mat_def list_all_length)

lemma mdiv_nth: "is_mat n A \<Longrightarrow> a < n \<Longrightarrow> b < n \<Longrightarrow> mdiv A z ! a ! b = A ! a ! b / z"
  by (simp add: mdiv_def is_mat_def list_all_length)

lemma is_mat_mneg: "is_mat n A \<Longrightarrow> is_mat n (mneg A)"
  by (simp add: mneg_def is_mat_def list_all_length)

lemma mneg_nth: "is_mat n A \<Longrightarrow> a < n \<Longrightarrow> b < n \<Longrightarrow> mneg A ! a ! b = - (A ! a ! b)"
  by (simp add: mneg_def is_mat_def list_all_length)

lemma is_mat_mscale: "is_mat n A \<Longrightarrow> is_mat n (mscale z A)"
  by (simp add: mscale_def is_mat_def list_all_length)

lemma mscale_nth: "is_mat n A \<Longrightarrow> a < n \<Longrightarrow> b < n \<Longrightarrow> mscale z A ! a ! b = z * A ! a ! b"
  by (simp add: mscale_def is_mat_def list_all_length)

lemma is_mat_np_eye: "is_mat n (np_eye n)"
  unfolding np_eye_def by (rule is_mat_map_upt)

lemma np_eye_nth: "a < n \<Longrightarrow> b < n \<Longrightarrow> np_eye n ! a ! b = (if a = b then 1 else 0)"
  by (simp add: np_eye_def)

lemma is_mat_np_zeros: "is_mat n (np_zeros (n, n))"
  by (simp add: np_zeros_def is_mat_def list_all_length)

lemma np_zeros_nth: "a < n \<Longrightarrow> b < n \<Longrightarrow> np_zeros (n, n) ! a ! b = 0"
  by (simp add: np_zeros_def)

lemma is_mat_unit_field: "is_mat n (unit_field (n, n) idx)"
  by (cases "idx < n") (auto simp: unit_field_def np_zeros_def is_mat_def list_all_length nth_list_update)

lemma msub_zero_scale:
  assumes "is_mat n A"
  shows "msub A (mscale 0 (np_eye n)) = A"
proof (rule mat_eqI [of n])
  show "is_mat n (msub A (mscale 0 (np_eye n)))"
    by (simp add: is_mat_msub assms is_mat_mscale is_mat_np_eye)
  show "is_mat n A" by (rule assms)
  fix a b assume "a < n" "b < n"
  then show "msub A (mscale 0 (np_eye n)) ! a ! b = A ! a ! b"
    by (simp add: msub_nth [where n = n] assms is_mat_mscale is_mat_np_eye mscale_nth [where n = n])
qed

lemma madd_neg_scale:
  assumes "is_mat n A" and "is_mat n F"
  shows "madd A (mscale (- z) F) = msub A (mscale z F)"
proof (rule mat_eqI [of n])
  show "is_mat n (madd A (mscale (- z) F))"
    by (simp add: is_mat_madd assms is_mat_mscale)
  show "is_mat n (msub A (mscale z F))"
    by (simp add: is_mat_msub assms is_mat_mscale)
  fix a b assume "a < n" "b < n"
  then show "madd A (mscale (- z) F) ! a ! b = msub A (mscale z F) ! a ! b"
    by (simp add: msub_nth [where n = n] madd_nth [where n = n] assms is_mat_mscale
        mscale_nth [where n = n])
qed

lemma wf_disp_block: "wf_disp n ek \<Longrightarrow> k < mesh_len ek \<Longrightarrow> is_mat n (data ek ! k)"
  by (simp add: wf_disp_def mesh_len_def list_all_length)

lemma wf_disp_shape: "wf_disp n ek \<Longrightarrow> target_shape ek = (n, n)"
  by (simp add: wf_disp_def)

lemma rho_mf_nth:
  assumes wf: "wf_disp n ek" and M: "is_mat n M'" and b: "b < n"
  shows "rho_mf lib ek bt (Some M') None ! b ! b =
           (\<Sum>k<mesh_len ek. occ lib n bt (madd (data ek ! k) M') b) / of_nat (mesh_len ek)"
proof -
  have "rho_mf lib ek bt (Some M') None ! b ! b =
          (\<Sum>k<mesh_len ek. occ lib n bt (msub (madd (data ek ! k) M') (mscale 0 (np_eye n))) b)
            / of_nat (mesh_len ek)"
    using b
    by (simp add: rho_mf_def Let_def default_to_def wf_disp_shape [OF wf]
        mdiv_nth [where n = n] is_mat_einsum_ac einsum_ac_nth occ_def mesh_len_def)
  also have "(\<Sum>k<mesh_len ek. occ lib n bt (msub (madd (data ek ! k) M') (mscale 0 (np_eye n))) b)
               = (\<Sum>k<mesh_len ek. occ lib n bt (madd (data ek ! k) M') b)"
  proof (rule sum.cong [OF refl])
    fix k assume "k \<in> {..<mesh_len ek}"
    then have "is_mat n (data ek ! k)"
      using wf_disp_block [OF wf] by simp
    then show "occ lib n bt (msub (madd (data ek ! k) M') (mscale 0 (np_eye n))) b
                 = occ lib n bt (madd (data ek ! k) M') b"
      by (simp add: msub_zero_scale is_mat_madd M)
  qed
  finally show ?thesis .
qed

lemma is_mat_chi0_op: "is_mat (fst (target_shape ek)) (chi0_op lib ek bt F eps_arg)"
  by (simp add: chi0_op_def Let_def is_mat_mneg is_mat_mdiv is_mat_sum_axis0)

lemma chi0_op_nth:
  assumes wf: "wf_disp n ek" and b: "b < n"
  shows "chi0_op lib ek bt F (Some eps) ! b ! b =
           - ((\<Sum>k<mesh_len ek.
                 (occ lib n bt (madd (data ek ! k) (mscale (complex_of_real eps) F)) b
                  - occ lib n bt (msub (data ek ! k) (mscale (complex_of_real eps) F)) b)
                 / (2 * complex_of_real eps)) / of_nat (mesh_len ek))"
  using b
  by (simp add: chi0_op_def Let_def default_to_def wf_disp_shape [OF wf]
      mneg_nth [where n = n] mdiv_nth [where n = n] is_mat_mdiv is_mat_sum_axis0 sum_axis0_nth
      is_mat_msub is_mat_einsum_kac msub_nth [where n = n] einsum_kac_nth occ_def mesh_len_def)

lemma chi0_mat_nth:
  assumes wf: "wf_disp n ek" and a: "a < n" and b: "b < n"
  shows "chi0_mat lib ek bt eps_arg ! a ! b =
           chi0_op lib ek bt (unit_field (n, n) a) (Some (default_to (1 / 10 ^ 9) eps_arg)) ! b ! b"
proof -
  have "is_mat n (chi0_op lib ek bt (unit_field (n, n) a) (Some (default_to (1 / 10 ^ 9) eps_arg)))"
    using is_mat_chi0_op [of ek] wf_disp_shape [OF wf] by simp
  then show ?thesis
    using a b by (simp add: chi0_mat_def Let_def wf_disp_shape [OF wf] np_diag_mat_nth)
qed

lemma unit1: "unit_field (Suc 0, Suc 0) 0 = [[1]]"
  by (simp add: unit_field_def np_zeros_def)

lemma rho_mf1: "rho_mf lib1 disp1 bt (Some [[z]]) None = [[complex_of_real (fermi (Re z) bt)]]"
  by (simp add: rho_mf_def Let_def default_to_def disp1_def lib1_def eigh1_def np_eye_def
      madd_def msub_def mscale_def einsum_ac_def mdiv_def mesh_len_def)

lemma chi0_mat1:
  "chi0_mat lib1 disp1 bt (Some eps) = [[- ((complex_of_real (fermi eps bt) - complex_of_real (fermi (- eps) bt)) / (2 * complex_of_real eps))]]"
  by (simp add: chi0_mat_def chi0_op_def Let_def default_to_def disp1_def lib1_def eigh1_def
      unit1 madd_def msub_def mscale_def einsum_kac_def sum_axis0_def mdiv_def mneg_def
      mesh_len_def np_diag_mat_def shape_def)

lemma fermi_neq: "fermi 1 1 \<noteq> fermi (- 1) 1"
  by (simp add: fermi_def)

lemma neg_half_neq: "(x::complex) \<noteq> 0 \<Longrightarrow> - (x / 2) \<noteq> x / 2"
proof
  assume x: "x \<noteq> 0" and eq: "- (x / 2) = x / 2"
  from eq have "x / 2 + x / 2 = 0"
    by (metis add.left_inverse)
  then have "x = 0" by simp
  with x show False by simp
qed

lemma wf_disp1: "wf_disp 1 disp1"
  by (simp add: wf_disp_def disp1_def is_mat_def)

section \<open>The Dyson equation without interaction\<close>

lemma is_mat_matmul: "is_mat n A \<Longrightarrow> is_mat n B \<Longrightarrow> is_mat n (matmul A B)"
  by (simp add: matmul_def shape_is_mat is_mat_length is_mat_map_upt)

lemma matmul_nth:
  "is_mat n A \<Longrightarrow> is_mat n B \<Longrightarrow> a < n \<Longrightarrow> b < n \<Longrightarrow>
     matmul A B ! a ! b = (\<Sum>k<n. A ! a ! k * B ! k ! b)"
  by (simp add: matmul_def shape_is_mat is_mat_length)

lemma matmul_zeros_left:
  assumes "is_mat n B"
  shows "matmul (np_zeros (n, n)) B = np_zeros (n, n)"
proof (rule mat_eqI [of n])
  show "is_mat n (matmul (np_zeros (n, n)) B)"
    by (simp add: is_mat_matmul is_mat_np_zeros assms)
  show "is_mat n (np_zeros (n, n))" by (rule is_mat_np_zeros)
  fix a b assume "a < n" "b < n"
  then show "matmul (np_zeros (n, n)) B ! a ! b = np_zeros (n, n) ! a ! b"
    by (simp add: matmul_nth [where n = n] is_mat_np_zeros assms np_zeros_nth)
qed

lemma matmul_eye_right:
  assumes "is_mat n A"
  shows "matmul A (np_eye n) = A"
proof (rule mat_eqI [of n])
  show "is_mat n (matmul A (np_eye n))"
    by (simp add: is_mat_matmul is_mat_np_eye assms)
  show "is_mat n A" by (rule assms)
  fix a b assume ab: "a < n" "b < n"
  then have "matmul A (np_eye n) ! a ! b = (\<Sum>k<n. A ! a ! k * (if k = b then 1 else 0))"
    by (simp add: matmul_nth [where n = n] is_mat_np_eye assms np_eye_nth)
  also have "\<dots> = (\<Sum>k<n. if k = b then A ! a ! b else 0)"
    by (rule sum.cong) auto
  also have "\<dots> = A ! a ! b"
    using ab by simp
  finally show "matmul A (np_eye n) ! a ! b = A ! a ! b" .
qed

lemma msub_eye_zeros: "msub (np_eye n) (np_zeros (n, n)) = np_eye n"
proof (rule mat_eqI [of n])
  show "is_mat n (msub (np_eye n) (np_zeros (n, n)))"
    by (simp add: is_mat_msub is_mat_np_eye is_mat_np_zeros)
  show "is_mat n (np_eye n)" by (rule is_mat_np_eye)
  fix a b assume "a < n" "b < n"
  then show "msub (np_eye n) (np_zeros (n, n)) ! a ! b = np_eye n ! a ! b"
    by (simp add: msub_nth [where n = n] is_mat_np_eye is_mat_np_zeros np_zeros_nth)
qed

lemma is_mat_chi0_mat:
  assumes "target_shape ek = (n, n)"
  shows "is_mat n (chi0_mat lib ek bt eps_arg)"
proof -
  have "\<And>F e. length (np_diag_mat (chi0_op lib ek bt F e)) = n"
    using is_mat_chi0_op [of ek lib bt] assms by (simp add: length_np_diag_mat)
  then show ?thesis
    by (simp add: chi0_mat_def Let_def assms is_mat_def list_all_length)
qed

lemma inv1_contract: "inv_contract 1 inv1"
  unfolding inv_contract_def
proof (intro allI impI)
  fix A B :: cmat
  assume h: "is_mat 1 A \<and> is_mat 1 B \<and> matmul A B = np_eye 1 \<and> matmul B A = np_eye 1"
  then obtain a b where A: "A = [[a]]" and B: "B = [[b]]"
    by (auto simp: is_mat_def length_Suc_conv)
  from h have "a * b = 1"
    by (simp add: A B matmul_def np_eye_def shape_def)
  then show "inv1 A = Inr B"
    by (auto simp: inv1_def A B field_simps)
qed

section \<open>The chemical potential\<close>

lemma foldl_add: "foldl (\<lambda>acc x. acc + x) a xs = a + sum_list xs" for a :: real
  by (induction xs arbitrary: a) simp_all

lemma np_sum_exact: "np_sum (\<lambda>x. x) xs = sum_list xs"
  by (simp add: np_sum_def foldl_add)

lemma fermi_rnd_exact: "fermi_rnd (\<lambda>x. x) e bt = fermi e bt"
  by (simp add: fermi_rnd_def fermi_def)

lemma sum_list_concat_map: "sum_list (concat xss) = (\<Sum>xs\<leftarrow>xss. sum_list xs)"
  for xss :: "real list list"
  by (induction xss) simp_all

lemma target_function_exact:
  "target_function (\<lambda>x. x) e n_k bt N m
     = (\<Sum>ek\<leftarrow>e. \<Sum>x\<leftarrow>ek. fermi (x - m) bt) / real n_k - N"
  by (simp add: target_function_def np_sum_exact fermi_rnd_exact map_concat
      sum_list_concat_map comp_def)

lemma inverse_bounds:
  fixes d :: real
  shows "2 < d \<Longrightarrow> 1 / d < 1 / 2" and "0 < d \<Longrightarrow> d < 2 \<Longrightarrow> 1 / 2 < 1 / d"
    and "1 < d \<Longrightarrow> 1 / d < 1"
  by (simp_all add: field_simps)

lemma fermi_lt_half:
  assumes "0 < bt" and "0 < x"
  shows "fermi x bt < 1 / 2"
proof -
  from assms have "1 < exp (bt * x)"
    by simp
  then have "2 < exp (bt * x) + 1"
    by simp
  then have "1 / (exp (bt * x) + 1) < 1 / 2"
    by (rule inverse_bounds(1))
  then show ?thesis
    by (simp only: fermi_def)
qed

lemma fermi_gt_half:
  assumes "0 < bt" and "x < 0"
  shows "1 / 2 < fermi x bt"
proof -
  from assms have "bt * x < 0"
    by (simp add: mult_pos_neg)
  then have "exp (bt * x) < 1"
    by simp
  moreover have "0 < exp (bt * x) + 1"
    by (simp add: add_pos_pos)
  ultimately have "1 / 2 < 1 / (exp (bt * x) + 1)"
    by (intro inverse_bounds(2)) simp_all
  then show ?thesis
    by (simp only: fermi_def)
qed

lemma fermi_zero: "fermi 0 bt = 1 / 2"
  by (simp add: fermi_def)

lemma fermi_less_one: "fermi x bt < 1"
proof -
  have "1 < exp (bt * x) + 1"
    by simp
  then have "1 / (exp (bt * x) + 1) < 1"
    by (rule inverse_bounds(3))
  then show ?thesis
    by (simp only: fermi_def)
qed

lemma brentq_model_mid:
  assumes "f a * f b < 0" and "f ((a + b) / 2) = 0"
  shows "brentq_model f a b = Inr ((a + b) / 2)"
proof -
  have "bisect (Suc 99) f a b = Inr ((a + b) / 2)"
    unfolding bisect.simps Let_def assms(2) by simp
  moreover have "(100 :: nat) = Suc 99"
    by simp
  moreover from assms(1) have "\<not> f a * f b > 0" "f a \<noteq> 0" "f b \<noteq> 0"
    by (auto simp: not_less mult_le_0_iff)
  ultimately show ?thesis
    by (simp only: brentq_model_def if_False)
qed

text \<open>
  A fully occupied level. At \<open>beta = 4\<close> and \<open>mu = 10\<close> the occupation of a level at energy
  \<open>0\<close> is \<open>1 / (exp (- 40) + 1)\<close>, which is less than one; in double precision
  \<open>exp (- 40) + 1\<close> rounds to \<open>1\<close>, the target function for \<open>N_tot = 1\<close> is exactly zero at
  \<open>mu_max\<close>, and a root-finder that accepts a zero at an end of the bracket returns
  \<open>mu_max\<close>.
\<close>

lemma saturated_level:
  assumes "r (- 10) = - 10" and "r (- 40) = - 40" and "r (r (exp (- 40)) + 1) = 1"
    and "r 1 = 1" and "r 0 = 0"
  shows "target_function r [[0]] 1 4 1 10 = 0"
  by (simp add: target_function_def fermi_rnd_def np_sum_def assms)

lemma saturated_level_returns:
  assumes "rnd lib = r" and "eigvalsh lib = eigvalsh1" and "brentq lib = brentq_model"
    and "r (- 10) = - 10" and "r (- 40) = - 40" and "r (r (exp (- 40)) + 1) = 1"
    and "r 1 = 1" and "r 0 = 0"
    and "target_function r [[0]] 1 4 1 (- 10) \<noteq> 0"
  shows "update_chemical_potential lib (solver1 u) 4 1 mu0 = Inr (solver1 u\<lparr>mu := 10\<rparr>)"
proof -
  let ?f = "target_function r [[0]] 1 4 1"
  have e: "map (eigvalsh lib) (data (e_k_MF (solver1 u))) = [[0]]"
    "mesh_len (e_k_MF (solver1 u)) = 1" "mu_min (solver1 u) = - 10" "mu_max (solver1 u) = 10"
    by (simp_all add: assms(2) solver1_def disp1_def eigvalsh1_def mesh_len_def)
  have z: "?f 10 = 0"
    by (rule saturated_level [OF assms(4-8)])
  with assms(9) have "brentq_model ?f (- 10) 10 = Inr 10"
    by (simp add: brentq_model_def)
  then show ?thesis
    by (simp add: update_chemical_potential_def Let_def e assms(1,3))
qed

lemma target1:
  "target_function (rnd lib1) (map (eigvalsh lib1) (data (e_k_MF (solver1 u))))
     (mesh_len (e_k_MF (solver1 u))) bt N = (\<lambda>m. fermi (- m) bt - N)"
  by (rule ext) (simp add: lib1_def target_function_exact solver1_def disp1_def eigvalsh1_def
      mesh_len_def)

section \<open>The density matrix is Hermitian with spectrum in the unit interval\<close>

lemma sum_rotate3:
  fixes g :: "nat \<Rightarrow> nat \<Rightarrow> nat \<Rightarrow> complex"
  shows "(\<Sum>a<n. \<Sum>c<n. \<Sum>b<n. g a c b) = (\<Sum>b<n. \<Sum>a<n. \<Sum>c<n. g a c b)"
proof -
  have "(\<Sum>a<n. \<Sum>c<n. \<Sum>b<n. g a c b) = (\<Sum>a<n. \<Sum>b<n. \<Sum>c<n. g a c b)"
    by (rule sum.cong [OF refl]) (rule sum.swap)
  also have "\<dots> = (\<Sum>b<n. \<Sum>a<n. \<Sum>c<n. g a c b)"
    by (rule sum.swap)
  finally show ?thesis .
qed

lemma quad_form_block:
  fixes V :: "nat \<Rightarrow> nat \<Rightarrow> complex" and f :: "nat \<Rightarrow> real" and x :: "nat \<Rightarrow> complex"
  shows "(\<Sum>a<n. cnj (x a) * (\<Sum>c<n. (\<Sum>b<n. V a b * complex_of_real (f b) * cnj (V c b)) * x c))
       = (\<Sum>b<n. complex_of_real (f b)
             * (cnj (\<Sum>c<n. cnj (V c b) * x c) * (\<Sum>c<n. cnj (V c b) * x c)))"
proof -
  let ?g = "\<lambda>a c b. cnj (x a) * V a b * complex_of_real (f b) * cnj (V c b) * x c"
  have "(\<Sum>a<n. cnj (x a) * (\<Sum>c<n. (\<Sum>b<n. V a b * complex_of_real (f b) * cnj (V c b)) * x c))
          = (\<Sum>a<n. \<Sum>c<n. \<Sum>b<n. ?g a c b)"
    by (simp add: sum_distrib_left sum_distrib_right mult.assoc)
  also have "\<dots> = (\<Sum>b<n. \<Sum>a<n. \<Sum>c<n. ?g a c b)"
    by (rule sum_rotate3)
  also have "\<dots> = (\<Sum>b<n. complex_of_real (f b)
             * (cnj (\<Sum>c<n. cnj (V c b) * x c) * (\<Sum>c<n. cnj (V c b) * x c)))"
    by (simp add: sum_distrib_left sum_distrib_right mult_ac)
  finally show ?thesis .
qed

lemma sum_delta_lt:
  fixes g :: "nat \<Rightarrow> complex"
  assumes "a < n"
  shows "(\<Sum>c<n. g c * (if a = c then 1 else 0)) = g a"
proof -
  have "(\<Sum>c<n. g c * (if a = c then 1 else 0)) = (\<Sum>c<n. if c = a then g c else 0)"
    by (rule sum.cong) auto
  also have "\<dots> = g a"
    using assms by simp
  finally show ?thesis .
qed

lemma parseval_rows:
  fixes V :: "nat \<Rightarrow> nat \<Rightarrow> complex" and x :: "nat \<Rightarrow> complex"
  assumes orth: "\<And>a c. a < n \<Longrightarrow> c < n \<Longrightarrow> (\<Sum>b<n. V a b * cnj (V c b)) = (if a = c then 1 else 0)"
  shows "(\<Sum>b<n. cnj (\<Sum>c<n. cnj (V c b) * x c) * (\<Sum>c<n. cnj (V c b) * x c))
           = (\<Sum>a<n. cnj (x a) * x a)"
proof -
  let ?g = "\<lambda>a c b. cnj (x a) * x c * (V a b * cnj (V c b))"
  have "(\<Sum>b<n. cnj (\<Sum>c<n. cnj (V c b) * x c) * (\<Sum>c<n. cnj (V c b) * x c))
          = (\<Sum>b<n. \<Sum>a<n. \<Sum>c<n. ?g a c b)"
    by (simp add: sum_distrib_left sum_distrib_right mult_ac)
  also have "\<dots> = (\<Sum>a<n. \<Sum>c<n. \<Sum>b<n. ?g a c b)"
    by (rule sum_rotate3 [symmetric])
  also have "\<dots> = (\<Sum>a<n. \<Sum>c<n. cnj (x a) * x c * (if a = c then 1 else 0))"
    by (intro sum.cong refl) (simp add: sum_distrib_left [symmetric] orth)
  also have "\<dots> = (\<Sum>a<n. cnj (x a) * x a)"
    by (intro sum.cong refl) (simp add: sum_delta_lt)
  finally show ?thesis .
qed


lemma sum_pull_k:
  fixes B :: "nat \<Rightarrow> nat \<Rightarrow> nat \<Rightarrow> complex" and x :: "nat \<Rightarrow> complex"
  shows "(\<Sum>a<n. cnj (x a) * (\<Sum>c<n. ((\<Sum>k<nk. B k a c) / z) * x c))
           = (\<Sum>k<nk. \<Sum>a<n. cnj (x a) * (\<Sum>c<n. B k a c * x c)) / z"
proof -
  have "(\<Sum>a<n. cnj (x a) * (\<Sum>c<n. ((\<Sum>k<nk. B k a c) / z) * x c))
          = (\<Sum>a<n. \<Sum>c<n. \<Sum>k<nk. cnj (x a) * (B k a c * x c)) / z"
    by (simp add: sum_distrib_left sum_distrib_right sum_divide_distrib mult.assoc)
  also have "(\<Sum>a<n. \<Sum>c<n. \<Sum>k<nk. cnj (x a) * (B k a c * x c))
               = (\<Sum>a<n. \<Sum>k<nk. \<Sum>c<n. cnj (x a) * (B k a c * x c))"
    by (rule sum.cong [OF refl]) (rule sum.swap)
  also have "\<dots> = (\<Sum>k<nk. \<Sum>a<n. \<Sum>c<n. cnj (x a) * (B k a c * x c))"
    by (rule sum.swap)
  also have "\<dots> = (\<Sum>k<nk. \<Sum>a<n. cnj (x a) * (\<Sum>c<n. B k a c * x c))"
    by (simp add: sum_distrib_left)
  finally show ?thesis .
qed

lemma cnj_mult_self: "cnj z * z = complex_of_real ((cmod z)\<^sup>2)"
  using complex_norm_square [of z] by (simp add: mult.commute)

lemma quad_form_bounds:
  fixes V :: "nat \<Rightarrow> nat \<Rightarrow> nat \<Rightarrow> complex" and f :: "nat \<Rightarrow> nat \<Rightarrow> real"
    and x :: "nat \<Rightarrow> complex"
  assumes nk: "0 < nk"
    and orth': "\<forall>k<nk. \<forall>a<n. \<forall>c<n.
                 (\<Sum>b<n. V k a b * cnj (V k c b)) = (if a = c then 1 else 0)"
    and f': "\<forall>k<nk. \<forall>b<n. 0 \<le> f k b \<and> f k b \<le> 1"
  shows "\<exists>q. 0 \<le> q \<and> q \<le> (\<Sum>a<n. (cmod (x a))\<^sup>2)
           \<and> (\<Sum>a<n. cnj (x a) * (\<Sum>c<n.
                 ((\<Sum>k<nk. \<Sum>b<n. V k a b * complex_of_real (f k b) * cnj (V k c b)) / of_nat nk) * x c))
               = complex_of_real q"
proof -
  note orth = orth' [rule_format] and f = f' [rule_format]
  let ?N = "\<Sum>a<n. (cmod (x a))\<^sup>2"
  let ?y = "\<lambda>k b. \<Sum>c<n. cnj (V k c b) * x c"
  let ?q = "\<lambda>k. \<Sum>b<n. f k b * (cmod (?y k b))\<^sup>2"
  have blk: "\<And>k. (\<Sum>a<n. cnj (x a) * (\<Sum>c<n.
                 (\<Sum>b<n. V k a b * complex_of_real (f k b) * cnj (V k c b)) * x c))
               = complex_of_real (?q k)"
  proof -
    fix k
    have "(\<Sum>a<n. cnj (x a) * (\<Sum>c<n.
                 (\<Sum>b<n. V k a b * complex_of_real (f k b) * cnj (V k c b)) * x c))
            = (\<Sum>b<n. complex_of_real (f k b) * (cnj (?y k b) * ?y k b))"
      by (rule quad_form_block)
    also have "\<dots> = (\<Sum>b<n. complex_of_real (f k b) * complex_of_real ((cmod (?y k b))\<^sup>2))"
      by (simp only: cnj_mult_self)
    also have "\<dots> = complex_of_real (?q k)"
      by (simp only: of_real_sum of_real_mult)
    finally show "(\<Sum>a<n. cnj (x a) * (\<Sum>c<n.
                 (\<Sum>b<n. V k a b * complex_of_real (f k b) * cnj (V k c b)) * x c))
               = complex_of_real (?q k)" .
  qed
  have pars: "\<And>k. k < nk \<Longrightarrow> (\<Sum>b<n. (cmod (?y k b))\<^sup>2) = ?N"
  proof -
    fix k assume k: "k < nk"
    have "complex_of_real (\<Sum>b<n. (cmod (?y k b))\<^sup>2) = (\<Sum>b<n. cnj (?y k b) * ?y k b)"
      by (simp only: cnj_mult_self of_real_sum)
    also have "\<dots> = (\<Sum>a<n. cnj (x a) * x a)"
      by (rule parseval_rows) (rule orth [OF k])
    also have "\<dots> = complex_of_real ?N"
      by (simp only: cnj_mult_self of_real_sum)
    finally show "(\<Sum>b<n. (cmod (?y k b))\<^sup>2) = ?N"
      by (simp only: of_real_eq_iff)
  qed
  have q0: "\<And>k. k < nk \<Longrightarrow> 0 \<le> ?q k"
    by (rule sum_nonneg) (simp add: f)
  have q1: "\<And>k. k < nk \<Longrightarrow> ?q k \<le> ?N"
  proof -
    fix k assume k: "k < nk"
    have "?q k \<le> (\<Sum>b<n. (cmod (?y k b))\<^sup>2)"
      by (rule sum_mono) (simp add: f [OF k] mult_left_le_one_le)
    with pars [OF k] show "?q k \<le> ?N" by simp
  qed
  let ?Q = "(\<Sum>k<nk. ?q k) / real nk"
  have "0 \<le> (\<Sum>k<nk. ?q k)"
    by (rule sum_nonneg) (simp add: q0)
  then have Q0: "0 \<le> ?Q" by simp
  have "(\<Sum>k<nk. ?q k) \<le> (\<Sum>k<nk. ?N)"
    by (rule sum_mono) (simp add: q1)
  then have "(\<Sum>k<nk. ?q k) \<le> real nk * ?N" by simp
  with nk have Q1: "?Q \<le> ?N"
    by (simp add: field_simps)
  have "(\<Sum>a<n. cnj (x a) * (\<Sum>c<n.
                 ((\<Sum>k<nk. \<Sum>b<n. V k a b * complex_of_real (f k b) * cnj (V k c b)) / of_nat nk) * x c))
          = (\<Sum>k<nk. \<Sum>a<n. cnj (x a) * (\<Sum>c<n.
                 (\<Sum>b<n. V k a b * complex_of_real (f k b) * cnj (V k c b)) * x c)) / of_nat nk"
    by (rule sum_pull_k)
  also have "\<dots> = complex_of_real ?Q"
    by (simp only: blk) simp
  finally show ?thesis
    using Q0 Q1 by blast
qed


lemma eigenvalue_bounds:
  fixes V :: "nat \<Rightarrow> nat \<Rightarrow> nat \<Rightarrow> complex" and f :: "nat \<Rightarrow> nat \<Rightarrow> real"
    and x :: "nat \<Rightarrow> complex"
  assumes nk: "0 < nk"
    and orth': "\<forall>k<nk. \<forall>a<n. \<forall>c<n.
                 (\<Sum>b<n. V k a b * cnj (V k c b)) = (if a = c then 1 else 0)"
    and f': "\<forall>k<nk. \<forall>b<n. 0 \<le> f k b \<and> f k b \<le> 1"
    and eig': "\<forall>a<n.
                (\<Sum>c<n. ((\<Sum>k<nk. \<Sum>b<n. V k a b * complex_of_real (f k b) * cnj (V k c b))
                            / of_nat nk) * x c) = lam * x a"
    and nz: "\<exists>a<n. x a \<noteq> 0"
  shows "Im lam = 0 \<and> 0 \<le> Re lam \<and> Re lam \<le> 1"
proof -
  let ?N = "\<Sum>a<n. (cmod (x a))\<^sup>2"
  from quad_form_bounds [OF nk orth' f', of x] obtain q where
    q: "0 \<le> q" "q \<le> ?N"
    and eq: "(\<Sum>a<n. cnj (x a) * (\<Sum>c<n.
                 ((\<Sum>k<nk. \<Sum>b<n. V k a b * complex_of_real (f k b) * cnj (V k c b)) / of_nat nk) * x c))
               = complex_of_real q"
    by blast
  have "(\<Sum>a<n. cnj (x a) * (\<Sum>c<n.
                 ((\<Sum>k<nk. \<Sum>b<n. V k a b * complex_of_real (f k b) * cnj (V k c b)) / of_nat nk) * x c))
          = (\<Sum>a<n. cnj (x a) * (lam * x a))"
  proof (rule sum.cong [OF refl])
    fix a assume "a \<in> {..<n}"
    then have "a < n" by simp
    from eig' [rule_format, OF this]
    show "cnj (x a) * (\<Sum>c<n.
                 ((\<Sum>k<nk. \<Sum>b<n. V k a b * complex_of_real (f k b) * cnj (V k c b)) / of_nat nk) * x c)
            = cnj (x a) * (lam * x a)"
      by (simp only:)
  qed
  also have "\<dots> = (\<Sum>a<n. lam * (cnj (x a) * x a))"
    by (rule sum.cong [OF refl]) (simp add: mult_ac)
  also have "\<dots> = lam * (\<Sum>a<n. cnj (x a) * x a)"
    by (simp only: sum_distrib_left)
  also have "\<dots> = lam * complex_of_real ?N"
    by (simp only: cnj_mult_self of_real_sum)
  finally have lamN: "lam * complex_of_real ?N = complex_of_real q"
    using eq by simp
  from nz obtain a where a: "a < n" "x a \<noteq> 0" by blast
  have "(cmod (x a))\<^sup>2 \<le> ?N"
    using a(1) by (intro member_le_sum) auto
  moreover have "0 < (cmod (x a))\<^sup>2"
    using a(2) by simp
  ultimately have N: "0 < ?N" by linarith
  then have Nz: "complex_of_real ?N \<noteq> 0"
    by (simp only: of_real_eq_0_iff)
  have "lam = complex_of_real q / complex_of_real ?N"
    using lamN by (simp only: nonzero_eq_divide_eq [OF Nz])
  then have lam: "lam = complex_of_real (q / ?N)"
    by (simp only: of_real_divide)
  have "0 \<le> q / ?N" "q / ?N \<le> 1"
    using q N by (simp_all add: field_simps)
  with lam show ?thesis
    by simp
qed

lemma trace_bounds:
  fixes V :: "nat \<Rightarrow> nat \<Rightarrow> nat \<Rightarrow> complex" and f :: "nat \<Rightarrow> nat \<Rightarrow> real"
  assumes nk: "0 < nk"
    and cols': "\<forall>k<nk. \<forall>b<n. (\<Sum>a<n. V k a b * cnj (V k a b)) = 1"
    and f': "\<forall>k<nk. \<forall>b<n. 0 \<le> f k b \<and> f k b \<le> 1"
  shows "\<exists>t. 0 \<le> t \<and> t \<le> real n
           \<and> (\<Sum>a<n. (\<Sum>k<nk. \<Sum>b<n. V k a b * complex_of_real (f k b) * cnj (V k a b)) / of_nat nk)
               = complex_of_real t"
proof -
  note cols = cols' [rule_format] and f = f' [rule_format]
  let ?t = "(\<Sum>k<nk. \<Sum>b<n. f k b) / real nk"
  have "(\<Sum>a<n. (\<Sum>k<nk. \<Sum>b<n. V k a b * complex_of_real (f k b) * cnj (V k a b)) / of_nat nk)
          = (\<Sum>a<n. \<Sum>k<nk. \<Sum>b<n. V k a b * complex_of_real (f k b) * cnj (V k a b)) / of_nat nk"
    by (simp only: sum_divide_distrib)
  also have "(\<Sum>a<n. \<Sum>k<nk. \<Sum>b<n. V k a b * complex_of_real (f k b) * cnj (V k a b))
               = (\<Sum>k<nk. \<Sum>a<n. \<Sum>b<n. V k a b * complex_of_real (f k b) * cnj (V k a b))"
    by (rule sum.swap)
  also have "\<dots> = (\<Sum>k<nk. \<Sum>b<n. \<Sum>a<n. V k a b * complex_of_real (f k b) * cnj (V k a b))"
    by (rule sum.cong [OF refl]) (rule sum.swap)
  also have "\<dots> = (\<Sum>k<nk. \<Sum>b<n. complex_of_real (f k b))"
  proof (intro sum.cong refl)
    fix k b assume "k \<in> {..<nk}" "b \<in> {..<n}"
    then have kb: "k < nk" "b < n" by simp_all
    have "(\<Sum>a<n. V k a b * complex_of_real (f k b) * cnj (V k a b))
            = (\<Sum>a<n. complex_of_real (f k b) * (V k a b * cnj (V k a b)))"
      by (rule sum.cong [OF refl]) (simp add: mult_ac)
    also have "\<dots> = complex_of_real (f k b) * (\<Sum>a<n. V k a b * cnj (V k a b))"
      by (simp only: sum_distrib_left)
    also have "\<dots> = complex_of_real (f k b)"
      by (simp add: cols [OF kb])
    finally show "(\<Sum>a<n. V k a b * complex_of_real (f k b) * cnj (V k a b)) = complex_of_real (f k b)" .
  qed
  also have "(\<Sum>k<nk. \<Sum>b<n. complex_of_real (f k b)) / of_nat nk = complex_of_real ?t"
    by simp
  finally have eq: "(\<Sum>a<n. (\<Sum>k<nk. \<Sum>b<n. V k a b * complex_of_real (f k b) * cnj (V k a b)) / of_nat nk)
          = complex_of_real ?t" .
  have "0 \<le> (\<Sum>k<nk. \<Sum>b<n. f k b)"
    by (intro sum_nonneg) (simp add: f)
  then have t0: "0 \<le> ?t" by simp
  have "(\<Sum>k<nk. \<Sum>b<n. f k b) \<le> (\<Sum>k<nk. \<Sum>b<n. 1)"
    by (intro sum_mono) (simp add: f)
  then have "(\<Sum>k<nk. \<Sum>b<n. f k b) \<le> real nk * real n" by simp
  with nk have t1: "?t \<le> real n"
    by (simp add: field_simps)
  from eq t0 t1 show ?thesis by blast
qed

lemma hermitian_entries:
  fixes V :: "nat \<Rightarrow> nat \<Rightarrow> nat \<Rightarrow> complex" and f :: "nat \<Rightarrow> nat \<Rightarrow> real"
  shows "(\<Sum>k<nk. \<Sum>b<n. V k a b * complex_of_real (f k b) * cnj (V k c b)) / of_nat nk
           = cnj ((\<Sum>k<nk. \<Sum>b<n. V k c b * complex_of_real (f k b) * cnj (V k a b)) / of_nat nk)"
  by (simp add: mult_ac)

lemma density_matrix_ok_einsum:
  assumes nk: "0 < length Vs"
    and un: "\<forall>k<length Vs. unitary n (Vs ! k)"
    and fs: "\<forall>k<length Vs. \<forall>b<n. 0 \<le> fs ! k ! b \<and> fs ! k ! b \<le> 1"
  shows "density_matrix_ok n (mdiv (einsum_ac n Vs fs) (of_nat (length Vs)))"
proof -
  let ?nk = "length Vs"
  let ?R = "mdiv (einsum_ac n Vs fs) (of_nat ?nk)"
  let ?V = "\<lambda>k a b. Vs ! k ! a ! b"
  let ?f = "\<lambda>k b. fs ! k ! b"
  let ?r = "\<lambda>a c. (\<Sum>k<?nk. \<Sum>b<n. ?V k a b * complex_of_real (?f k b) * cnj (?V k c b)) / of_nat ?nk"
  have mat: "is_mat n ?R"
    by (simp add: is_mat_mdiv is_mat_einsum_ac)
  have ent: "\<And>a c. a < n \<Longrightarrow> c < n \<Longrightarrow> ?R ! a ! c = ?r a c"
    by (simp add: mdiv_nth [where n = n] is_mat_einsum_ac einsum_ac_nth)
  have orth: "\<forall>k<?nk. \<forall>a<n. \<forall>c<n.
      (\<Sum>b<n. ?V k a b * cnj (?V k c b)) = (if a = c then 1 else 0)"
    using un by (simp add: unitary_def)
  have cols: "\<forall>k<?nk. \<forall>b<n. (\<Sum>a<n. ?V k a b * cnj (?V k a b)) = 1"
    using un by (simp add: unitary_def)
  have herm: "hermitian n ?R"
    unfolding hermitian_def
  proof (intro conjI allI impI)
    show "is_mat n ?R" by (rule mat)
    fix a b assume ab: "a < n" "b < n"
    have "?r a b = cnj (?r b a)"
      by (rule hermitian_entries)
    with ab show "?R ! a ! b = cnj (?R ! b ! a)"
      by (simp only: ent)
  qed
  have eig: "\<forall>lam x. eigenpair n ?R lam x \<longrightarrow> Im lam = 0 \<and> 0 \<le> Re lam \<and> Re lam \<le> 1"
  proof (intro allI impI)
    fix lam x assume ep: "eigenpair n ?R lam x"
    have e1: "\<forall>a<n. (\<Sum>c<n. ?r a c * x ! c) = lam * x ! a"
    proof (intro allI impI)
      fix a assume a: "a < n"
      have "(\<Sum>c<n. ?r a c * x ! c) = (\<Sum>c<n. ?R ! a ! c * x ! c)"
        by (rule sum.cong [OF refl]) (simp only: ent [OF a] lessThan_iff)
      also have "\<dots> = lam * x ! a"
        using ep a by (simp add: eigenpair_def)
      finally show "(\<Sum>c<n. ?r a c * x ! c) = lam * x ! a" .
    qed
    have nz: "\<exists>a<n. x ! a \<noteq> 0"
      using ep by (simp add: eigenpair_def)
    show "Im lam = 0 \<and> 0 \<le> Re lam \<and> Re lam \<le> 1"
      by (rule eigenvalue_bounds [where V = ?V and f = ?f and x = "\<lambda>a. x ! a", OF nk orth fs e1 nz])
  qed
  from trace_bounds [where V = ?V and f = ?f, OF nk cols fs] obtain t where
    t: "0 \<le> t" "t \<le> real n" and tr: "(\<Sum>a<n. ?r a a) = complex_of_real t"
    by blast
  have "(\<Sum>a<n. ?R ! a ! a) = (\<Sum>a<n. ?r a a)"
    by (rule sum.cong [OF refl]) (simp only: ent lessThan_iff)
  with tr have "(\<Sum>a<n. ?R ! a ! a) = complex_of_real t"
    by simp
  with t have "Im (\<Sum>a<n. ?R ! a ! a) = 0 \<and> 0 \<le> Re (\<Sum>a<n. ?R ! a ! a) \<and> Re (\<Sum>a<n. ?R ! a ! a) \<le> real n"
    by simp
  with herm eig show ?thesis
    unfolding density_matrix_ok_def by blast
qed

lemma fermi_bounds: "0 \<le> fermi e bt \<and> fermi e bt \<le> 1"
proof -
  have p: "0 < exp (bt * e) + 1"
    by (simp add: add_pos_pos)
  have "1 \<le> exp (bt * e) + 1" by simp
  with p have "1 / (exp (bt * e) + 1) \<le> 1"
    by (simp only: divide_le_eq_1_pos)
  moreover from p have "0 \<le> 1 / (exp (bt * e) + 1)"
    by simp
  ultimately show ?thesis
    by (simp only: fermi_def)
qed

lemma hermitian_is_mat: "hermitian n A \<Longrightarrow> is_mat n A"
  unfolding hermitian_def by blast

lemma hermitianD: "hermitian n A \<Longrightarrow> a < n \<Longrightarrow> b < n \<Longrightarrow> A ! a ! b = cnj (A ! b ! a)"
  unfolding hermitian_def by blast

lemma hermitian_madd:
  assumes A: "hermitian n A" and B: "hermitian n B"
  shows "hermitian n (madd A B)"
  unfolding hermitian_def
proof (intro conjI allI impI)
  note mA = hermitian_is_mat [OF A] and mB = hermitian_is_mat [OF B]
  show "is_mat n (madd A B)" by (rule is_mat_madd [OF mA mB])
  fix a b assume a: "a < n" and b: "b < n"
  have "madd A B ! a ! b = A ! a ! b + B ! a ! b"
    by (rule madd_nth [OF mA mB a b])
  also have "\<dots> = cnj (A ! b ! a) + cnj (B ! b ! a)"
    by (simp only: hermitianD [OF A a b] hermitianD [OF B a b])
  also have "\<dots> = cnj (A ! b ! a + B ! b ! a)"
    by simp
  also have "\<dots> = cnj (madd A B ! b ! a)"
    by (simp only: madd_nth [OF mA mB b a])
  finally show "madd A B ! a ! b = cnj (madd A B ! b ! a)" .
qed

lemma hermitian_msub:
  assumes A: "hermitian n A" and B: "hermitian n B"
  shows "hermitian n (msub A B)"
  unfolding hermitian_def
proof (intro conjI allI impI)
  note mA = hermitian_is_mat [OF A] and mB = hermitian_is_mat [OF B]
  show "is_mat n (msub A B)" by (rule is_mat_msub [OF mA mB])
  fix a b assume a: "a < n" and b: "b < n"
  have "msub A B ! a ! b = A ! a ! b - B ! a ! b"
    by (rule msub_nth [OF mA mB a b])
  also have "\<dots> = cnj (A ! b ! a) - cnj (B ! b ! a)"
    by (simp only: hermitianD [OF A a b] hermitianD [OF B a b])
  also have "\<dots> = cnj (A ! b ! a - B ! b ! a)"
    by simp
  also have "\<dots> = cnj (msub A B ! b ! a)"
    by (simp only: msub_nth [OF mA mB b a])
  finally show "msub A B ! a ! b = cnj (msub A B ! b ! a)" .
qed

lemma hermitian_real_eye: "hermitian n (mscale (complex_of_real m) (np_eye n))"
  by (simp add: hermitian_def is_mat_mscale is_mat_np_eye mscale_nth [where n = n] np_eye_nth)

lemma hermitian_np_zeros: "hermitian n (np_zeros (n, n))"
  by (simp add: hermitian_def is_mat_np_zeros np_zeros_nth)

lemma hermitian_disp_block: "hermitian_disp n ek \<Longrightarrow> k < mesh_len ek \<Longrightarrow> hermitian n (data ek ! k)"
  by (simp add: hermitian_disp_def mesh_len_def list_all_length)

lemma density_matrix_ok_blocks:
  assumes c: "eigh_contract n eg"
    and nk: "0 < length Es"
    and h: "\<forall>k<length Es. hermitian n (Es ! k)"
  shows "density_matrix_ok n
           (mdiv (einsum_ac n (map snd (map eg Es))
                    (map (\<lambda>p. map (\<lambda>x. fermi (g x) bt) (fst p)) (map eg Es)))
              (of_nat (length Es)))"
proof -
  let ?Vs = "map snd (map eg Es)"
  let ?fs = "map (\<lambda>p. map (\<lambda>x. fermi (g x) bt) (fst p)) (map eg Es)"
  have len: "length ?Vs = length Es" by simp
  have un: "\<forall>k<length ?Vs. unitary n (?Vs ! k)"
    using c h by (simp add: eigh_contract_def)
  have fs: "\<forall>k<length ?Vs. \<forall>b<n. 0 \<le> ?fs ! k ! b \<and> ?fs ! k ! b \<le> 1"
  proof (intro allI impI)
    fix k b assume k: "k < length ?Vs" and b: "b < n"
    from k have k': "k < length Es" by simp
    with c h have "length (fst (eg (Es ! k))) = n"
      by (simp add: eigh_contract_def)
    with k' b have "?fs ! k ! b = fermi (g (fst (eg (Es ! k)) ! b)) bt"
      by simp
    then show "0 \<le> ?fs ! k ! b \<and> ?fs ! k ! b \<le> 1"
      using fermi_bounds by simp
  qed
  from nk have nk': "0 < length ?Vs" by simp
  from density_matrix_ok_einsum [OF nk' un fs] show ?thesis
    by simp
qed

lemma eigh1_contract: "eigh_contract 1 eigh1"
  by (simp add: eigh_contract_def eigh1_def unitary_def is_mat_def)

lemma hermitian_disp1: "hermitian_disp 1 disp1"
  by (simp add: hermitian_disp_def disp1_def hermitian_def is_mat_def)

section \<open>Unbound names\<close>

lemma unbound: "module_globals ''kmesh'' = None" "module_globals ''shape'' = None"
  "module_globals ''e_k'' = None" "module_globals ''scale'' = None"
  "module_globals ''expm'' = None"
  by (simp_all add: module_globals_def)

lemma for_each_raise:
  "xs \<noteq> [] \<Longrightarrow> (\<And>i acc. body i acc = Inl err) \<Longrightarrow> for_each xs body acc = Inl err"
  by (cases xs) simp_all

lemma pairs_empty: "List.product [0..<n] [0..<n] = [] \<longleftrightarrow> n = 0"
proof -
  have "length (List.product [0..<n] [0..<n]) = n * n"
    by (simp add: length_product)
  then show ?thesis
    by (metis length_0_conv mult_is_0)
qed

section \<open>One composite step, entry by entry\<close>

lemma mix_nth:
  "length old = n \<Longrightarrow> length new = n \<Longrightarrow> a < n \<Longrightarrow>
     mix w old new ! a = (1 - w) * old ! a + w * new ! a"
  by (simp add: mix_def)

lemma length_mix: "length old = n \<Longrightarrow> length new = n \<Longrightarrow> length (mix w old new) = n"
  by (simp add: mix_def)

lemma sum_list_nth: "sum_list (map f v) = (\<Sum>a<length v. f (v ! a))" for f :: "real \<Rightarrow> real"
proof -
  have "sum_list (map f v) = (\<Sum>a = 0..<length v. f (v ! a))"
    by (simp add: sum_list_sum_nth)
  then show ?thesis
    by (simp add: atLeast0LessThan)
qed

lemma linalg_norm_sum: "linalg_norm v = sqrt (\<Sum>a<length v. (v ! a)\<^sup>2)"
  by (simp add: linalg_norm_def sum_list_nth)

lemma linalg_norm_diff:
  assumes "length old = n" and "length new = n"
  shows "linalg_norm (map2 (-) old new) = sqrt (\<Sum>a<n. (old ! a - new ! a)\<^sup>2)"
  using assms by (simp add: linalg_norm_sum)

lemma below_tol_rel_change:
  assumes "length old = n" and "length new = n"
  shows "below_tol (rel_change old new) tol \<longleftrightarrow>
    (\<Sum>a<n. (old ! a)\<^sup>2) \<noteq> 0
    \<and> sqrt (\<Sum>a<n. (old ! a - new ! a)\<^sup>2) / sqrt (\<Sum>a<n. (old ! a)\<^sup>2) < tol"
  using assms linalg_norm_diff [OF assms]
  by (simp add: below_tol_def rel_change_def linalg_norm_sum)


lemma update_density_matrix_diag:
  assumes sh: "target_shape (e_k_MF s) = (n, n)"
  shows "length (snd (update_density_matrix lib s bt)) = n"
    and "a < n \<Longrightarrow> snd (update_density_matrix lib s bt) ! a =
       Re ((\<Sum>k<mesh_len (e_k_MF s). \<Sum>b<n.
              snd (eigh lib (data (e_k_MF s) ! k)) ! a ! b
              * complex_of_real
                  (map (\<lambda>x. fermi (x - mu s) bt) (fst (eigh lib (data (e_k_MF s) ! k))) ! b)
              * cnj (snd (eigh lib (data (e_k_MF s) ! k)) ! a ! b))
           / of_nat (mesh_len (e_k_MF s)))"
proof -
  let ?D = "data (e_k_MF s)"
  let ?Vs = "map snd (map (eigh lib) ?D)"
  let ?fs = "map (map (\<lambda>x. fermi x bt)) (map (\<lambda>p. map (\<lambda>x. x - mu s) (fst p)) (map (eigh lib) ?D))"
  let ?r = "mdiv (einsum_ac n ?Vs ?fs) (of_nat (mesh_len (e_k_MF s)))"
  have m: "is_mat n ?r"
    by (simp add: is_mat_mdiv is_mat_einsum_ac)
  have res: "snd (update_density_matrix lib s bt) = map Re (np_diag_mat ?r)"
    by (simp add: update_density_matrix_def Let_def sh comp_def)
  show "length (snd (update_density_matrix lib s bt)) = n"
    unfolding res using length_np_diag_mat [OF m] by simp
  assume a: "a < n"
  have "np_diag_mat ?r ! a = ?r ! a ! a"
    using a by (rule np_diag_mat_nth [OF m])
  also have "\<dots> = einsum_ac n ?Vs ?fs ! a ! a / of_nat (mesh_len (e_k_MF s))"
    by (rule mdiv_nth [OF is_mat_einsum_ac a a])
  also have "einsum_ac n ?Vs ?fs ! a ! a =
      (\<Sum>k<mesh_len (e_k_MF s). \<Sum>b<n.
              snd (eigh lib (?D ! k)) ! a ! b
              * complex_of_real (map (\<lambda>x. fermi (x - mu s) bt) (fst (eigh lib (?D ! k))) ! b)
              * cnj (snd (eigh lib (?D ! k)) ! a ! b))"
    using a by (simp add: einsum_ac_nth mesh_len_def comp_def)
  finally show "snd (update_density_matrix lib s bt) ! a =
       Re ((\<Sum>k<mesh_len (e_k_MF s). \<Sum>b<n.
              snd (eigh lib (?D ! k)) ! a ! b
              * complex_of_real (map (\<lambda>x. fermi (x - mu s) bt) (fst (eigh lib (?D ! k))) ! b)
              * cnj (snd (eigh lib (?D ! k)) ! a ! b))
           / of_nat (mesh_len (e_k_MF s)))"
    unfolding res using a length_np_diag_mat [OF m] by simp
qed

lemma density_matrix_step_entries:
  assumes U: "is_mat n (U_ab s)" and e: "wf_disp n (e_k s)"
    and sh: "target_shape (e_k_MF s) = (n, n)"
    and eg: "\<forall>E. is_mat n E \<longrightarrow> length (fst (eigh lib E)) = n"
    and N: "N_tot s = Some N" and r: "length r = n"
    and st: "step_rho lib s r = Inr new"
  shows "\<exists>Es m. length Es = mesh_len (e_k s) \<and> length new = n
     \<and> (\<forall>k<mesh_len (e_k s). is_mat n (Es ! k)
          \<and> (\<forall>a<n. \<forall>b<n. Es ! k ! a ! b = data (e_k s) ! k ! a ! b
                + (if a = b then (\<Sum>c<n. U_ab s ! a ! c * complex_of_real (r ! c)) else 0)))
     \<and> brentq lib (target_function (rnd lib) (map (eigvalsh lib) Es) (mesh_len (e_k s)) (beta s) N)
          (mu_min s) (mu_max s) = Inr m
     \<and> (\<forall>a<n. new ! a =
          Re ((\<Sum>k<mesh_len (e_k s). \<Sum>b<n.
                 snd (eigh lib (Es ! k)) ! a ! b
                 * complex_of_real (1 / (exp (beta s * (fst (eigh lib (Es ! k)) ! b - m)) + 1))
                 * cnj (snd (eigh lib (Es ! k)) ! a ! b))
              / of_nat (mesh_len (e_k s))))"
proof -
  let ?v = "np_dot_mv (U_ab s) r"
  let ?m = "np_diag_vec ?v"
  let ?Es = "map (\<lambda>E. madd E ?m) (data (e_k s))"
  let ?s0 = "update_mean_field s r"
  let ?s1 = "s\<lparr>M := Some ?m, e_k_MF := (e_k_MF s)\<lparr>data := ?Es\<rparr>\<rparr>"
  have lv: "length ?v = n"
    using U by (simp add: length_np_dot_mv is_mat_length)
  have mm: "is_mat n ?m"
    using is_mat_np_diag_vec [of ?v] lv by simp
  have f0: "M ?s0 = Some ?m" "e_k ?s0 = e_k s"
    by (simp_all add: update_mean_field_def)
  have tsh: "target_shape (e_k s) = (n, n)"
    using e by (simp add: wf_disp_def)
  have d1: "update_mean_field_dispersion ?s0 = Inr ?s1"
    by (simp add: update_mean_field_dispersion_def f0 tsh broadcastable_mat [OF mm]
        broadcast_to_mat [OF mm]) (simp add: update_mean_field_def)
  have len: "length ?Es = mesh_len (e_k s)"
    by (simp add: mesh_len_def)
  let ?f = "target_function (rnd lib) (map (eigvalsh lib) ?Es) (mesh_len (e_k s)) (beta s) N"
  have step: "density_matrix_step lib s r =
      (case brentq lib ?f (mu_min s) (mu_max s) of
         Inl err \<Rightarrow> Inl err
       | Inr m \<Rightarrow> Inr (update_density_matrix lib (?s1\<lparr>mu := m\<rparr>) (beta s)))"
    by (simp add: density_matrix_step_def d1 N update_chemical_potential_def Let_def
        mesh_len_def split: sum.splits)
  from st obtain m where bq: "brentq lib ?f (mu_min s) (mu_max s) = Inr m"
    and new: "new = snd (update_density_matrix lib (?s1\<lparr>mu := m\<rparr>) (beta s))"
    unfolding step_rho_def step by (cases "brentq lib ?f (mu_min s) (mu_max s)") auto
  have blocks: "\<forall>k<mesh_len (e_k s). is_mat n (?Es ! k)
          \<and> (\<forall>a<n. \<forall>b<n. ?Es ! k ! a ! b = data (e_k s) ! k ! a ! b
                + (if a = b then (\<Sum>c<n. U_ab s ! a ! c * complex_of_real (r ! c)) else 0))"
  proof (intro allI impI conjI)
    fix k assume k: "k < mesh_len (e_k s)"
    from e k have D: "is_mat n (data (e_k s) ! k)"
      by (simp add: wf_disp_def mesh_len_def list_all_length)
    from k show "is_mat n (?Es ! k)"
      by (simp add: mesh_len_def is_mat_madd [OF D mm])
    fix a b assume a: "a < n" and b: "b < n"
    from k a b lv U r show "?Es ! k ! a ! b = data (e_k s) ! k ! a ! b
                + (if a = b then (\<Sum>c<n. U_ab s ! a ! c * complex_of_real (r ! c)) else 0)"
      by (simp add: mesh_len_def madd_nth [OF D mm] np_diag_vec_nth np_dot_mv_nth is_mat_length)
  qed
  have sh2: "target_shape (e_k_MF (?s1\<lparr>mu := m\<rparr>)) = (n, n)"
    by (simp add: sh)
  have ml: "mesh_len (e_k_MF (?s1\<lparr>mu := m\<rparr>)) = mesh_len (e_k s)"
    by (simp add: mesh_len_def)
  have sel: "data (e_k_MF (?s1\<lparr>mu := m\<rparr>)) = ?Es" "mu (?s1\<lparr>mu := m\<rparr>) = m"
    by simp_all
  have "length new = n"
    unfolding new by (rule update_density_matrix_diag(1) [OF sh2])
  moreover have "\<forall>a<n. new ! a =
          Re ((\<Sum>k<mesh_len (e_k s). \<Sum>b<n.
                 snd (eigh lib (?Es ! k)) ! a ! b
                 * complex_of_real (1 / (exp (beta s * (fst (eigh lib (?Es ! k)) ! b - m)) + 1))
                 * cnj (snd (eigh lib (?Es ! k)) ! a ! b))
              / of_nat (mesh_len (e_k s)))"
  proof (intro allI impI)
    fix a assume a: "a < n"
    have inner: "(\<Sum>b<n. snd (eigh lib (?Es ! k)) ! a ! b
                 * complex_of_real (map (\<lambda>x. fermi (x - m) (beta s)) (fst (eigh lib (?Es ! k))) ! b)
                 * cnj (snd (eigh lib (?Es ! k)) ! a ! b))
        = (\<Sum>b<n. snd (eigh lib (?Es ! k)) ! a ! b
                 * complex_of_real (1 / (exp (beta s * (fst (eigh lib (?Es ! k)) ! b - m)) + 1))
                 * cnj (snd (eigh lib (?Es ! k)) ! a ! b))"
      if k: "k < mesh_len (e_k s)" for k
    proof (rule sum.cong [OF refl])
      fix b assume "b \<in> {..<n}"
      then have b: "b < n" by simp
      from blocks k have "is_mat n (?Es ! k)" by blast
      with eg have "length (fst (eigh lib (?Es ! k))) = n" by blast
      with b have "map (\<lambda>x. fermi (x - m) (beta s)) (fst (eigh lib (?Es ! k))) ! b
          = 1 / (exp (beta s * (fst (eigh lib (?Es ! k)) ! b - m)) + 1)"
        by (simp add: fermi_def)
      then show "snd (eigh lib (?Es ! k)) ! a ! b
                 * complex_of_real (map (\<lambda>x. fermi (x - m) (beta s)) (fst (eigh lib (?Es ! k))) ! b)
                 * cnj (snd (eigh lib (?Es ! k)) ! a ! b)
          = snd (eigh lib (?Es ! k)) ! a ! b
                 * complex_of_real (1 / (exp (beta s * (fst (eigh lib (?Es ! k)) ! b - m)) + 1))
                 * cnj (snd (eigh lib (?Es ! k)) ! a ! b)"
        by (simp only:)
    qed
    have "new ! a = Re ((\<Sum>k<mesh_len (e_k s). \<Sum>b<n.
              snd (eigh lib (?Es ! k)) ! a ! b
              * complex_of_real
                  (map (\<lambda>x. fermi (x - m) (beta s)) (fst (eigh lib (?Es ! k))) ! b)
              * cnj (snd (eigh lib (?Es ! k)) ! a ! b))
           / of_nat (mesh_len (e_k s)))"
      unfolding new
      using update_density_matrix_diag(2) [OF sh2 a, of lib "beta s", unfolded ml sel] .
    also have "(\<Sum>k<mesh_len (e_k s). \<Sum>b<n.
              snd (eigh lib (?Es ! k)) ! a ! b
              * complex_of_real
                  (map (\<lambda>x. fermi (x - m) (beta s)) (fst (eigh lib (?Es ! k))) ! b)
              * cnj (snd (eigh lib (?Es ! k)) ! a ! b))
        = (\<Sum>k<mesh_len (e_k s). \<Sum>b<n.
                 snd (eigh lib (?Es ! k)) ! a ! b
                 * complex_of_real (1 / (exp (beta s * (fst (eigh lib (?Es ! k)) ! b - m)) + 1))
                 * cnj (snd (eigh lib (?Es ! k)) ! a ! b))"
      by (rule sum.cong [OF refl]) (simp add: inner)
    finally show "new ! a =
          Re ((\<Sum>k<mesh_len (e_k s). \<Sum>b<n.
                 snd (eigh lib (?Es ! k)) ! a ! b
                 * complex_of_real (1 / (exp (beta s * (fst (eigh lib (?Es ! k)) ! b - m)) + 1))
                 * cnj (snd (eigh lib (?Es ! k)) ! a ! b))
              / of_nat (mesh_len (e_k s)))" .
  qed
  ultimately show ?thesis
    using len bq blocks by (intro exI [of _ ?Es] exI [of _ m]) blast
qed


lemma update_chemical_potential_frame:
  "update_chemical_potential lib s bt N mu0 = Inr s' \<Longrightarrow> \<exists>m. s' = s\<lparr>mu := m\<rparr>"
  by (auto simp: update_chemical_potential_def Let_def split: sum.splits)

lemma update_mean_field_dispersion_frame:
  "update_mean_field_dispersion s = Inr s' \<Longrightarrow> \<exists>D. s' = s\<lparr>e_k_MF := (e_k_MF s)\<lparr>data := D\<rparr>\<rparr>"
  by (auto simp: update_mean_field_dispersion_def split: option.splits if_splits)

lemma solve_setup_frame:
  assumes "solve_setup lib s bt N M0 mu0 = Inr (s0, r0)"
    and "target_shape (e_k_MF s) = (n, n)"
  shows "frame s0 = (U_ab s, e_k s, (n, n), Some N, bt, mu_min s, mu_max s)"
    and "length r0 = n"
proof -
  let ?s1 = "s\<lparr>beta := bt, N_tot := Some N\<rparr>"
  from assms(1) obtain s2 s3 s4 M0' where
    c1: "(case mu0 of None \<Rightarrow> update_chemical_potential lib ?s1 bt N (Some 0)
          | Some m \<Rightarrow> Inr (?s1\<lparr>mu := m\<rparr>)) = Inr s2"
    and c2: "update_mean_field_dispersion (s2\<lparr>M := Some M0'\<rparr>) = Inr s3"
    and c3: "update_chemical_potential lib s3 bt N None = Inr s4"
    and c4: "update_density_matrix lib s4 (beta s4) = (s0, r0)"
    unfolding solve_setup_def Let_def by (auto split: sum.splits)
  from c1 obtain m2 where s2: "s2 = ?s1\<lparr>mu := m2\<rparr>"
    by (cases mu0) (auto dest: update_chemical_potential_frame)
  from update_mean_field_dispersion_frame [OF c2] obtain D where
    s3: "s3 = s2\<lparr>M := Some M0', e_k_MF := (e_k_MF s2)\<lparr>data := D\<rparr>\<rparr>"
    by auto
  from update_chemical_potential_frame [OF c3] obtain m4 where s4: "s4 = s3\<lparr>mu := m4\<rparr>"
    by auto
  have sh4: "target_shape (e_k_MF s4) = (n, n)"
    by (simp add: s4 s3 s2 assms(2))
  from c4 have s0: "s0 = fst (update_density_matrix lib s4 (beta s4))"
    and r0: "r0 = snd (update_density_matrix lib s4 (beta s4))"
    by simp_all
  show "length r0 = n"
    unfolding r0 by (rule update_density_matrix_diag(1) [OF sh4])
  show "frame s0 = (U_ab s, e_k s, (n, n), Some N, bt, mu_min s, mu_max s)"
    by (simp add: s0 update_density_matrix_def Let_def frame_def s4 s3 s2 assms(2))
qed

section \<open>A run on two orbitals\<close>

lemma inverse_sym: "0 < e \<Longrightarrow> 1 / (e + 1) + 1 / (1 / e + 1) = 1" for e :: real
  by (simp add: field_simps add_pos_pos)

lemma fermi_sym: "fermi x bt + fermi (- x) bt = 1"
proof -
  have "exp (bt * - x) = 1 / exp (bt * x)"
    by (simp add: exp_minus inverse_eq_divide)
  then have "1 / (exp (bt * x) + 1) + 1 / (exp (bt * - x) + 1) = 1"
    by (simp only: inverse_sym [OF exp_gt_zero])
  then show ?thesis
    by (simp only: fermi_def)
qed

lemma fermi_pos: "0 < fermi x bt"
  by (simp add: fermi_def add_pos_pos)

lemma target2:
  "target_function (\<lambda>x. x) [[x, y]] (Suc 0) bt N = (\<lambda>m. fermi (x - m) bt + fermi (y - m) bt - N)"
  by (rule ext) (simp add: target_function_exact)

lemma brentq_model_two:
  assumes "\<bar>x\<bar> < 10"
  shows "brentq_model (\<lambda>m. fermi (x - m) 1 + fermi (- x - m) 1 - 1) (- 10) 10 = Inr 0"
proof -
  let ?f = "\<lambda>m. fermi (x - m) 1 + fermi (- x - m) 1 - 1"
  from assms have "fermi (x + 10) 1 < 1 / 2" "fermi (- x + 10) 1 < 1 / 2"
    by (intro fermi_lt_half; simp)+
  then have a: "?f (- 10) < 0" by simp
  from assms have "1 / 2 < fermi (x - 10) 1" "1 / 2 < fermi (- x - 10) 1"
    by (intro fermi_gt_half; simp)+
  then have b: "0 < ?f 10" by simp
  from a b have "?f (- 10) * ?f 10 < 0"
    by (rule mult_neg_pos)
  moreover have "?f ((- 10 + 10) / 2) = 0"
    using fermi_sym [of x 1] by simp
  ultimately show ?thesis
    using brentq_model_mid [of ?f "- 10" 10] by simp
qed

lemma chem2:
  assumes "map (eigvalsh lib_diag) (data (e_k_MF s)) = [[x, - x]]"
    and "mu_min s = - 10" and "mu_max s = 10" and "\<bar>x\<bar> < 10"
  shows "update_chemical_potential lib_diag s 1 1 mu0 = Inr (s\<lparr>mu := 0\<rparr>)"
proof -
  from assms(1) have "length (data (e_k_MF s)) = 1"
    by (metis length_map length_Cons list.size(3) One_nat_def)
  then have nk: "mesh_len (e_k_MF s) = Suc 0"
    by (simp add: mesh_len_def)
  have r: "rnd lib_diag = (\<lambda>x. x)" "brentq lib_diag = brentq_model"
    by (simp_all add: lib_diag_def)
  show ?thesis
    by (simp add: update_chemical_potential_def Let_def assms(1-3) nk r target2
        brentq_model_two [OF assms(4)])
qed


lemma eigvalsh_diag2: "eigvalsh lib_diag [[a, b], [c, d]] = [Re a, Re d]"
  by (simp add: lib_diag_def eigh_diag_def upt_rec numeral_2_eq_2)

lemma dens2:
  assumes "data (e_k_MF s) = [[[a, b], [c, d]]]" and "target_shape (e_k_MF s) = (2, 2)"
  shows "snd (update_density_matrix lib_diag s 1) = [fermi (Re a - mu s) 1, fermi (Re d - mu s) 1]"
  by (simp add: update_density_matrix_def Let_def assms lib_diag_def eigh_diag_def
      einsum_ac_def mdiv_def np_diag_mat_def shape_def np_eye_def mesh_len_def upt_rec
      numeral_2_eq_2 lessThan_Suc)

lemma mf2:
  "np_diag_vec (np_dot_mv [[1, - 1], [- 1, 1]] [p, q])
     = [[complex_of_real (p - q), 0], [0, complex_of_real (q - p)]]"
  by (simp add: np_diag_vec_def np_dot_mv_def upt_rec numeral_2_eq_2 lessThan_Suc)

text \<open>One composite step of the solver on \<open>solver3\<close>: any state with its frame.\<close>

lemma step3:
  assumes fr: "frame s = ([[1, - 1], [- 1, 1]], disp2, (2, 2), Some 1, 1, - 10, 10)"
    and p: "0 \<le> p" "p \<le> 1" and q: "0 \<le> q" "q \<le> 1"
  shows "step_rho lib_diag s [p, q] = Inr [fermi (p - q) 1, fermi (q - p) 1]"
proof -
  from fr have f: "U_ab s = [[1, - 1], [- 1, 1]]" "e_k s = disp2"
    "target_shape (e_k_MF s) = (2, 2)" "N_tot s = Some 1" "beta s = 1"
    "mu_min s = - 10" "mu_max s = 10"
    by (simp_all add: frame_def)
  let ?m = "[[complex_of_real (p - q), 0], [0, complex_of_real (q - p)]]"
  let ?s1 = "s\<lparr>M := Some ?m, e_k_MF := (e_k_MF s)\<lparr>data := [?m]\<rparr>\<rparr>"
  have d1: "update_mean_field_dispersion (update_mean_field s [p, q]) = Inr ?s1"
    by (simp add: update_mean_field_dispersion_def update_mean_field_def f mf2 disp2_def
        broadcastable_def broadcast_to_def is_array_def shape_def madd_def)
  have x: "\<bar>p - q\<bar> < 10"
    using p q by simp
  have c: "update_chemical_potential lib_diag ?s1 1 1 mu0 = Inr (?s1\<lparr>mu := 0\<rparr>)" for mu0
    by (rule chem2 [where x = "p - q"]) (simp_all add: eigvalsh_diag2 f x)
  have "snd (update_density_matrix lib_diag (?s1\<lparr>mu := 0\<rparr>) 1)
      = [fermi (p - q) 1, fermi (q - p) 1]"
    using dens2 [of "?s1\<lparr>mu := 0\<rparr>" "complex_of_real (p - q)" 0 0 "complex_of_real (q - p)"]
    by (simp add: f)
  then show ?thesis
    by (simp add: step_rho_def density_matrix_step_def d1 f c del: of_real_diff)
qed


lemma fermi_one_bounds: "0 < fermi 1 1" "fermi 1 1 \<le> 1 / 3" "fermi (- 1) 1 = 1 - fermi 1 1"
proof -
  show "0 < fermi 1 1" by (rule fermi_pos)
  have "(2 :: real) \<le> exp 1"
    using exp_ge_add_one_self [of "1 :: real"] by simp
  then have "(3 :: real) \<le> exp 1 + 1" by simp
  then have "1 / (exp 1 + 1) \<le> (1 :: real) / 3"
    by (simp add: field_simps)
  then show "fermi 1 1 \<le> 1 / 3"
    by (simp add: fermi_def)
  show "fermi (- 1) 1 = 1 - fermi 1 1"
    using fermi_sym [of 1 1] by simp
qed

lemma fermi_unit: "0 \<le> fermi x bt" "fermi x bt \<le> 1"
  using fermi_pos [of x bt] fermi_less_one [of x bt] by simp_all

text \<open>The setup from \<open>M_split\<close>, and from no initial mean field.\<close>

lemma setup3:
  "\<exists>s0. solve_setup lib_diag (solver3\<lparr>mixing := Some w, nitermax := Some k\<rparr>) 1 1
           (Some M_split) None = Inr (s0, [fermi 1 1, fermi (- 1) 1])"
proof -
  let ?s = "solver3\<lparr>mixing := Some w, nitermax := Some k\<rparr>"
  let ?s1 = "?s\<lparr>beta := 1, N_tot := Some 1\<rparr>"
  have c1: "update_chemical_potential lib_diag ?s1 1 1 (Some 0) = Inr (?s1\<lparr>mu := 0\<rparr>)"
    by (rule chem2 [where x = 0]) (simp_all add: solver3_def disp2_def eigvalsh_diag2)
  let ?s2 = "?s1\<lparr>mu := 0, M := Some M_split\<rparr>"
  let ?s3 = "?s2\<lparr>e_k_MF := (e_k_MF ?s2)\<lparr>data := [M_split]\<rparr>\<rparr>"
  have d: "update_mean_field_dispersion ?s2 = Inr ?s3"
    by (simp add: update_mean_field_dispersion_def solver3_def disp2_def M_split_def
        broadcastable_def broadcast_to_def is_array_def shape_def madd_def)
  have c2: "update_chemical_potential lib_diag ?s3 1 1 None = Inr (?s3\<lparr>mu := 0\<rparr>)"
    by (rule chem2 [where x = 1]) (simp_all add: solver3_def disp2_def M_split_def eigvalsh_diag2)
  have r: "snd (update_density_matrix lib_diag (?s3\<lparr>mu := 0\<rparr>) 1) = [fermi 1 1, fermi (- 1) 1]"
    using dens2 [of "?s3\<lparr>mu := 0\<rparr>" 1 0 0 "- 1"]
    by (simp add: solver3_def disp2_def M_split_def)
  have "solve_setup lib_diag ?s 1 1 (Some M_split) None
      = Inr (update_density_matrix lib_diag (?s3\<lparr>mu := 0\<rparr>) 1)"
    using c1 d c2 by (simp add: solve_setup_def Let_def)
  with r show ?thesis
    by (metis prod.collapse)
qed

lemma setup3_none:
  "\<exists>s0. solve_setup lib_diag (solver3\<lparr>mixing := Some w, nitermax := Some k\<rparr>) 1 1
           None None = Inr (s0, [1 / 2, 1 / 2])"
proof -
  let ?s = "solver3\<lparr>mixing := Some w, nitermax := Some k\<rparr>"
  let ?s1 = "?s\<lparr>beta := 1, N_tot := Some 1\<rparr>"
  have c1: "update_chemical_potential lib_diag ?s1 1 1 (Some 0) = Inr (?s1\<lparr>mu := 0\<rparr>)"
    by (rule chem2 [where x = 0]) (simp_all add: solver3_def disp2_def eigvalsh_diag2)
  let ?Z = "[[0, 0], [0, 0 :: complex]]"
  let ?s2 = "?s1\<lparr>mu := 0, M := Some ?Z\<rparr>"
  let ?s3 = "?s2\<lparr>e_k_MF := (e_k_MF ?s2)\<lparr>data := [?Z]\<rparr>\<rparr>"
  have z: "np_zeros (target_shape (e_k (?s1\<lparr>mu := 0\<rparr>))) = ?Z"
    by (simp add: solver3_def disp2_def np_zeros_def numeral_2_eq_2)
  have d: "update_mean_field_dispersion ?s2 = Inr ?s3"
    by (simp add: update_mean_field_dispersion_def solver3_def disp2_def
        broadcastable_def broadcast_to_def is_array_def shape_def madd_def)
  have c2: "update_chemical_potential lib_diag ?s3 1 1 None = Inr (?s3\<lparr>mu := 0\<rparr>)"
    by (rule chem2 [where x = 0]) (simp_all add: solver3_def disp2_def eigvalsh_diag2)
  have r: "snd (update_density_matrix lib_diag (?s3\<lparr>mu := 0\<rparr>) 1) = [1 / 2, 1 / 2]"
    using dens2 [of "?s3\<lparr>mu := 0\<rparr>" 0 0 0 0]
    by (simp add: solver3_def disp2_def fermi_zero)
  have "solve_setup lib_diag ?s 1 1 None None
      = Inr (update_density_matrix lib_diag (?s3\<lparr>mu := 0\<rparr>) 1)"
    using c1 d c2 z by (simp add: solve_setup_def Let_def)
  with r show ?thesis
    by (metis prod.collapse)
qed


lemma last_iteration:
  "density_matrix_step lib s r = Inr (s', new) \<Longrightarrow>
     solve_loop lib w tol (Suc 0) s r vec = Inr (vec @ [r], s')"
  by simp

lemma step_rhoD: "step_rho lib s r = Inr new \<Longrightarrow> \<exists>s'. density_matrix_step lib s r = Inr (s', new)"
  by (auto simp: step_rho_def split: sum.splits)

lemma far_apart:
  assumes d: "1 / 6 \<le> \<bar>p - n0\<bar>" and p: "0 < p" "p \<le> 1" and q: "0 \<le> q" "q \<le> 1"
  shows "\<not> below_tol (rel_change [p, q] [n0, n1]) (1 / 10 ^ 9)"
proof -
  let ?A = "(p - n0)\<^sup>2 + (q - n1)\<^sup>2"
  let ?B = "p\<^sup>2 + q\<^sup>2"
  have "(1 / 6)\<^sup>2 \<le> (p - n0)\<^sup>2"
    using d by (metis abs_le_square_iff abs_of_nonneg abs_ge_zero order_trans zero_le_divide_1_iff
        zero_le_numeral abs_abs)
  then have "(1 / 6)\<^sup>2 \<le> ?A"
    by (simp add: add_increasing2)
  then have "sqrt ((1 / 6)\<^sup>2) \<le> sqrt ?A"
    by (rule real_sqrt_le_mono)
  then have A: "1 / 6 \<le> sqrt ?A"
    by simp
  have "p\<^sup>2 \<le> 1" "q\<^sup>2 \<le> 1"
    using p q by (simp_all add: power_le_one)
  then have "?B \<le> 2\<^sup>2"
    by simp
  then have "sqrt ?B \<le> sqrt (2\<^sup>2)"
    by (rule real_sqrt_le_mono)
  then have B: "sqrt ?B \<le> 2"
    by simp
  have "0 < p\<^sup>2" using p by simp
  then have "0 < ?B"
    by (simp add: add_pos_nonneg)
  then have B0: "0 < sqrt ?B"
    by simp
  have "(1 / 6) / 2 \<le> sqrt ?A / sqrt ?B"
    by (rule frac_le [OF _ A B0 B]) simp
  then have "\<not> sqrt ?A / sqrt ?B < 1 / 10 ^ 9"
    by simp
  then show ?thesis
    by (simp add: below_tol_def rel_change_def linalg_norm_def)
qed

lemma at_fixed_point: "below_tol (rel_change [1 / 2, 1 / 2] [1 / 2, 1 / 2]) (1 / 10 ^ 9)"
  by (simp add: below_tol_def rel_change_def linalg_norm_def)

lemma loop3:
  assumes fr: "frame s = ([[1, - 1], [- 1, 1]], disp2, (2, 2), Some 1, 1, - 10, 10)"
  shows "\<exists>s'. solve_loop lib_diag (1 / 2) (1 / 10 ^ 9) (Suc (Suc 0)) s
                 [fermi 1 1, fermi (- 1) 1] [] = Inr (rho_split, s')"
proof -
  let ?p = "fermi 1 1" and ?q = "fermi (- 1) 1"
  let ?n0 = "fermi (?p - ?q) 1" and ?n1 = "fermi (?q - ?p) 1"
  from step_rhoD [OF step3 [OF fr fermi_unit fermi_unit]] obtain s1 where
    st1: "density_matrix_step lib_diag s [?p, ?q] = Inr (s1, [?n0, ?n1])"
    by blast
  have "?p - ?q < 0"
    using fermi_one_bounds by simp
  then have "1 / 2 < ?n0"
    by (intro fermi_gt_half) simp_all
  then have "1 / 6 \<le> \<bar>?p - ?n0\<bar>"
    using fermi_one_bounds(2) by simp
  from far_apart [OF this fermi_one_bounds(1) fermi_unit(2) fermi_unit]
  have nb: "\<not> below_tol (rel_change [?p, ?q] [?n0, ?n1]) (1 / 10 ^ 9)" .
  have mx: "mix (1 / 2) [?p, ?q] [?n0, ?n1] = rho_split ! 1"
    by (simp add: mix_def rho_split_def field_simps)
  have fr1: "frame s1 = ([[1, - 1], [- 1, 1]], disp2, (2, 2), Some 1, 1, - 10, 10)"
    using frame_step [OF st1] fr by simp
  have b: "0 \<le> (?p + ?n0) / 2" "(?p + ?n0) / 2 \<le> 1" "0 \<le> (?q + ?n1) / 2" "(?q + ?n1) / 2 \<le> 1"
    using fermi_unit [of 1 1] fermi_unit [of "- 1" 1] fermi_unit [of "?p - ?q" 1]
      fermi_unit [of "?q - ?p" 1] by simp_all
  from step_rhoD [OF step3 [OF fr1 b]] obtain s2 new where
    st2: "density_matrix_step lib_diag s1 (rho_split ! 1) = Inr (s2, new)"
    by (auto simp: rho_split_def)
  have "solve_loop lib_diag (1 / 2) (1 / 10 ^ 9) (Suc (Suc 0)) s [?p, ?q] []
      = Inr ([[?p, ?q], rho_split ! 1], s2)"
    using st1 nb last_iteration [OF st2, of "1 / 2" "1 / 10 ^ 9" "[[?p, ?q]]"]
    by (simp add: mx)
  then show ?thesis
    by (intro exI [of _ s2]) (simp add: rho_split_def)
qed

lemma loop3_stop:
  assumes fr: "frame s = ([[1, - 1], [- 1, 1]], disp2, (2, 2), Some 1, 1, - 10, 10)"
  shows "\<exists>s'. solve_loop lib_diag (1 / 2) (1 / 10 ^ 9) (Suc (Suc 0)) s [1 / 2, 1 / 2] []
           = Inr ([[1 / 2, 1 / 2]], s')"
proof -
  have "step_rho lib_diag s [1 / 2, 1 / 2] = Inr [1 / 2, 1 / 2]"
    using step3 [OF fr, of "1 / 2" "1 / 2"] by (simp add: fermi_zero)
  from step_rhoD [OF this] obtain s1 where
    "density_matrix_step lib_diag s [1 / 2, 1 / 2] = Inr (s1, [1 / 2, 1 / 2])"
    by blast
  then show ?thesis
    using at_fixed_point by (intro exI [of _ s1]) simp
qed

lemma frame3:
  "solve_setup lib_diag (solver3\<lparr>mixing := Some w, nitermax := Some k\<rparr>) 1 1 M0 None = Inr (s0, r0)
     \<Longrightarrow> frame s0 = ([[1, - 1], [- 1, 1]], disp2, (2, 2), Some 1, 1, - 10, 10)"
  using solve_setup_frame(1) [of lib_diag "solver3\<lparr>mixing := Some w, nitermax := Some k\<rparr>" 1 1 M0
      None s0 r0 2]
  by (simp add: solver3_def disp2_def)

lemma iter3:
  "\<exists>s'. solve_iter lib_diag solver3 1 1 (Some M_split) None (Some 2) None None
          = Inr (rho_split, s')"
proof -
  obtain s0 where st: "solve_setup lib_diag (solver3\<lparr>mixing := Some (1 / 2), nitermax := Some 2\<rparr>)
      1 1 (Some M_split) None = Inr (s0, [fermi 1 1, fermi (- 1) 1])"
    using setup3 by blast
  from loop3 [OF frame3 [OF st]] obtain s' where
    "solve_loop lib_diag (1 / 2) (1 / 10 ^ 9) (Suc (Suc 0)) s0 [fermi 1 1, fermi (- 1) 1] []
       = Inr (rho_split, s')"
    by blast
  then show ?thesis
    using st by (intro exI [of _ s']) (simp add: solve_iter_def default_to_def Let_def numeral_2_eq_2)
qed

lemma iter3_stop:
  "\<exists>s'. solve_iter lib_diag solver3 1 1 None None (Some 2) None None
          = Inr ([[1 / 2, 1 / 2]], s')"
proof -
  obtain s0 where st: "solve_setup lib_diag (solver3\<lparr>mixing := Some (1 / 2), nitermax := Some 2\<rparr>)
      1 1 None None = Inr (s0, [1 / 2, 1 / 2])"
    using setup3_none by blast
  from loop3_stop [OF frame3 [OF st]] obtain s' where
    "solve_loop lib_diag (1 / 2) (1 / 10 ^ 9) (Suc (Suc 0)) s0 [1 / 2, 1 / 2] []
       = Inr ([[1 / 2, 1 / 2]], s')"
    by blast
  then show ?thesis
    using st by (intro exI [of _ s']) (simp add: solve_iter_def default_to_def Let_def numeral_2_eq_2)
qed

section \<open>Claims\<close>

text \<open>
  C5. For every occupation vector \<open>rho_diag\<close> (one entry per orbital) the mean-field update
  sets \<open>M\<close> to the diagonal matrix whose entry \<open>(a, a)\<close> is \<open>\<Sum>c. U_ab[a, c] * rho_diag[c]\<close>,
  all other entries being zero, and the dispersion update then sets
  \<open>e_k_MF[k] = e_k[k] + M\<close> entry by entry at every k-point of the mesh.
\<close>

theorem mean_field_update_diag:
  assumes "is_mat n (U_ab s)" and "length rho_diag = n" and "wf_disp n (e_k s)"
  shows "\<exists>m s'. M (update_mean_field s rho_diag) = Some m
           \<and> update_mean_field_dispersion (update_mean_field s rho_diag) = Inr s'
           \<and> M s' = Some m
           \<and> is_mat n m
           \<and> (\<forall>a<n. \<forall>b<n. m ! a ! b =
                 (if a = b then (\<Sum>c<n. U_ab s ! a ! c * complex_of_real (rho_diag ! c)) else 0))
           \<and> mesh_len (e_k_MF s') = mesh_len (e_k s)
           \<and> (\<forall>k<mesh_len (e_k s). \<forall>a<n. \<forall>b<n.
                 data (e_k_MF s') ! k ! a ! b = data (e_k s) ! k ! a ! b + m ! a ! b)"
proof -
  let ?v = "np_dot_mv (U_ab s) rho_diag"
  let ?m = "np_diag_vec ?v"
  let ?s1 = "update_mean_field s rho_diag"
  let ?s' = "?s1\<lparr>e_k_MF := (e_k_MF ?s1)\<lparr>data := map (\<lambda>E. madd E ?m) (data (e_k ?s1))\<rparr>\<rparr>"
  have lv: "length ?v = n"
    using assms(1) by (simp add: length_np_dot_mv is_mat_length)
  have M1: "M ?s1 = Some ?m"
    by (simp add: update_mean_field_def)
  have ek1: "e_k ?s1 = e_k s"
    by (simp add: update_mean_field_def)
  have mm: "is_mat n ?m"
    using is_mat_np_diag_vec [of ?v] lv by simp
  have sh: "target_shape (e_k ?s1) = (n, n)"
    using assms(3) by (simp add: ek1 wf_disp_def)
  have step: "update_mean_field_dispersion ?s1 = Inr ?s'"
    by (simp add: update_mean_field_dispersion_def M1 sh broadcastable_mat [OF mm]
        broadcast_to_mat [OF mm])
  have entries: "\<forall>a<n. \<forall>b<n. ?m ! a ! b =
      (if a = b then (\<Sum>c<n. U_ab s ! a ! c * complex_of_real (rho_diag ! c)) else 0)"
    using lv assms(1,2) by (simp add: np_diag_vec_nth np_dot_mv_nth is_mat_length)
  have len: "mesh_len (e_k_MF ?s') = mesh_len (e_k s)"
    by (simp add: mesh_len_def ek1)
  have disp: "\<forall>k<mesh_len (e_k s). \<forall>a<n. \<forall>b<n.
      data (e_k_MF ?s') ! k ! a ! b = data (e_k s) ! k ! a ! b + ?m ! a ! b"
  proof (intro allI impI)
    fix k a b assume k: "k < mesh_len (e_k s)" and a: "a < n" and b: "b < n"
    from assms(3) k have "is_mat n (data (e_k s) ! k)"
      by (simp add: wf_disp_def mesh_len_def list_all_length)
    with mm a b k show "data (e_k_MF ?s') ! k ! a ! b = data (e_k s) ! k ! a ! b + ?m ! a ! b"
      by (simp add: ek1 mesh_len_def madd_nth)
  qed
  have "M ?s' = Some ?m"
    using M1 by simp
  with M1 step mm entries len disp show ?thesis
    by blast
qed

theorem mean_field_update_diag_witness:
  "is_mat 1 (U_ab (solver1 2)) \<and> length [1 / 2 :: real] = 1 \<and> wf_disp 1 (e_k (solver1 2))
   \<and> (\<exists>m s'. M (update_mean_field (solver1 2) [1 / 2]) = Some m
           \<and> update_mean_field_dispersion (update_mean_field (solver1 2) [1 / 2]) = Inr s'
           \<and> M s' = Some m
           \<and> is_mat 1 m
           \<and> (\<forall>a<1. \<forall>b<1. m ! a ! b =
                 (if a = b then (\<Sum>c<1. U_ab (solver1 2) ! a ! c * complex_of_real ([1 / 2] ! c))
                  else 0))
           \<and> mesh_len (e_k_MF s') = mesh_len (e_k (solver1 2))
           \<and> (\<forall>k<mesh_len (e_k (solver1 2)). \<forall>a<1. \<forall>b<1.
                 data (e_k_MF s') ! k ! a ! b = data (e_k (solver1 2)) ! k ! a ! b + m ! a ! b))"
proof -
  have h: "is_mat 1 (U_ab (solver1 2))" "length [1 / 2 :: real] = 1" "wf_disp 1 (e_k (solver1 2))"
    by (simp_all add: is_mat_def wf_disp_def solver1_def disp1_def)
  from h mean_field_update_diag [OF h] show ?thesis
    by simp
qed

text \<open>
  C1. For a solver on \<open>n\<close> orbitals and a mixing weight \<open>0 \<le> mixing \<le> 1\<close>, a run of \<^verbatim>\<open>solve_iter\<close>
  that returns has recorded at most \<open>nitermax\<close> iterates, each of length \<open>n\<close>, one per
  composite step performed. The step on a recorded iterate \<open>rho_old\<close> adds the diagonal
  matrix \<open>diag(U_ab \<cdot> rho_old)\<close> to every block of \<open>e_k\<close>, has the root-finder resolve \<open>mu\<close> for
  the eigenvalues of these blocks on \<open>[mu_min, mu_max]\<close>, and returns as \<open>rho_new\<close> the real
  diagonal of the k-averaged density matrix at that \<open>mu\<close>. An iterate that is followed by
  another did not pass the test \<open>||rho_old - rho_new|| / ||rho_old|| < tol\<close> (\<open>tol\<close> defaults to
  \<open>1e-9\<close>; a zero norm of \<open>rho_old\<close> fails it), and its successor is
  \<open>(1 - mixing) * rho_old + mixing * rho_new\<close>, entry by entry; and when fewer than \<open>nitermax\<close>
  iterates are recorded, the last step passed the test.
\<close>

theorem solve_iter_linear_mixing:
  assumes "w = default_to (1 / 2) mixing_arg" and "tol = default_to (1 / 10 ^ 9) tol_arg"
    and "nmax = default_to 100 nitermax_arg"
    and "0 \<le> w" and "w \<le> 1"
    and "is_mat n (U_ab s)" and "wf_disp n (e_k s)" and "target_shape (e_k_MF s) = (n, n)"
    and "\<forall>E. is_mat n E \<longrightarrow> length (fst (eigh lib E)) = n"
    and "nk = mesh_len (e_k s)"
    and "solve_iter lib s bt N M0 mu0 nitermax_arg mixing_arg tol_arg = Inr (rho_vec, s')"
  shows "length rho_vec \<le> nat nmax
     \<and> (length rho_vec < nat nmax \<longrightarrow> rho_vec \<noteq> [])
     \<and> (\<forall>i<length rho_vec. length (rho_vec ! i) = n
          \<and> (\<exists>Es m rho_new. length Es = nk \<and> length rho_new = n
               \<and> (\<forall>k<nk. is_mat n (Es ! k)
                    \<and> (\<forall>a<n. \<forall>b<n. Es ! k ! a ! b = data (e_k s) ! k ! a ! b
                          + (if a = b
                             then (\<Sum>c<n. U_ab s ! a ! c * complex_of_real (rho_vec ! i ! c))
                             else 0)))
               \<and> brentq lib (target_function (rnd lib) (map (eigvalsh lib) Es) nk bt N)
                    (mu_min s) (mu_max s) = Inr m
               \<and> (\<forall>a<n. rho_new ! a =
                    Re ((\<Sum>k<nk. \<Sum>b<n.
                           snd (eigh lib (Es ! k)) ! a ! b
                           * complex_of_real
                               (1 / (exp (bt * (fst (eigh lib (Es ! k)) ! b - m)) + 1))
                           * cnj (snd (eigh lib (Es ! k)) ! a ! b))
                        / of_nat nk))
               \<and> (Suc i < length rho_vec \<longrightarrow>
                    \<not> ((\<Sum>a<n. (rho_vec ! i ! a)\<^sup>2) \<noteq> 0
                       \<and> sqrt (\<Sum>a<n. (rho_vec ! i ! a - rho_new ! a)\<^sup>2)
                           / sqrt (\<Sum>a<n. (rho_vec ! i ! a)\<^sup>2) < tol)
                    \<and> (\<forall>a<n. rho_vec ! Suc i ! a
                                 = (1 - w) * rho_vec ! i ! a + w * rho_new ! a))
               \<and> (Suc i = length rho_vec \<and> length rho_vec < nat nmax \<longrightarrow>
                    (\<Sum>a<n. (rho_vec ! i ! a)\<^sup>2) \<noteq> 0
                    \<and> sqrt (\<Sum>a<n. (rho_vec ! i ! a - rho_new ! a)\<^sup>2)
                        / sqrt (\<Sum>a<n. (rho_vec ! i ! a)\<^sup>2) < tol)))"
proof -
  from assms(1-5,11) obtain s0 rho0 where
    stp: "solve_setup lib (s\<lparr>mixing := Some w, nitermax := Some nmax\<rparr>) bt N M0 mu0
              = Inr (s0, rho0)"
    and loop: "solve_loop lib w tol (nat nmax) s0 rho0 [] = Inr (rho_vec, s')"
    by (auto simp: solve_iter_def Let_def split: sum.splits if_splits)
  have sh: "target_shape (e_k_MF (s\<lparr>mixing := Some w, nitermax := Some nmax\<rparr>)) = (n, n)"
    using assms(8) by simp
  from solve_setup_frame [OF stp sh] have
    fr: "U_ab s0 = U_ab s" "e_k s0 = e_k s" "target_shape (e_k_MF s0) = (n, n)"
      "N_tot s0 = Some N" "beta s0 = bt" "mu_min s0 = mu_min s" "mu_max s0 = mu_max s"
    and l0: "length rho0 = n"
    by (simp_all add: frame_def)
  from solve_loop_traj [OF loop] have
    len: "length rho_vec \<le> nat nmax"
    and hd: "0 < nat nmax \<longrightarrow> rho_vec \<noteq> [] \<and> rho_vec ! 0 = rho0"
    and all: "\<forall>i<length rho_vec. \<exists>new. step_rho lib s0 (rho_vec ! i) = Inr new
              \<and> (Suc i < length rho_vec \<longrightarrow>
                   \<not> below_tol (rel_change (rho_vec ! i) new) tol
                   \<and> rho_vec ! Suc i = mix w (rho_vec ! i) new)
              \<and> (Suc i = length rho_vec \<and> length rho_vec < nat nmax \<longrightarrow>
                   below_tol (rel_change (rho_vec ! i) new) tol)"
    by auto
  note entries = density_matrix_step_entries [of n s0 lib N, unfolded fr,
      OF assms(6,7) refl assms(9) refl]
  have lens: "i < length rho_vec \<Longrightarrow> length (rho_vec ! i) = n" for i
  proof (induction i)
    case 0
    with len hd l0 show ?case by auto
  next
    case (Suc i)
    then have i: "i < length rho_vec" and li: "length (rho_vec ! i) = n"
      by simp_all
    from all i Suc.prems obtain new where st: "step_rho lib s0 (rho_vec ! i) = Inr new"
      and nx: "rho_vec ! Suc i = mix w (rho_vec ! i) new"
      by blast
    from entries [OF li st] have "length new = n"
      by blast
    with li show ?case
      by (simp add: nx length_mix)
  qed
  have "\<forall>i<length rho_vec. length (rho_vec ! i) = n
          \<and> (\<exists>Es m rho_new. length Es = nk \<and> length rho_new = n
               \<and> (\<forall>k<nk. is_mat n (Es ! k)
                    \<and> (\<forall>a<n. \<forall>b<n. Es ! k ! a ! b = data (e_k s) ! k ! a ! b
                          + (if a = b
                             then (\<Sum>c<n. U_ab s ! a ! c * complex_of_real (rho_vec ! i ! c))
                             else 0)))
               \<and> brentq lib (target_function (rnd lib) (map (eigvalsh lib) Es) nk bt N)
                    (mu_min s) (mu_max s) = Inr m
               \<and> (\<forall>a<n. rho_new ! a =
                    Re ((\<Sum>k<nk. \<Sum>b<n.
                           snd (eigh lib (Es ! k)) ! a ! b
                           * complex_of_real
                               (1 / (exp (bt * (fst (eigh lib (Es ! k)) ! b - m)) + 1))
                           * cnj (snd (eigh lib (Es ! k)) ! a ! b))
                        / of_nat nk))
               \<and> (Suc i < length rho_vec \<longrightarrow>
                    \<not> ((\<Sum>a<n. (rho_vec ! i ! a)\<^sup>2) \<noteq> 0
                       \<and> sqrt (\<Sum>a<n. (rho_vec ! i ! a - rho_new ! a)\<^sup>2)
                           / sqrt (\<Sum>a<n. (rho_vec ! i ! a)\<^sup>2) < tol)
                    \<and> (\<forall>a<n. rho_vec ! Suc i ! a
                                 = (1 - w) * rho_vec ! i ! a + w * rho_new ! a))
               \<and> (Suc i = length rho_vec \<and> length rho_vec < nat nmax \<longrightarrow>
                    (\<Sum>a<n. (rho_vec ! i ! a)\<^sup>2) \<noteq> 0
                    \<and> sqrt (\<Sum>a<n. (rho_vec ! i ! a - rho_new ! a)\<^sup>2)
                        / sqrt (\<Sum>a<n. (rho_vec ! i ! a)\<^sup>2) < tol))"
  proof (intro allI impI conjI)
    fix i assume i: "i < length rho_vec"
    show li: "length (rho_vec ! i) = n"
      using lens [OF i] .
    from all i obtain new where st: "step_rho lib s0 (rho_vec ! i) = Inr new"
      and cont: "Suc i < length rho_vec \<longrightarrow>
                   \<not> below_tol (rel_change (rho_vec ! i) new) tol
                   \<and> rho_vec ! Suc i = mix w (rho_vec ! i) new"
      and stop: "Suc i = length rho_vec \<and> length rho_vec < nat nmax \<longrightarrow>
                   below_tol (rel_change (rho_vec ! i) new) tol"
      by blast
    from entries [OF li st] obtain Es m where
      e1: "length Es = mesh_len (e_k s)" and ln: "length new = n"
      and e2: "\<forall>k<mesh_len (e_k s). is_mat n (Es ! k)
          \<and> (\<forall>a<n. \<forall>b<n. Es ! k ! a ! b = data (e_k s) ! k ! a ! b
                + (if a = b then (\<Sum>c<n. U_ab s ! a ! c * complex_of_real (rho_vec ! i ! c))
                   else 0))"
      and e3: "brentq lib (target_function (rnd lib) (map (eigvalsh lib) Es) (mesh_len (e_k s)) bt N)
          (mu_min s) (mu_max s) = Inr m"
      and e4: "\<forall>a<n. new ! a =
          Re ((\<Sum>k<mesh_len (e_k s). \<Sum>b<n.
                 snd (eigh lib (Es ! k)) ! a ! b
                 * complex_of_real (1 / (exp (bt * (fst (eigh lib (Es ! k)) ! b - m)) + 1))
                 * cnj (snd (eigh lib (Es ! k)) ! a ! b))
              / of_nat (mesh_len (e_k s)))"
      by blast
    note test = below_tol_rel_change [OF li ln, of tol]
    have cont': "Suc i < length rho_vec \<longrightarrow>
                    \<not> ((\<Sum>a<n. (rho_vec ! i ! a)\<^sup>2) \<noteq> 0
                       \<and> sqrt (\<Sum>a<n. (rho_vec ! i ! a - new ! a)\<^sup>2)
                           / sqrt (\<Sum>a<n. (rho_vec ! i ! a)\<^sup>2) < tol)
                    \<and> (\<forall>a<n. rho_vec ! Suc i ! a
                                 = (1 - w) * rho_vec ! i ! a + w * new ! a)"
      using cont unfolding test by (simp add: mix_nth [OF li ln])
    have stop': "Suc i = length rho_vec \<and> length rho_vec < nat nmax \<longrightarrow>
                    (\<Sum>a<n. (rho_vec ! i ! a)\<^sup>2) \<noteq> 0
                    \<and> sqrt (\<Sum>a<n. (rho_vec ! i ! a - new ! a)\<^sup>2)
                        / sqrt (\<Sum>a<n. (rho_vec ! i ! a)\<^sup>2) < tol"
      using stop unfolding test .
    have "length Es = nk \<and> length new = n
               \<and> (\<forall>k<nk. is_mat n (Es ! k)
                    \<and> (\<forall>a<n. \<forall>b<n. Es ! k ! a ! b = data (e_k s) ! k ! a ! b
                          + (if a = b
                             then (\<Sum>c<n. U_ab s ! a ! c * complex_of_real (rho_vec ! i ! c))
                             else 0)))
               \<and> brentq lib (target_function (rnd lib) (map (eigvalsh lib) Es) nk bt N)
                    (mu_min s) (mu_max s) = Inr m
               \<and> (\<forall>a<n. new ! a =
                    Re ((\<Sum>k<nk. \<Sum>b<n.
                           snd (eigh lib (Es ! k)) ! a ! b
                           * complex_of_real
                               (1 / (exp (bt * (fst (eigh lib (Es ! k)) ! b - m)) + 1))
                           * cnj (snd (eigh lib (Es ! k)) ! a ! b))
                        / of_nat nk))
               \<and> (Suc i < length rho_vec \<longrightarrow>
                    \<not> ((\<Sum>a<n. (rho_vec ! i ! a)\<^sup>2) \<noteq> 0
                       \<and> sqrt (\<Sum>a<n. (rho_vec ! i ! a - new ! a)\<^sup>2)
                           / sqrt (\<Sum>a<n. (rho_vec ! i ! a)\<^sup>2) < tol)
                    \<and> (\<forall>a<n. rho_vec ! Suc i ! a
                                 = (1 - w) * rho_vec ! i ! a + w * new ! a))
               \<and> (Suc i = length rho_vec \<and> length rho_vec < nat nmax \<longrightarrow>
                    (\<Sum>a<n. (rho_vec ! i ! a)\<^sup>2) \<noteq> 0
                    \<and> sqrt (\<Sum>a<n. (rho_vec ! i ! a - new ! a)\<^sup>2)
                        / sqrt (\<Sum>a<n. (rho_vec ! i ! a)\<^sup>2) < tol)"
      unfolding assms(10) using e1 ln e2 e3 e4 cont' stop'
      apply -
      apply (intro conjI)
            apply assumption+
      done
    then show "\<exists>Es m rho_new. length Es = nk \<and> length rho_new = n
               \<and> (\<forall>k<nk. is_mat n (Es ! k)
                    \<and> (\<forall>a<n. \<forall>b<n. Es ! k ! a ! b = data (e_k s) ! k ! a ! b
                          + (if a = b
                             then (\<Sum>c<n. U_ab s ! a ! c * complex_of_real (rho_vec ! i ! c))
                             else 0)))
               \<and> brentq lib (target_function (rnd lib) (map (eigvalsh lib) Es) nk bt N)
                    (mu_min s) (mu_max s) = Inr m
               \<and> (\<forall>a<n. rho_new ! a =
                    Re ((\<Sum>k<nk. \<Sum>b<n.
                           snd (eigh lib (Es ! k)) ! a ! b
                           * complex_of_real
                               (1 / (exp (bt * (fst (eigh lib (Es ! k)) ! b - m)) + 1))
                           * cnj (snd (eigh lib (Es ! k)) ! a ! b))
                        / of_nat nk))
               \<and> (Suc i < length rho_vec \<longrightarrow>
                    \<not> ((\<Sum>a<n. (rho_vec ! i ! a)\<^sup>2) \<noteq> 0
                       \<and> sqrt (\<Sum>a<n. (rho_vec ! i ! a - rho_new ! a)\<^sup>2)
                           / sqrt (\<Sum>a<n. (rho_vec ! i ! a)\<^sup>2) < tol)
                    \<and> (\<forall>a<n. rho_vec ! Suc i ! a
                                 = (1 - w) * rho_vec ! i ! a + w * rho_new ! a))
               \<and> (Suc i = length rho_vec \<and> length rho_vec < nat nmax \<longrightarrow>
                    (\<Sum>a<n. (rho_vec ! i ! a)\<^sup>2) \<noteq> 0
                    \<and> sqrt (\<Sum>a<n. (rho_vec ! i ! a - rho_new ! a)\<^sup>2)
                        / sqrt (\<Sum>a<n. (rho_vec ! i ! a)\<^sup>2) < tol)"
      by (intro exI)
  qed
  moreover have "length rho_vec < nat nmax \<longrightarrow> rho_vec \<noteq> []"
    using hd by auto
  ultimately show ?thesis
    using len
    apply -
    apply (intro conjI)
      apply assumption+
    done
qed


theorem solve_iter_linear_mixing_witness:
  "(\<exists>s' Es m rho_new.
       solve_iter lib_diag solver3 1 1 (Some M_split) None (Some 2) None None
         = Inr (rho_split, s')
       \<and> length rho_split \<le> nat 2 \<and> length Es = 1 \<and> length rho_new = 2
       \<and> brentq lib_diag (target_function (rnd lib_diag) (map (eigvalsh lib_diag) Es) 1 1 1)
            (mu_min solver3) (mu_max solver3) = Inr m
       \<and> \<not> ((\<Sum>a<2. (rho_split ! 0 ! a)\<^sup>2) \<noteq> 0
            \<and> sqrt (\<Sum>a<2. (rho_split ! 0 ! a - rho_new ! a)\<^sup>2)
                / sqrt (\<Sum>a<2. (rho_split ! 0 ! a)\<^sup>2) < 1 / 10 ^ 9)
       \<and> rho_split ! 1 ! 0 = (1 - 1 / 2) * rho_split ! 0 ! 0 + 1 / 2 * rho_new ! 0
       \<and> rho_split ! 1 ! 1 = (1 - 1 / 2) * rho_split ! 0 ! 1 + 1 / 2 * rho_new ! 1)
   \<and> (\<exists>s' Es m rho_new.
       solve_iter lib_diag solver3 1 1 None None (Some 2) None None = Inr ([[1 / 2, 1 / 2]], s')
       \<and> length [[1 / 2, 1 / 2 :: real]] < nat 2 \<and> length Es = 1 \<and> length rho_new = 2
       \<and> brentq lib_diag (target_function (rnd lib_diag) (map (eigvalsh lib_diag) Es) 1 1 1)
            (mu_min solver3) (mu_max solver3) = Inr m
       \<and> (\<Sum>a<2. ([[1 / 2, 1 / 2]] ! 0 ! a)\<^sup>2) \<noteq> (0 :: real)
       \<and> sqrt (\<Sum>a<2. ([[1 / 2, 1 / 2]] ! 0 ! a - rho_new ! a)\<^sup>2)
           / sqrt (\<Sum>a<2. ([[1 / 2, 1 / 2]] ! 0 ! a)\<^sup>2) < 1 / 10 ^ 9)"
proof
  have d: "(1 / 2 :: real) = default_to (1 / 2) None"
    "(1 / 10 ^ 9 :: real) = default_to (1 / 10 ^ 9) None" "(2 :: int) = default_to 100 (Some 2)"
    by (simp_all add: default_to_def)
  have w: "(0 :: real) \<le> 1 / 2" "(1 / 2 :: real) \<le> 1"
    by simp_all
  have h: "is_mat 2 (U_ab solver3)" "wf_disp 2 (e_k solver3)"
    "target_shape (e_k_MF solver3) = (2, 2)"
    "\<forall>E. is_mat 2 E \<longrightarrow> length (fst (eigh lib_diag E)) = 2"
    "(1 :: nat) = mesh_len (e_k solver3)"
    by (simp_all add: solver3_def disp2_def is_mat_def wf_disp_def lib_diag_def eigh_diag_def
        mesh_len_def)
  {
    from iter3 obtain s' where run: "solve_iter lib_diag solver3 1 1 (Some M_split) None (Some 2)
        None None = Inr (rho_split, s')"
      by blast
    note inst = solve_iter_linear_mixing [OF d w h run]
    have l: "length rho_split = 2"
      by (simp add: rho_split_def)
    then have i0: "0 < length rho_split" and i1: "Suc 0 < length rho_split"
      by simp_all
    from inst have len: "length rho_split \<le> nat 2"
      by (rule conjunct1)
    note all = inst [THEN conjunct2, THEN conjunct2]
    from all [rule_format, OF i0, THEN conjunct2] obtain Es m rho_new where
      e: "length Es = 1" "length rho_new = 2"
        "brentq lib_diag (target_function (rnd lib_diag) (map (eigvalsh lib_diag) Es) 1 1 1)
            (mu_min solver3) (mu_max solver3) = Inr m"
      and c: "Suc 0 < length rho_split \<longrightarrow>
                \<not> ((\<Sum>a<2. (rho_split ! 0 ! a)\<^sup>2) \<noteq> 0
                   \<and> sqrt (\<Sum>a<2. (rho_split ! 0 ! a - rho_new ! a)\<^sup>2)
                       / sqrt (\<Sum>a<2. (rho_split ! 0 ! a)\<^sup>2) < 1 / 10 ^ 9)
                \<and> (\<forall>a<2. rho_split ! Suc 0 ! a
                             = (1 - 1 / 2) * rho_split ! 0 ! a + 1 / 2 * rho_new ! a)"
      by (elim exE conjE) (rule that; assumption)
    from c i1 have t: "\<not> ((\<Sum>a<2. (rho_split ! 0 ! a)\<^sup>2) \<noteq> 0
                   \<and> sqrt (\<Sum>a<2. (rho_split ! 0 ! a - rho_new ! a)\<^sup>2)
                       / sqrt (\<Sum>a<2. (rho_split ! 0 ! a)\<^sup>2) < 1 / 10 ^ 9)"
      and mx: "\<forall>a<2. rho_split ! Suc 0 ! a
                             = (1 - 1 / 2) * rho_split ! 0 ! a + 1 / 2 * rho_new ! a"
      by blast+
    from mx have "rho_split ! 1 ! 0 = (1 - 1 / 2) * rho_split ! 0 ! 0 + 1 / 2 * rho_new ! 0"
      "rho_split ! 1 ! 1 = (1 - 1 / 2) * rho_split ! 0 ! 1 + 1 / 2 * rho_new ! 1"
      by simp_all
    with run len e t show "\<exists>s' Es m rho_new.
       solve_iter lib_diag solver3 1 1 (Some M_split) None (Some 2) None None
         = Inr (rho_split, s')
       \<and> length rho_split \<le> nat 2 \<and> length Es = 1 \<and> length rho_new = 2
       \<and> brentq lib_diag (target_function (rnd lib_diag) (map (eigvalsh lib_diag) Es) 1 1 1)
            (mu_min solver3) (mu_max solver3) = Inr m
       \<and> \<not> ((\<Sum>a<2. (rho_split ! 0 ! a)\<^sup>2) \<noteq> 0
            \<and> sqrt (\<Sum>a<2. (rho_split ! 0 ! a - rho_new ! a)\<^sup>2)
                / sqrt (\<Sum>a<2. (rho_split ! 0 ! a)\<^sup>2) < 1 / 10 ^ 9)
       \<and> rho_split ! 1 ! 0 = (1 - 1 / 2) * rho_split ! 0 ! 0 + 1 / 2 * rho_new ! 0
       \<and> rho_split ! 1 ! 1 = (1 - 1 / 2) * rho_split ! 0 ! 1 + 1 / 2 * rho_new ! 1"
      apply -
      apply (intro exI [of _ s'] exI [of _ Es] exI [of _ m] exI [of _ rho_new] conjI)
              apply assumption+
      done
  }
  {
    let ?v = "[[1 / 2, 1 / 2 :: real]]"
    from iter3_stop obtain s' where run: "solve_iter lib_diag solver3 1 1 None None (Some 2)
        None None = Inr (?v, s')"
      by blast
    note inst = solve_iter_linear_mixing [OF d w h run]
    have i0: "0 < length ?v" and i1: "Suc 0 = length ?v \<and> length ?v < nat 2"
      by simp_all
    note all = inst [THEN conjunct2, THEN conjunct2]
    from all [rule_format, OF i0, THEN conjunct2] obtain Es m rho_new where
      e: "length Es = 1" "length rho_new = 2"
        "brentq lib_diag (target_function (rnd lib_diag) (map (eigvalsh lib_diag) Es) 1 1 1)
            (mu_min solver3) (mu_max solver3) = Inr m"
      and c: "Suc 0 = length ?v \<and> length ?v < nat 2 \<longrightarrow>
                (\<Sum>a<2. (?v ! 0 ! a)\<^sup>2) \<noteq> 0
                \<and> sqrt (\<Sum>a<2. (?v ! 0 ! a - rho_new ! a)\<^sup>2)
                    / sqrt (\<Sum>a<2. (?v ! 0 ! a)\<^sup>2) < 1 / 10 ^ 9"
      by (elim exE conjE) (rule that; assumption)
    from c i1 have t: "(\<Sum>a<2. (?v ! 0 ! a)\<^sup>2) \<noteq> 0"
      "sqrt (\<Sum>a<2. (?v ! 0 ! a - rho_new ! a)\<^sup>2) / sqrt (\<Sum>a<2. (?v ! 0 ! a)\<^sup>2) < 1 / 10 ^ 9"
      by blast+
    have l: "length ?v < nat 2"
      by simp
    from run l e t show "\<exists>s' Es m rho_new.
       solve_iter lib_diag solver3 1 1 None None (Some 2) None None = Inr ([[1 / 2, 1 / 2]], s')
       \<and> length [[1 / 2, 1 / 2 :: real]] < nat 2 \<and> length Es = 1 \<and> length rho_new = 2
       \<and> brentq lib_diag (target_function (rnd lib_diag) (map (eigvalsh lib_diag) Es) 1 1 1)
            (mu_min solver3) (mu_max solver3) = Inr m
       \<and> (\<Sum>a<2. ([[1 / 2, 1 / 2]] ! 0 ! a)\<^sup>2) \<noteq> (0 :: real)
       \<and> sqrt (\<Sum>a<2. ([[1 / 2, 1 / 2]] ! 0 ! a - rho_new ! a)\<^sup>2)
           / sqrt (\<Sum>a<2. ([[1 / 2, 1 / 2]] ! 0 ! a)\<^sup>2) < 1 / 10 ^ 9"
      apply -
      apply (intro exI [of _ s'] exI [of _ Es] exI [of _ m] exI [of _ rho_new] conjI)
             apply assumption+
      done
  }
qed

text \<open>
  C4. When all \<open>nitermax\<close> iterations run and none passes the convergence test,
  \<^verbatim>\<open>solve_iter\<close> returns normally: the result is the trajectory of the \<open>nitermax\<close> recorded
  iterates, starting with the one of \<^verbatim>\<open>solve_setup\<close>, and no error is raised.
\<close>

theorem solve_iter_silent_exhaustion:
  assumes "w = default_to (1 / 2) mixing_arg" and "tol = default_to (1 / 10 ^ 9) tol_arg"
    and "nmax = default_to 100 nitermax_arg"
    and "0 \<le> w" and "w \<le> 1"
    and "solve_setup lib (s\<lparr>mixing := Some w, nitermax := Some nmax\<rparr>) bt N M0 mu0 = Inr (s0, rho0)"
    and "never_converges lib w tol (nat nmax) s0 rho0"
  shows "\<exists>rho_vec s'. solve_iter lib s bt N M0 mu0 nitermax_arg mixing_arg tol_arg = Inr (rho_vec, s')
           \<and> length rho_vec = nat nmax \<and> (0 < nat nmax \<longrightarrow> rho_vec ! 0 = rho0)"
proof -
  from never_converges_loop [OF assms(7), of "[]"] obtain traj s' where
    "solve_loop lib w tol (nat nmax) s0 rho0 [] = Inr (traj, s')" "length traj = nat nmax"
    "0 < nat nmax \<longrightarrow> traj ! 0 = rho0"
    by auto
  with assms(1-6) show ?thesis
    by (simp add: solve_iter_def Let_def)
qed

theorem solve_iter_silent_exhaustion_witness:
  "\<exists>rho_vec s'. solve_iter lib1 (solver1 0) 0 (1 / 2) None None (Some 3) (Some (1 / 2)) (Some 0)
       = Inr (rho_vec, s') \<and> length rho_vec = 3 \<and> rho_vec ! 0 = [1 / 2]"
proof -
  have n: "nat 3 = Suc (Suc (Suc 0))" by simp
  have "never_converges lib1 (1 / 2) 0 (nat 3) (run1_state 0 (1 / 2) 3) [1 / 2]"
    unfolding n by (rule never1)
  from solve_iter_silent_exhaustion [OF _ _ _ _ _ setup1 this, of "Some (1 / 2)" "Some 0" "Some 3"]
  show ?thesis by (simp add: default_to_def)
qed

text \<open>
  C7 (as the code has it). \<^verbatim>\<open>bare_response\<close> and \<^verbatim>\<open>response\<close> check both probe operators
  before use. They raise an assertion error when a probe does not have the target shape
  or has an entry off the diagonal of absolute value at least \<open>1.5e-7\<close>; for probes of the
  target shape whose off-diagonal entries are all smaller than that (diagonal probes among
  them) they return the double contraction of the diagonals against \<open>chi0_ab\<close> and
  \<open>chi_ab\<close>.
\<close>

theorem probe_check_tolerance:
  assumes "target_shape (r_e_k (base self)) = (n, n)"
    and "is_array op1" and "is_array op2"
  shows "(if is_mat n op1 \<and> almost_diagonal n op1 \<and> is_mat n op2 \<and> almost_diagonal n op2
          then bare_response self op1 op2
                 = Inr (\<Sum>a<n. \<Sum>b<n. op1 ! a ! a * chi0_ab self ! a ! b * op2 ! b ! b)
             \<and> response self op1 op2
                 = Inr (\<Sum>a<n. \<Sum>b<n. op1 ! a ! a * chi_ab self ! a ! b * op2 ! b ! b)
          else bare_response self op1 op2 = Inl AssertionError
             \<and> response self op1 op2 = Inl AssertionError)"
  using assms
  by (auto simp: bare_response_def response_def check_op_array einsum_aa_ab_bb_mat)

theorem probe_check_tolerance_witness:
  "target_shape (r_e_k (base resp2)) = (2, 2) \<and> is_array op_small
   \<and> is_mat 2 op_small \<and> almost_diagonal 2 op_small
   \<and> bare_response resp2 op_small op_small = Inr 2
   \<and> response resp2 op_small op_small = Inr 2"
  using probe_check_tolerance [OF resp2_shape is_array_op_small is_array_op_small]
    resp2_shape is_mat_op_small is_array_op_small almost_diagonal_op_small
  by (simp add: resp2_def op_small_def lessThan_Suc numeral_2_eq_2)

text \<open>
  C7 as stated fails: a probe with the off-diagonal entry \<open>1e-9\<close> is not diagonal, has the
  target shape, and both methods accept it.
\<close>

theorem nondiagonal_probe_accepted:
  "\<not> is_diagonal 2 op_small
   \<and> shape op_small = target_shape (r_e_k (base resp2))
   \<and> bare_response resp2 op_small op_small = Inr 2
   \<and> response resp2 op_small op_small = Inr 2"
  by (simp add: not_diagonal_op_small shape_is_mat [OF is_mat_op_small] resp2_shape
      bare_response_def response_def check_op_ok [OF resp2_shape is_mat_op_small]
      almost_diagonal_op_small einsum_aa_ab_bb_def)
     (simp add: resp2_def op_small_def lessThan_Suc numeral_2_eq_2)


text \<open>
  C10. The argument \<open>eps\<close> of \<^verbatim>\<open>HartreeResponse.__init__\<close> has no effect: any two values
  give the same object, the stored step is the default \<open>1e-9\<close> of the base class, and
  \<open>chi0_ab\<close> is computed with that step.
\<close>

theorem hartree_response_ignores_eps:
  "HartreeResponse_init lib hartree_solver eps_arg = HartreeResponse_init lib hartree_solver eps_arg'
   \<and> (case HartreeResponse_init lib hartree_solver eps_arg of
         Inl err \<Rightarrow> True
       | Inr r \<Rightarrow> r_eps (base r) = 1 / 10 ^ 9
           \<and> chi0_ab r = chi0_mat lib (r_e_k (base r)) (r_beta (base r)) (Some (1 / 10 ^ 9)))"
  by (simp add: HartreeResponse_init_def BaseResponse_init_def default_to_def Let_def
      split: sum.splits)

text \<open>
  C8 (as the code has it). For a dispersion of square blocks, a step \<open>eps \<noteq> 0\<close> and
  orbitals \<open>a\<close>, \<open>b\<close>, the entry \<open>chi0_ab[a, b]\<close> is the negative of the symmetric difference
  quotient \<open>(rho(+eps) - rho(-eps)) / (2 eps)\<close> of the k-averaged density matrix under the
  field \<open>\<plusminus> eps * F\<close>, \<open>F\<close> the projector on orbital \<open>a\<close>, read at the diagonal entry \<open>b\<close>.
\<close>

theorem chi0_mat_difference_quotient:
  assumes "wf_disp n ek" and "0 < mesh_len ek" and "eps = default_to (1 / 10 ^ 9) eps_arg"
    and "eps \<noteq> 0" and "a < n" and "b < n"
  shows "chi0_mat lib ek bt eps_arg ! a ! b =
           - ((rho_mf lib ek bt (Some (mscale (complex_of_real eps) (unit_field (n, n) a))) None ! b ! b
               - rho_mf lib ek bt (Some (mscale (complex_of_real (- eps)) (unit_field (n, n) a))) None ! b ! b)
              / (2 * complex_of_real eps))"
proof -
  let ?F = "unit_field (n, n) a"
  let ?P = "\<lambda>k. occ lib n bt (madd (data ek ! k) (mscale (complex_of_real eps) ?F)) b"
  let ?Q = "\<lambda>k. occ lib n bt (msub (data ek ! k) (mscale (complex_of_real eps) ?F)) b"
  have neg: "\<And>k. k < mesh_len ek \<Longrightarrow>
      madd (data ek ! k) (mscale (- complex_of_real eps) ?F)
        = msub (data ek ! k) (mscale (complex_of_real eps) ?F)"
    by (rule madd_neg_scale [OF wf_disp_block [OF assms(1)] is_mat_unit_field])
  have rp: "rho_mf lib ek bt (Some (mscale (complex_of_real eps) ?F)) None ! b ! b
              = (\<Sum>k<mesh_len ek. ?P k) / of_nat (mesh_len ek)"
    by (rule rho_mf_nth [OF assms(1) is_mat_mscale [OF is_mat_unit_field] assms(6)])
  have "(\<Sum>k<mesh_len ek. occ lib n bt (madd (data ek ! k) (mscale (complex_of_real (- eps)) ?F)) b)
          = (\<Sum>k<mesh_len ek. ?Q k)"
    by (rule sum.cong [OF refl]) (simp add: neg)
  then have rm: "rho_mf lib ek bt (Some (mscale (complex_of_real (- eps)) ?F)) None ! b ! b
              = (\<Sum>k<mesh_len ek. ?Q k) / of_nat (mesh_len ek)"
    using rho_mf_nth [OF assms(1) is_mat_mscale [OF is_mat_unit_field] assms(6),
        of lib bt "complex_of_real (- eps)" a]
    by simp
  have "chi0_mat lib ek bt eps_arg ! a ! b
          = - ((\<Sum>k<mesh_len ek. (?P k - ?Q k) / (2 * complex_of_real eps)) / of_nat (mesh_len ek))"
    using chi0_mat_nth [OF assms(1,5,6)] chi0_op_nth [OF assms(1,6)] assms(3) by simp
  also have "(\<Sum>k<mesh_len ek. (?P k - ?Q k) / (2 * complex_of_real eps))
               = ((\<Sum>k<mesh_len ek. ?P k) - (\<Sum>k<mesh_len ek. ?Q k)) / (2 * complex_of_real eps)"
    by (simp add: sum_divide_distrib [symmetric] sum_subtractf)
  finally show ?thesis
    unfolding rp rm by (simp add: diff_divide_distrib mult_ac)
qed

theorem chi0_mat_difference_quotient_witness:
  "wf_disp 1 disp1 \<and> 0 < mesh_len disp1 \<and> (1::real) = default_to (1 / 10 ^ 9) (Some 1)
   \<and> (1::real) \<noteq> 0
   \<and> chi0_mat lib1 disp1 1 (Some 1) ! 0 ! 0 =
       - ((rho_mf lib1 disp1 1 (Some (mscale (complex_of_real 1) (unit_field (1, 1) 0))) None ! 0 ! 0
           - rho_mf lib1 disp1 1 (Some (mscale (complex_of_real (- 1)) (unit_field (1, 1) 0))) None ! 0 ! 0)
          / (2 * complex_of_real 1))"
proof -
  have h: "0 < mesh_len disp1" "(1::real) = default_to (1 / 10 ^ 9) (Some 1)" "(1::real) \<noteq> 0"
    "(0::nat) < 1"
    by (simp_all add: mesh_len_def disp1_def default_to_def)
  from chi0_mat_difference_quotient [OF wf_disp1 h(1,2,3,4,4), of lib1 1] wf_disp1 h
  show ?thesis by blast
qed

text \<open>
  C8 as stated, without the change of sign, fails for one orbital at energy \<open>0\<close> with
  \<open>beta = 1\<close> and \<open>eps = 1\<close>.
\<close>

theorem chi0_mat_sign_counterexample:
  "chi0_mat lib1 disp1 1 (Some 1) ! 0 ! 0 \<noteq>
     (rho_mf lib1 disp1 1 (Some (mscale (complex_of_real 1) (unit_field (1, 1) 0))) None ! 0 ! 0
      - rho_mf lib1 disp1 1 (Some (mscale (complex_of_real (- 1)) (unit_field (1, 1) 0))) None ! 0 ! 0)
     / (2 * complex_of_real 1)"
proof -
  let ?x = "complex_of_real (fermi 1 1) - complex_of_real (fermi (- 1) 1)"
  have "?x \<noteq> 0"
    using fermi_neq by simp
  then have ne: "- (?x / 2) \<noteq> ?x / 2"
    by (rule neg_half_neq)
  have l: "chi0_mat lib1 disp1 1 (Some 1) ! 0 ! 0 = - (?x / 2)"
    by (simp add: chi0_mat1)
  have r: "(rho_mf lib1 disp1 1 (Some (mscale (complex_of_real 1) (unit_field (1, 1) 0))) None ! 0 ! 0
      - rho_mf lib1 disp1 1 (Some (mscale (complex_of_real (- 1)) (unit_field (1, 1) 0))) None ! 0 ! 0)
     / (2 * complex_of_real 1) = ?x / 2"
    by (simp add: unit1 mscale_def rho_mf1)
  show ?thesis
    unfolding l r by (rule ne)
qed

text \<open>
  C6. For a solver whose interaction matrix \<open>U_ab\<close> is zero, the constructor of
  \<^verbatim>\<open>HartreeResponse\<close> succeeds with \<open>chi_ab = chi0_ab\<close>, and \<^verbatim>\<open>response(op1, op2)\<close> equals
  \<^verbatim>\<open>bare_response(op1, op2)\<close> for all probe operators (with the same outcome of the
  checks), for any inverse routine that inverts the identity.
\<close>

theorem zero_interaction_response:
  assumes "inv_contract n (linalg_inv lib)"
    and "target_shape (e_k_MF sv) = (n, n)"
    and "U_ab sv = np_zeros (n, n)"
  shows "\<exists>r. HartreeResponse_init lib sv eps_arg = Inr r \<and> chi_ab r = chi0_ab r
           \<and> (\<forall>op1 op2. response r op1 op2 = bare_response r op1 op2)"
proof -
  let ?self = "BaseResponse_init sv None"
  let ?chi0 = "chi0_mat lib (r_e_k ?self) (r_beta ?self) (Some (r_eps ?self))"
  have sh: "target_shape (r_e_k ?self) = (n, n)" and nb: "r_norb ?self = n"
    and sv: "r_solver ?self = sv"
    using assms(2) by (simp_all add: BaseResponse_init_def Let_def)
  have chi0: "is_mat n ?chi0"
    by (rule is_mat_chi0_mat [OF sh])
  have arg: "msub (np_eye n) (matmul (U_ab sv) ?chi0) = np_eye n"
    by (simp add: assms(3) matmul_zeros_left [OF chi0] msub_eye_zeros)
  have "matmul (np_eye n) (np_eye n) = np_eye n"
    by (rule matmul_eye_right [OF is_mat_np_eye])
  with assms(1) have inv: "linalg_inv lib (np_eye n) = Inr (np_eye n)"
    unfolding inv_contract_def using is_mat_np_eye by blast
  have "HartreeResponse_init lib sv eps_arg
          = Inr \<lparr> base = ?self, chi0_ab = ?chi0, chi_ab = ?chi0 \<rparr>"
    by (simp add: HartreeResponse_init_def Let_def nb sv arg inv matmul_eye_right [OF chi0])
  then show ?thesis
    by (simp add: response_def bare_response_def check_op_def)
qed

theorem zero_interaction_response_witness:
  "inv_contract 1 (linalg_inv lib1) \<and> target_shape (e_k_MF (solver1 0)) = (1, 1)
   \<and> U_ab (solver1 0) = np_zeros (1, 1)
   \<and> (\<exists>r. HartreeResponse_init lib1 (solver1 0) (Some 1) = Inr r \<and> chi_ab r = chi0_ab r
           \<and> (\<forall>op1 op2. response r op1 op2 = bare_response r op1 op2))"
proof -
  have h: "inv_contract 1 (linalg_inv lib1)" "target_shape (e_k_MF (solver1 0)) = (1, 1)"
    "U_ab (solver1 0) = np_zeros (1, 1)"
    using inv1_contract by (simp_all add: lib1_def solver1_def disp1_def np_zeros_def)
  from zero_interaction_response [OF h] h show ?thesis
    by blast
qed

text \<open>
  C3. The chemical-potential update hands the target function and the bracket
  \<open>[mu_min, mu_max]\<close> (by default \<open>[-10, 10]\<close>) to the root-finder and returns what the
  root-finder gives. In exact arithmetic the target function is
  \<open>m \<mapsto> \<Sum>\<^sub>k Tr f(eps\<^sub>k - m) / N\<^sub>k - N_tot\<close>, over the eigenvalues that \<^verbatim>\<open>eigvalsh\<close> returns. With a
  root-finder that behaves at this call as \<^verbatim>\<open>brentq\<close> does, the update raises \<^verbatim>\<open>ValueError\<close>
  when the target function has the same strict sign at both ends of the bracket, and
  otherwise it returns: only \<open>mu\<close> has changed, the new \<open>mu\<close> lies in the bracket, and the
  target function vanishes there up to the root-finder's residual.
\<close>

theorem chemical_potential_root_find:
  assumes "f = target_function (rnd lib) (map (eigvalsh lib) (data (e_k_MF s)))
                 (mesh_len (e_k_MF s)) bt N"
    and "brentq_contract d (brentq lib) f (mu_min s) (mu_max s)"
  shows "(rnd lib = (\<lambda>x. x) \<longrightarrow>
            (\<forall>m. f m = (\<Sum>ek\<leftarrow>map (eigvalsh lib) (data (e_k_MF s)).
                          \<Sum>x\<leftarrow>ek. 1 / (exp (bt * (x - m)) + 1))
                        / real (mesh_len (e_k_MF s)) - N))
       \<and> update_chemical_potential lib s bt N mu0
           = (case brentq lib f (mu_min s) (mu_max s) of
                Inl err \<Rightarrow> Inl err
              | Inr m \<Rightarrow> Inr (s\<lparr>mu := m\<rparr>))
       \<and> (f (mu_min s) * f (mu_max s) > 0
            \<longrightarrow> update_chemical_potential lib s bt N mu0 = Inl ValueError)
       \<and> (\<not> f (mu_min s) * f (mu_max s) > 0
            \<longrightarrow> (\<exists>m. update_chemical_potential lib s bt N mu0 = Inr (s\<lparr>mu := m\<rparr>)
                   \<and> min (mu_min s) (mu_max s) \<le> m \<and> m \<le> max (mu_min s) (mu_max s)
                   \<and> \<bar>f m\<bar> \<le> d))
       \<and> (\<forall>ek U s0. solver_init ek U None None = Inr s0 \<longrightarrow> mu_min s0 = - 10 \<and> mu_max s0 = 10)"
proof (intro conjI allI impI)
  fix m assume "rnd lib = (\<lambda>x. x)"
  with assms(1) show "f m = (\<Sum>ek\<leftarrow>map (eigvalsh lib) (data (e_k_MF s)).
                          \<Sum>x\<leftarrow>ek. 1 / (exp (bt * (x - m)) + 1))
                        / real (mesh_len (e_k_MF s)) - N"
    by (simp add: target_function_exact fermi_def)
next
  show upd: "update_chemical_potential lib s bt N mu0
           = (case brentq lib f (mu_min s) (mu_max s) of
                Inl err \<Rightarrow> Inl err
              | Inr m \<Rightarrow> Inr (s\<lparr>mu := m\<rparr>))"
    by (simp add: update_chemical_potential_def Let_def assms(1))
  {
    assume "f (mu_min s) * f (mu_max s) > 0"
    with assms(2) have "brentq lib f (mu_min s) (mu_max s) = Inl ValueError"
      by (simp add: brentq_contract_def)
    then show "update_chemical_potential lib s bt N mu0 = Inl ValueError"
      by (simp add: upd)
  }
  {
    assume "\<not> f (mu_min s) * f (mu_max s) > 0"
    with assms(2) obtain x where "brentq lib f (mu_min s) (mu_max s) = Inr x"
      "min (mu_min s) (mu_max s) \<le> x" "x \<le> max (mu_min s) (mu_max s)" "\<bar>f x\<bar> \<le> d"
      by (auto simp: brentq_contract_def)
    then show "\<exists>m. update_chemical_potential lib s bt N mu0 = Inr (s\<lparr>mu := m\<rparr>)
                   \<and> min (mu_min s) (mu_max s) \<le> m \<and> m \<le> max (mu_min s) (mu_max s)
                   \<and> \<bar>f m\<bar> \<le> d"
      by (intro exI [of _ x]) (simp add: upd)
  }
  {
    fix ek U s0 assume "solver_init ek U None None = Inr s0"
    then have "s0 = \<lparr> mu = 0, beta = - 1, mu_max = 10, mu_min = - 10,
                e_k = ek, e_k_MF = ek, norb = fst (target_shape ek), U_ab = extract_dens_dens U,
                M = None, rho = None, N_tot = None, mixing = None, nitermax = None \<rparr>"
      by (auto simp: solver_init_def Let_def default_to_def split: if_splits)
    then show "mu_min s0 = - 10" "mu_max s0 = 10" by simp_all
  }
qed

theorem chemical_potential_root_find_witness:
  "brentq_contract 0 (brentq lib1) (\<lambda>m. fermi (- m) 1 - 1 / 2) (- 10) 10
   \<and> update_chemical_potential lib1 (solver1 0) 1 (1 / 2) None = Inr (solver1 0\<lparr>mu := 0\<rparr>)
   \<and> fermi (- 0) 1 - 1 / 2 = 0
   \<and> brentq_contract 0 (brentq lib1) (\<lambda>m. fermi (- m) 1 - 2) (- 10) 10
   \<and> update_chemical_potential lib1 (solver1 0) 1 2 None = Inl ValueError"
proof -
  let ?f = "\<lambda>m :: real. fermi (- m) 1 - 1 / 2"
  let ?g = "\<lambda>m :: real. fermi (- m) 1 - 2"
  have b: "mu_min (solver1 0) = - 10" "mu_max (solver1 0) = 10"
    by (simp_all add: solver1_def)
  have fa: "?f (- 10) < 0" and fb: "0 < ?f 10"
    using fermi_lt_half [of 1 10] fermi_gt_half [of 1 "- 10"] by simp_all
  then have prod: "?f (- 10) * ?f 10 < 0"
    by (simp add: mult_neg_pos)
  have root: "brentq_model ?f (- 10) 10 = Inr 0"
    using brentq_model_mid [of ?f "- 10" 10] prod by (simp add: fermi_zero)
  have cf: "brentq_contract 0 (brentq lib1) ?f (- 10) 10"
    using prod root by (simp add: brentq_contract_def lib1_def fermi_zero not_less [symmetric])
  have "?g (- 10) < 0" "?g 10 < 0"
    using fermi_less_one [of 10 1] fermi_less_one [of "- 10" 1] by simp_all
  then have gprod: "?g (- 10) * ?g 10 > 0"
    by (simp add: mult_neg_neg)
  then have cg: "brentq_contract 0 (brentq lib1) ?g (- 10) 10"
    by (simp add: brentq_contract_def lib1_def brentq_model_def)
  note inst = chemical_potential_root_find [of ?f lib1 "solver1 0" 1 "1 / 2" 0 None,
      unfolded b, OF target1 [symmetric] cf]
  note inst2 = chemical_potential_root_find [of ?g lib1 "solver1 0" 1 2 0 None,
      unfolded b, OF target1 [symmetric] cg]
  from inst root have ok: "update_chemical_potential lib1 (solver1 0) 1 (1 / 2) None
      = Inr (solver1 0\<lparr>mu := 0\<rparr>)"
    by (simp add: lib1_def)
  from inst2 gprod have bad: "update_chemical_potential lib1 (solver1 0) 1 2 None = Inl ValueError"
    by blast
  from cf cg ok bad show ?thesis
    by (simp add: fermi_zero)
qed

text \<open>
  C2. For a dispersion whose blocks are Hermitian (at least one k-point), a Hermitian or
  absent mean field \<open>M\<close> and any \<open>beta\<close> and \<open>mu\<close>, the matrix that \<^verbatim>\<open>rho_mf\<close> returns is
  Hermitian, each of its eigenvalues is real and lies in \<open>[0, 1]\<close>, and its trace is real
  and lies in \<open>[0, norb]\<close>; the same holds for the matrix that the solver's density-matrix
  update stores, whose real diagonal it returns. The eigensolver is any routine that
  returns real eigenvalues and a unitary matrix of eigenvectors for a Hermitian matrix.
\<close>

theorem density_matrix_hermitian_bounded:
  assumes "eigh_contract n (eigh lib)"
    and "hermitian_disp n ek" and "0 < mesh_len ek"
    and "case M_arg of None \<Rightarrow> True | Some m \<Rightarrow> hermitian n m"
    and "e_k_MF s = ek"
  shows "density_matrix_ok n (rho_mf lib ek bt M_arg mu_arg)
       \<and> (\<exists>R. rho (fst (update_density_matrix lib s bt)) = Some R \<and> density_matrix_ok n R
              \<and> snd (update_density_matrix lib s bt) = map Re (np_diag_mat R))"
proof
  let ?M = "default_to (np_zeros (target_shape ek)) M_arg"
  let ?mu = "default_to 0 mu_arg"
  let ?Es = "map (\<lambda>Ek. msub (madd Ek ?M) (mscale (complex_of_real ?mu) (np_eye n))) (data ek)"
  have sh: "target_shape ek = (n, n)"
    using assms(2) by (simp add: hermitian_disp_def)
  have M: "hermitian n ?M"
    using assms(4) by (cases M_arg) (simp_all add: default_to_def sh hermitian_np_zeros)
  have h: "\<forall>k<length ?Es. hermitian n (?Es ! k)"
    using hermitian_disp_block [OF assms(2)] M
    by (simp add: mesh_len_def hermitian_msub hermitian_madd hermitian_real_eye)
  have nk: "0 < length ?Es"
    using assms(3) by (simp add: mesh_len_def)
  from density_matrix_ok_blocks [OF assms(1) nk h, of "\<lambda>x. x" bt]
  show "density_matrix_ok n (rho_mf lib ek bt M_arg mu_arg)"
    by (simp add: rho_mf_def Let_def sh mesh_len_def comp_def)
next
  let ?Es = "data ek"
  have sh: "target_shape ek = (n, n)"
    using assms(2) by (simp add: hermitian_disp_def)
  have h: "\<forall>k<length ?Es. hermitian n (?Es ! k)"
    using hermitian_disp_block [OF assms(2)] by (simp add: mesh_len_def)
  have nk: "0 < length ?Es"
    using assms(3) by (simp add: mesh_len_def)
  from density_matrix_ok_blocks [OF assms(1) nk h, of "\<lambda>x. x - mu s" bt]
  show "\<exists>R. rho (fst (update_density_matrix lib s bt)) = Some R \<and> density_matrix_ok n R
              \<and> snd (update_density_matrix lib s bt) = map Re (np_diag_mat R)"
    by (simp add: update_density_matrix_def Let_def assms(5) sh mesh_len_def comp_def)
qed

theorem density_matrix_hermitian_bounded_witness:
  "eigh_contract 1 (eigh lib1) \<and> hermitian_disp 1 disp1 \<and> 0 < mesh_len disp1
   \<and> e_k_MF (solver1 0) = disp1
   \<and> density_matrix_ok 1 (rho_mf lib1 disp1 1 None None)
   \<and> (\<exists>R. rho (fst (update_density_matrix lib1 (solver1 0) 1)) = Some R \<and> density_matrix_ok 1 R
          \<and> snd (update_density_matrix lib1 (solver1 0) 1) = map Re (np_diag_mat R))"
proof -
  have h: "eigh_contract 1 (eigh lib1)" "hermitian_disp 1 disp1" "0 < mesh_len disp1"
    "case (None :: cmat option) of None \<Rightarrow> True | Some m \<Rightarrow> hermitian 1 m"
    "e_k_MF (solver1 0) = disp1"
    using eigh1_contract hermitian_disp1
    by (simp_all add: lib1_def mesh_len_def disp1_def solver1_def)
  from density_matrix_hermitian_bounded [OF h, of 1 None] h show ?thesis
    by blast
qed

text \<open>
  C9 (as the code has it). In the module's namespace, \<^verbatim>\<open>chi0_op_accurate\<close> and
  \<^verbatim>\<open>local_density_matrix\<close> raise \<^verbatim>\<open>NameError\<close> for every input. \<^verbatim>\<open>_compute_drho_dop\<close> returns for
  no input: it raises \<^verbatim>\<open>ValueError\<close> when the shapes of \<open>op\<close> and of the blocks do not
  broadcast, \<^verbatim>\<open>LinAlgError\<close> when the broadcast blocks are not square, and \<^verbatim>\<open>NameError\<close>
  otherwise. \<^verbatim>\<open>_compute_R_ab\<close> and \<^verbatim>\<open>_compute_R_abcd\<close> raise \<^verbatim>\<open>NameError\<close> whenever there is at
  least one orbital; without orbitals their loops have no iteration and they return the
  empty array.
\<close>

theorem undefined_names_raise:
  "chi0_op_accurate lib module_globals ek bt op eps_arg = Inl NameError
   \<and> local_density_matrix lib module_globals ek bt = Inl NameError
   \<and> compute_drho_dop lib module_globals self op
       = (case broadcast_shape (target_shape (r_e_k self)) (shape op) of
            None \<Rightarrow> Inl ValueError
          | Some sh \<Rightarrow> if fst sh = snd sh then Inl NameError else Inl LinAlgError)
   \<and> (\<forall>r. compute_drho_dop lib module_globals self op \<noteq> Inr r)
   \<and> compute_R_ab module_globals self
       = (if r_norb self = 0 then Inr (np_zeros (shape_ab self)) else Inl NameError)
   \<and> compute_R_abcd module_globals self fp
       = (if r_norb self = 0
          then Inr (replicate (shape_abcd self ! 0) (replicate (shape_abcd self ! 1)
                      (np_zeros (shape_abcd self ! 2, shape_abcd self ! 3))))
          else Inl NameError)"
proof (intro conjI allI)
  show "chi0_op_accurate lib module_globals ek bt op eps_arg = Inl NameError"
    by (simp add: chi0_op_accurate_def Let_def unbound)
  show "local_density_matrix lib module_globals ek bt = Inl NameError"
    by (simp add: local_density_matrix_def Let_def unbound)
  show d: "compute_drho_dop lib module_globals self op
       = (case broadcast_shape (target_shape (r_e_k self)) (shape op) of
            None \<Rightarrow> Inl ValueError
          | Some sh \<Rightarrow> if fst sh = snd sh then Inl NameError else Inl LinAlgError)"
    by (simp add: compute_drho_dop_def Let_def unbound split: option.splits)
  show "compute_drho_dop lib module_globals self op \<noteq> Inr r" for r
    unfolding d by (simp split: option.splits)
  show "compute_R_ab module_globals self
       = (if r_norb self = 0 then Inr (np_zeros (shape_ab self)) else Inl NameError)"
    by (simp add: compute_R_ab_def unbound for_each_raise)
  show "compute_R_abcd module_globals self fp
       = (if r_norb self = 0
          then Inr (replicate (shape_abcd self ! 0) (replicate (shape_abcd self ! 1)
                      (np_zeros (shape_abcd self ! 2, shape_abcd self ! 3))))
          else Inl NameError)"
    by (simp add: compute_R_abcd_def unbound for_each_raise pairs_empty)
qed

text \<open>
  C9 as stated fails twice. For a solver without orbitals \<^verbatim>\<open>_compute_R_ab\<close> and
  \<^verbatim>\<open>_compute_R_abcd\<close> return; and on two orbitals \<^verbatim>\<open>_compute_drho_dop\<close> fails for a
  three-by-three \<open>op\<close> with \<^verbatim>\<open>ValueError\<close>, before any unbound name is reached.
\<close>

theorem empty_loop_returns:
  "solver_init disp0 [] None None = Inr solver0
   \<and> compute_R_ab module_globals (BaseResponse_init solver0 None) = Inr []
   \<and> compute_R_abcd module_globals (BaseResponse_init solver0 None) None = Inr []
   \<and> compute_drho_dop lib1 module_globals (BaseResponse_init solver2 None) (np_eye 3)
       = Inl ValueError"
  by (simp add: solver_init_def solver0_def disp0_def extract_dens_dens_def shape_def default_to_def
      compute_R_ab_def compute_R_abcd_def BaseResponse_init_def Let_def np_zeros_def
      compute_drho_dop_def solver2_def disp2_def broadcast_shape_def bdim_def np_eye_def)

end
